(* ===== verification/Prelude.thy ===== *)
theory Prelude
  imports Complex_Main "HOL-Library.Word" "HOL-Library.AList"
begin

text \<open>
  Shared vocabulary of the development: the machine types of the Rust sources, the
  theorem collections the component proofs feed, association lists (the executable
  reading of a Rust \<open>HashMap\<close>), the list operations of the standard library the
  sources use, and the lemmas about them that several components need.
\<close>

section \<open>Types\<close>

type_synonym u8 = "8 word"
type_synonym u16 = "16 word"
type_synonym u32 = "32 word"
type_synonym u64 = "64 word"

text \<open>
  Signed 64-bit values (epoch milliseconds, SQLite integers) are integers; the one place
  where the code relies on saturation writes it out. A \<open>f64\<close> is its exact rational
  value: rounding is not modelled, and the code that tests for non-finite values has its
  own type for them (theory \<open>Translate\<close>).
\<close>

type_synonym i64 = int
type_synonym f64 = rat

named_theorems store_simps \<open>characteristic equations of the persistent stores\<close>
named_theorems relay_simps \<open>characteristic equations of the relay state machines\<close>
named_theorems inv_intros \<open>preservation of the component invariants\<close>

section \<open>Casts\<close>

definition i64_of_u64 :: "u64 \<Rightarrow> i64" where
  "i64_of_u64 w = sint w"

definition u64_of_i64 :: "i64 \<Rightarrow> u64" where
  "u64_of_i64 i = word_of_int i"

lemma u64_of_i64_of_u64 [simp]: "u64_of_i64 (i64_of_u64 w) = w"
  by (simp add: u64_of_i64_def i64_of_u64_def)

lemma u64_of_i64_add [simp]: "u64_of_i64 (i + j) = u64_of_i64 i + u64_of_i64 j"
  by (simp add: u64_of_i64_def)

lemma u64_of_i64_0 [simp]: "u64_of_i64 0 = 0"
  by (simp add: u64_of_i64_def)

definition f64_of_u64 :: "u64 \<Rightarrow> f64" where
  "f64_of_u64 w = of_nat (unat w)"

definition f64_of_u32 :: "u32 \<Rightarrow> f64" where
  "f64_of_u32 w = of_nat (unat w)"

definition u64_of_u32 :: "u32 \<Rightarrow> u64" where
  "u64_of_u32 w = word_of_nat (unat w)"

lemma f64_of_u32_nonneg [simp]: "0 \<le> f64_of_u32 w"
  by (simp add: f64_of_u32_def del: of_nat_unat)

lemma f64_of_u64_nonneg [simp]: "0 \<le> f64_of_u64 w"
  by (simp add: f64_of_u64_def del: of_nat_unat)

lemma f64_of_u64_eq_0 [simp]: "f64_of_u64 w = 0 \<longleftrightarrow> w = 0"
  by (simp add: f64_of_u64_def unat_eq_zero del: of_nat_unat)

lemma f64_of_u32_eq_0 [simp]: "f64_of_u32 w = 0 \<longleftrightarrow> w = 0"
  by (simp add: f64_of_u32_def unat_eq_zero del: of_nat_unat)

definition i64_max :: i64 where
  "i64_max = 9223372036854775807"

definition i64_min :: i64 where
  "i64_min = - 9223372036854775808"

definition saturating_mul :: "i64 \<Rightarrow> i64 \<Rightarrow> i64" where
  "saturating_mul a b = max i64_min (min i64_max (a * b))"

lemma saturating_mul_exact:
  "i64_min \<le> a * b \<Longrightarrow> a * b \<le> i64_max \<Longrightarrow> saturating_mul a b = a * b"
  by (simp add: saturating_mul_def)

text \<open>Rust's \<open>/\<close> on signed integers truncates towards zero.\<close>

definition div_trunc :: "i64 \<Rightarrow> i64 \<Rightarrow> i64" where
  "div_trunc a b = sgn a * sgn b * (\<bar>a\<bar> div \<bar>b\<bar>)"

lemma div_trunc_pos: "0 \<le> a \<Longrightarrow> 0 < b \<Longrightarrow> div_trunc a b = a div b"
  by (cases "a = 0") (simp_all add: div_trunc_def sgn_if)

section \<open>Database statements\<close>

text \<open>
  Every SQL statement of the sources can fail. The outcome is the environment's: an
  operation that runs statements takes a predicate telling which of them succeed, and
  treats a failure the way the code does (an ignored result, an empty list, an error).
  The statements themselves are translated from their SQL text.
\<close>

datatype db_stmt =
    InsertOrder | SelectOrder | SelectOrders | SelectWorkerOrders | SelectWorkerActive
  | SelectActive | UpdateWork string | UpdateCancelled string | UpdateEnded string
  | SelectRig | UpsertRig | UpdateRentable | DeleteRig | SelectRigs | SelectSellerRigs
  | UpsertSample | SelectSamples | DeleteSamples

datatype db_error = DbError

type_synonym db_oracle = "db_stmt \<Rightarrow> bool"

definition db_up :: db_oracle where
  "db_up stmt = True"

lemma db_up [simp]: "db_up stmt"
  by (simp add: db_up_def)

section \<open>Lists\<close>

definition position :: "('a \<Rightarrow> bool) \<Rightarrow> 'a list \<Rightarrow> nat option" where
  "position P xs = (let n = length (takeWhile (\<lambda>x. \<not> P x) xs)
     in if n < length xs then Some n else None)"

lemma position_Nil [simp]: "position P [] = None"
  by (simp add: position_def)

lemma position_Cons [simp]:
  "position P (x # xs) = (if P x then Some 0 else map_option Suc (position P xs))"
  by (simp add: position_def Let_def)

lemma position_None: "position P xs = None \<longleftrightarrow> (\<forall>x\<in>set xs. \<not> P x)"
  by (induction xs) auto

lemma position_Some:
  "position P xs = Some i \<Longrightarrow> i < length xs \<and> P (xs ! i) \<and> (\<forall>j<i. \<not> P (xs ! j))"
proof (induction xs arbitrary: i)
  case Nil
  then show ?case by simp
next
  case (Cons x xs)
  show ?case
  proof (cases "P x")
    case True
    with Cons.prems show ?thesis by simp
  next
    case False
    with Cons.prems obtain k where k: "position P xs = Some k" "i = Suc k"
      by auto
    from Cons.IH [OF k(1)] k(2) False show ?thesis
      by (auto simp: nth_Cons split: nat.splits)
  qed
qed

definition list_remove_at :: "nat \<Rightarrow> 'a list \<Rightarrow> 'a list" where
  "list_remove_at i xs = take i xs @ drop (Suc i) xs"

text \<open>\<open>Vec::swap_remove\<close>: the removed element and the vector with its last element moved
  into the gap. The source only calls it with an index in range.\<close>

definition swap_remove :: "nat \<Rightarrow> 'a list \<Rightarrow> 'a \<times> 'a list" where
  "swap_remove i xs = (xs ! i,
     (if Suc i = length xs then butlast xs else butlast (xs[i := last xs])))"

text \<open>\<open>Iterator::find\<close> is the library's \<open>List.find\<close>.\<close>

lemma find_in_set: "List.find P xs = Some x \<Longrightarrow> x \<in> set xs \<and> P x"
  by (auto simp: find_Some_iff)

lemma find_is_Some: "(\<exists>x. List.find P xs = Some x) \<longleftrightarrow> (\<exists>x\<in>set xs. P x)"
  using find_None_iff [of P xs] by (cases "List.find P xs") auto

text \<open>Updating the first element that satisfies a predicate: \<open>iter_mut().find(..)\<close>.\<close>

fun update_first :: "('a \<Rightarrow> bool) \<Rightarrow> ('a \<Rightarrow> 'a) \<Rightarrow> 'a list \<Rightarrow> 'a list" where
  "update_first P f [] = []"
| "update_first P f (x # xs) = (if P x then f x # xs else x # update_first P f xs)"

lemma length_update_first [simp]: "length (update_first P f xs) = length xs"
  by (induction xs) auto

lemma map_update_first:
  assumes "\<And>x. g (f x) = g x"
  shows "map g (update_first P f xs) = map g xs"
  using assms by (induction xs) auto

lemma set_update_first: "x \<in> set (update_first P f xs) \<Longrightarrow> x \<in> set xs \<or> x \<in> f ` set xs"
  by (induction xs) (auto split: if_splits)

section \<open>Association lists\<close>

text \<open>
  A \<open>HashMap\<close> is a list of pairs with distinct keys; \<open>map_of\<close> looks a key up,
  \<open>AList.update\<close> inserts or overwrites, \<open>AList.delete\<close> removes. The iteration order of
  a \<open>HashMap\<close> is unspecified in Rust; here it is the order of the list, and every
  claim is about an arbitrary list.
\<close>

definition al_keys_distinct :: "('k \<times> 'v) list \<Rightarrow> bool" where
  "al_keys_distinct m \<longleftrightarrow> distinct (map fst m)"

lemma al_keys_distinct_Nil [simp]: "al_keys_distinct []"
  by (simp add: al_keys_distinct_def)

lemma al_keys_distinct_update [simp]:
  "al_keys_distinct m \<Longrightarrow> al_keys_distinct (AList.update k v m)"
  by (simp add: al_keys_distinct_def distinct_update)

lemma al_keys_distinct_delete [simp]:
  "al_keys_distinct m \<Longrightarrow> al_keys_distinct (AList.delete k m)"
  by (simp add: al_keys_distinct_def distinct_delete)

lemma map_of_update [simp]: "map_of (AList.update k v m) = (map_of m)(k \<mapsto> v)"
  by (rule update_conv')

lemma map_of_delete [simp]: "map_of (AList.delete k m) = (map_of m)(k := None)"
  by (rule delete_conv')

lemma map_of_filter_keep:
  "al_keys_distinct m \<Longrightarrow>
   map_of (filter (\<lambda>(k, v). P k v) m) k =
     (case map_of m k of None \<Rightarrow> None | Some v \<Rightarrow> if P k v then Some v else None)"
proof (induction m)
  case Nil
  then show ?case by simp
next
  case (Cons kv m)
  obtain k' v' where kv: "kv = (k', v')" by (cases kv)
  from Cons.prems kv have notin: "k' \<notin> fst ` set m" and d: "al_keys_distinct m"
    by (auto simp: al_keys_distinct_def)
  show ?case
  proof (cases "k = k'")
    case True
    from notin have "map_of (filter (\<lambda>(k, v). P k v) m) k' = None"
      by (auto simp: map_of_eq_None_iff)
    with True kv show ?thesis by simp
  next
    case False
    with Cons.IH [OF d] kv show ?thesis by simp
  qed
qed

lemma al_keys_distinct_filter: "al_keys_distinct m \<Longrightarrow> al_keys_distinct (filter P m)"
  unfolding al_keys_distinct_def by (rule distinct_map_filter)

lemma map_of_in_set: "map_of m k = Some v \<Longrightarrow> (k, v) \<in> set m"
  by (rule map_of_SomeD)

end
