(* ===== verification/Rust_Str.thy ===== *)
theory Rust_Str
  imports Prelude
begin

text \<open>
  The string operations of the Rust standard library that the sources call. A string is
  a list of code points, restricted to the Latin-1 range (\<open>char\<close>); white space is the
  Unicode \<open>White_Space\<close> property on that range, which is what \<open>str::trim\<close> uses.
\<close>

section \<open>White space, case\<close>

definition is_ws :: "char \<Rightarrow> bool" where
  "is_ws c = ((of_char c :: nat) \<in> {9, 10, 11, 12, 13, 32, 133, 160})"

definition trim :: "string \<Rightarrow> string" where
  "trim s = rev (dropWhile is_ws (rev (dropWhile is_ws s)))"

definition ascii_lower :: "char \<Rightarrow> char" where
  "ascii_lower c = (let n = (of_char c :: nat)
     in if 65 \<le> n \<and> n \<le> 90 then char_of (n + 32) else c)"

definition eq_ignore_ascii_case :: "string \<Rightarrow> string \<Rightarrow> bool" where
  "eq_ignore_ascii_case a b = (map ascii_lower a = map ascii_lower b)"

lemma ascii_lower_nonletter:
  assumes k: "(of_char k :: nat) < 65 \<or> 122 < (of_char k :: nat)"
  shows "ascii_lower c = k \<longleftrightarrow> c = k"
proof (cases "65 \<le> (of_char c :: nat) \<and> (of_char c :: nat) \<le> 90")
  case True
  then have "(of_char (ascii_lower c) :: nat) = of_char c + 32"
    by (simp add: ascii_lower_def Let_def)
  with True k show ?thesis by auto
next
  case False
  then show ?thesis by (auto simp: ascii_lower_def Let_def)
qed

lemma ascii_lower_colon [simp]: "ascii_lower c = CHR '':'' \<longleftrightarrow> c = CHR '':''"
  by (rule ascii_lower_nonletter) simp

lemma ascii_lower_slash [simp]: "ascii_lower c = CHR ''/'' \<longleftrightarrow> c = CHR ''/''"
  by (rule ascii_lower_nonletter) simp

lemma lower_scheme_sep: "map ascii_lower t = map ascii_lower ''://'' \<Longrightarrow> t = ''://''"
proof -
  have "ascii_lower CHR '':'' = CHR '':''" "ascii_lower CHR ''/'' = CHR ''/''"
    by (simp_all only: ascii_lower_colon ascii_lower_slash)
  then show "map ascii_lower t = map ascii_lower ''://'' \<Longrightarrow> t = ''://''"
    by (auto simp: map_eq_Cons_conv)
qed

definition no_outer_ws :: "string \<Rightarrow> bool" where
  "no_outer_ws s \<longleftrightarrow> s = [] \<or> (\<not> is_ws (hd s) \<and> \<not> is_ws (last s))"

lemma dropWhile_hd: "dropWhile P s = [] \<or> \<not> P (hd (dropWhile P s))"
  by (induction s) auto

lemma dropWhile_suffix: "\<exists>zs. s = zs @ dropWhile P s"
  by (metis takeWhile_dropWhile_id)

lemma no_outer_ws_trim: "no_outer_ws (trim s)"
proof -
  define t where "t = dropWhile is_ws s"
  define u where "u = dropWhile is_ws (rev t)"
  have tr: "trim s = rev u" by (simp add: trim_def t_def u_def)
  show ?thesis
  proof (cases "u = []")
    case True
    then show ?thesis by (simp add: tr no_outer_ws_def)
  next
    case False
    obtain zs where "rev t = zs @ u"
      using dropWhile_suffix [of "rev t" is_ws] by (auto simp: u_def)
    then have t: "t = rev u @ rev zs"
      by (metis rev_append rev_rev_ident)
    with False have "t \<noteq> []" and hd: "hd t = hd (rev u)"
      by (simp_all add: hd_append)
    then have "\<not> is_ws (hd (rev u))"
      using dropWhile_hd [of is_ws s] by (auto simp: t_def)
    moreover have "\<not> is_ws (last (rev u))"
      using False dropWhile_hd [of is_ws "rev t"] by (auto simp: last_rev u_def)
    ultimately show ?thesis by (simp add: tr no_outer_ws_def)
  qed
qed

lemma trim_id: "no_outer_ws s \<Longrightarrow> trim s = s"
proof (cases s)
  case Nil
  then show ?thesis by (simp add: trim_def)
next
  case (Cons c cs)
  assume "no_outer_ws s"
  with Cons have h: "\<not> is_ws c" and l: "\<not> is_ws (last s)"
    by (auto simp: no_outer_ws_def)
  from h Cons have "dropWhile is_ws s = s" by simp
  moreover from l Cons have "dropWhile is_ws (rev s) = rev s"
    by (metis dropWhile_eq_Cons_conv dropWhile_eq_self_iff hd_rev list.distinct(1) rev_is_Nil_conv)
  ultimately show ?thesis by (simp add: trim_def)
qed

lemma trim_trim [simp]: "trim (trim s) = trim s"
  by (rule trim_id) (rule no_outer_ws_trim)

section \<open>Searching and splitting\<close>

definition starts_with :: "string \<Rightarrow> string \<Rightarrow> bool" where
  "starts_with p s = (take (length p) s = p)"

fun contains_sub :: "string \<Rightarrow> string \<Rightarrow> bool" where
  "contains_sub p [] = (p = [])"
| "contains_sub p (c # s) = (starts_with p (c # s) \<or> contains_sub p s)"

definition split_once :: "char \<Rightarrow> string \<Rightarrow> (string \<times> string) option" where
  "split_once c s = (if c \<in> set s
     then Some (takeWhile (\<lambda>x. x \<noteq> c) s, tl (dropWhile (\<lambda>x. x \<noteq> c) s)) else None)"

definition rsplit_once :: "char \<Rightarrow> string \<Rightarrow> (string \<times> string) option" where
  "rsplit_once c s =
     map_option (\<lambda>(a, b). (rev b, rev a)) (split_once c (rev s))"

lemma contains_sub_append: "contains_sub p (a @ p @ b)"
proof (induction a)
  case Nil
  show ?case by (cases "p @ b") (auto simp: starts_with_def, metis append_eq_conv_conj)
next
  case (Cons x a)
  then show ?case by simp
qed

lemma contains_sub_iff: "contains_sub p s \<longleftrightarrow> (\<exists>a b. s = a @ p @ b)"
proof
  show "contains_sub p s \<Longrightarrow> \<exists>a b. s = a @ p @ b"
  proof (induction s)
    case Nil
    then show ?case by simp
  next
    case (Cons c s)
    show ?case
    proof (cases "starts_with p (c # s)")
      case True
      then have "c # s = [] @ p @ drop (length p) (c # s)"
        by (metis append_Nil append_take_drop_id starts_with_def)
      then show ?thesis by blast
    next
      case False
      with Cons obtain a b where "s = a @ p @ b" by auto
      then have "c # s = (c # a) @ p @ b" by simp
      then show ?thesis by blast
    qed
  qed
next
  show "\<exists>a b. s = a @ p @ b \<Longrightarrow> contains_sub p s"
    using contains_sub_append by blast
qed

lemma split_once_Nil [simp]: "split_once c [] = None"
  by (simp add: split_once_def)

lemma split_once_Cons [simp]:
  "split_once c (x # s) = (if x = c then Some ([], s)
     else map_option (\<lambda>(a, b). (x # a, b)) (split_once c s))"
  by (auto simp: split_once_def)

lemma split_once_Some:
  "split_once c s = Some (a, b) \<longleftrightarrow> s = a @ c # b \<and> c \<notin> set a"
proof (induction s arbitrary: a)
  case Nil
  show ?case by simp
next
  case (Cons x s)
  show ?case
  proof (cases a)
    case Nil
    then show ?thesis by auto
  next
    case (Cons y ys)
    with Cons.IH [of ys] show ?thesis by auto
  qed
qed

lemma split_once_None: "split_once c s = None \<longleftrightarrow> c \<notin> set s"
  by (simp add: split_once_def)

lemma rsplit_once_Some:
  "rsplit_once c s = Some (a, b) \<longleftrightarrow> s = a @ c # b \<and> c \<notin> set b"
proof -
  have "rsplit_once c s = Some (a, b) \<longleftrightarrow> split_once c (rev s) = Some (rev b, rev a)"
    by (auto simp: rsplit_once_def)
  also have "\<dots> \<longleftrightarrow> rev s = rev b @ c # rev a \<and> c \<notin> set b"
    by (simp add: split_once_Some)
  also have "\<dots> \<longleftrightarrow> s = a @ c # b \<and> c \<notin> set b"
    by (metis append.assoc append_Cons append_Nil rev.simps(2) rev_append rev_rev_ident)
  finally show ?thesis .
qed

lemma rsplit_once_None: "rsplit_once c s = None \<longleftrightarrow> c \<notin> set s"
  by (simp add: rsplit_once_def split_once_None)

section \<open>Numbers\<close>

text \<open>\<open>uN::from_str_radix\<close> (and \<open>str::parse\<close>, radix 10): an optional \<open>+\<close>, then at least
  one digit, with the value inside the type's range; \<open>None\<close> is the \<open>ParseIntError\<close>.\<close>

definition digit_val :: "char \<Rightarrow> nat option" where
  "digit_val c = (let n = (of_char c :: nat) in
     if 48 \<le> n \<and> n \<le> 57 then Some (n - 48)
     else if 97 \<le> n \<and> n \<le> 122 then Some (n - 87)
     else if 65 \<le> n \<and> n \<le> 90 then Some (n - 55)
     else None)"

fun parse_digits :: "nat \<Rightarrow> nat \<Rightarrow> nat \<Rightarrow> string \<Rightarrow> nat option" where
  "parse_digits radix bnd acc [] = Some acc"
| "parse_digits radix bnd acc (c # s) =
     (case digit_val c of
        None \<Rightarrow> None
      | Some d \<Rightarrow>
          if d < radix \<and> acc * radix + d < bnd
          then parse_digits radix bnd (acc * radix + d) s else None)"

definition from_str_radix :: "nat \<Rightarrow> nat \<Rightarrow> string \<Rightarrow> nat option" where
  "from_str_radix bnd radix s =
     (let t = (if s \<noteq> [] \<and> hd s = CHR ''+'' then tl s else s)
      in if t = [] then None else parse_digits radix bnd 0 t)"

definition parse_u16 :: "string \<Rightarrow> nat option" where
  "parse_u16 = from_str_radix (2 ^ 16) 10"

definition parse_u32 :: "string \<Rightarrow> u32 option" where
  "parse_u32 s = map_option word_of_nat (from_str_radix (2 ^ 32) 10 s)"

definition parse_u32_hex :: "string \<Rightarrow> u32 option" where
  "parse_u32_hex s = map_option word_of_nat (from_str_radix (2 ^ 32) 16 s)"

definition digit_char :: "nat \<Rightarrow> char" where
  "digit_char d = char_of (48 + d)"

text \<open>\<open>Display\<close> of an unsigned and of a signed integer.\<close>

fun dec_of_nat :: "nat \<Rightarrow> string" where
  "dec_of_nat n = (if n < 10 then [digit_char n] else dec_of_nat (n div 10) @ [digit_char (n mod 10)])"

declare dec_of_nat.simps [simp del]

definition dec_of_int :: "int \<Rightarrow> string" where
  "dec_of_int i = (if i < 0 then CHR ''-'' # dec_of_nat (nat (- i)) else dec_of_nat (nat i))"

lemma of_char_digit_char: "d < 10 \<Longrightarrow> (of_char (digit_char d) :: nat) = 48 + d"
  by (simp add: digit_char_def)

lemma digit_val_digit_char [simp]: "d < 10 \<Longrightarrow> digit_val (digit_char d) = Some d"
  by (simp add: digit_val_def of_char_digit_char Let_def)

lemma digit_val_range: "digit_val c = Some d \<Longrightarrow> \<not> is_ws c \<and> c \<noteq> CHR ''+'' \<and> c \<noteq> CHR '':''"
  by (auto simp: digit_val_def is_ws_def Let_def split: if_splits)

lemma parse_digits_Some_chars:
  "parse_digits radix bnd acc s = Some n \<Longrightarrow> c \<in> set s \<Longrightarrow> \<exists>d. digit_val c = Some d"
  by (induction s arbitrary: acc) (auto split: option.splits if_splits)

lemma parse_digits_lt: "parse_digits radix bnd acc s = Some n \<Longrightarrow> acc < bnd \<Longrightarrow> n < bnd"
  by (induction s arbitrary: acc) (auto split: option.splits if_splits)

lemma from_str_radix_lt: "from_str_radix bnd radix s = Some n \<Longrightarrow> 0 < bnd \<Longrightarrow> n < bnd"
  by (auto simp: from_str_radix_def Let_def split: if_splits intro: parse_digits_lt)

lemma from_str_radix_not_ws:
  assumes "from_str_radix bnd radix s = Some n"
  shows "s \<noteq> []" and "c \<in> set s \<Longrightarrow> \<not> is_ws c"
proof -
  show "s \<noteq> []" using assms by (auto simp: from_str_radix_def Let_def)
  show "\<not> is_ws c" if c: "c \<in> set s"
  proof (cases "hd s = CHR ''+''")
    case True
    with \<open>s \<noteq> []\<close> have s: "s = CHR ''+'' # tl s" by (metis list.collapse)
    with assms True \<open>s \<noteq> []\<close> have p: "parse_digits radix bnd 0 (tl s) = Some n"
      by (auto simp: from_str_radix_def Let_def split: if_splits)
    from c s have "c = CHR ''+'' \<or> c \<in> set (tl s)" by (metis set_ConsD)
    with p show ?thesis
      using parse_digits_Some_chars [OF p] digit_val_range by (auto simp: is_ws_def)
  next
    case False
    with assms \<open>s \<noteq> []\<close> have p: "parse_digits radix bnd 0 s = Some n"
      by (auto simp: from_str_radix_def Let_def split: if_splits)
    with c show ?thesis
      using parse_digits_Some_chars [OF p] digit_val_range by blast
  qed
qed

lemma dec_of_nat_neq_Nil [simp]: "dec_of_nat n \<noteq> []"
  by (subst dec_of_nat.simps) simp

lemma dec_of_nat_digits: "c \<in> set (dec_of_nat n) \<Longrightarrow> \<exists>d<10. c = digit_char d"
proof (induction n rule: dec_of_nat.induct)
  case (1 n)
  have "n mod 10 < 10" by simp
  with 1 show ?case
    by (cases "n < 10") (auto simp: dec_of_nat.simps [of n] simp del: mod_less_divisor)
qed

lemma parse_digits_append:
  "parse_digits radix bnd acc (s @ t) =
     (case parse_digits radix bnd acc s of None \<Rightarrow> None | Some a \<Rightarrow> parse_digits radix bnd a t)"
  by (induction s arbitrary: acc) (auto split: option.splits)

lemma parse_digits_dec: "n < bnd \<Longrightarrow> parse_digits 10 bnd 0 (dec_of_nat n) = Some n"
proof (induction n rule: dec_of_nat.induct)
  case (1 n)
  show ?case
  proof (cases "n < 10")
    case True
    with "1.prems" show ?thesis by (simp add: dec_of_nat.simps [of n])
  next
    case False
    with "1.prems" have "n div 10 < bnd" by simp
    with "1.IH" False have "parse_digits 10 bnd 0 (dec_of_nat (n div 10)) = Some (n div 10)"
      by simp
    with False "1.prems" show ?thesis
      by (simp add: dec_of_nat.simps [of n] parse_digits_append)
  qed
qed

lemma dec_of_nat_inj:
  assumes "dec_of_nat m = dec_of_nat n"
  shows "m = n"
proof -
  have "parse_digits 10 (Suc (m + n)) 0 (dec_of_nat m) = Some m"
    by (rule parse_digits_dec) simp
  moreover have "parse_digits 10 (Suc (m + n)) 0 (dec_of_nat n) = Some n"
    by (rule parse_digits_dec) simp
  ultimately show ?thesis using assms by (metis option.inject)
qed

lemma hd_dec_of_nat_digit: "\<exists>d<10. hd (dec_of_nat n) = digit_char d"
  by (rule dec_of_nat_digits [of _ n]) simp

lemma digit_char_noteq [simp]: "d < 10 \<Longrightarrow> digit_char d \<noteq> CHR ''+''" "d < 10 \<Longrightarrow> digit_char d \<noteq> CHR ''-''"
  using of_char_digit_char [of d] by auto

lemma hd_dec_not_plus [simp]: "hd (dec_of_nat n) \<noteq> CHR ''+''"
  using hd_dec_of_nat_digit [of n] digit_char_noteq(1) by metis

lemma from_str_radix_dec: "n < bnd \<Longrightarrow> from_str_radix bnd 10 (dec_of_nat n) = Some n"
  by (simp add: from_str_radix_def parse_digits_dec)

lemma minus_notin_dec [simp]: "CHR ''-'' \<notin> set (dec_of_nat n)"
  by (metis dec_of_nat_digits digit_char_noteq(2))

end
