(* ===== verification/Session_Model.thy ===== *)
theory Session_Model
  imports Rust_Str
begin

text \<open>
  \<open>src/session.rs\<close>: the pool address check \<open>normalize_pool_url\<close>, the types
  \<open>UpstreamTarget\<close> and \<open>Routing\<close>, and the rolling share window
  \<open>HashrateWindow\<close>. An \<open>Instant\<close> and a \<open>Duration\<close> are integers of nanoseconds;
  \<open>duration_since\<close> saturates at zero.
\<close>

section \<open>Pool addresses\<close>

datatype pool_url_error = OnlyPlainTcp | NeedsHostPort | NotHostPort

definition tcp_schemes :: "string list" where
  "tcp_schemes = [''stratum+tcp://'', ''tcp://'']"

definition strip_scheme :: "string \<Rightarrow> string" where
  "strip_scheme s =
     (case List.find (\<lambda>p. length p \<le> length s \<and> eq_ignore_ascii_case (take (length p) s) p)
             tcp_schemes of
        Some p \<Rightarrow> drop (length p) s
      | None \<Rightarrow> s)"

definition normalize_pool_url :: "string \<Rightarrow> pool_url_error + string" where
  "normalize_pool_url raw =
     (let s = strip_scheme (trim raw) in
      if contains_sub ''://'' s then Inl OnlyPlainTcp
      else case rsplit_once CHR '':'' s of
             None \<Rightarrow> Inl NeedsHostPort
           | Some (host, port) \<Rightarrow>
               if host = [] \<or> CHR ''/'' \<in> set host \<or> parse_u16 port = None
               then Inl NotHostPort else Inr s)"

text \<open>What the relays can connect to: \<open>host:port\<close> with a port in range.\<close>

definition host_port :: "string \<Rightarrow> bool" where
  "host_port s \<longleftrightarrow> (\<exists>host port n. s = host @ CHR '':'' # port \<and> CHR '':'' \<notin> set port \<and>
     host \<noteq> [] \<and> CHR ''/'' \<notin> set host \<and> parse_u16 port = Some n \<and> n < 65536)"

lemma normalize_pool_url_Inr:
  assumes "normalize_pool_url raw = Inr s"
  shows "s = strip_scheme (trim raw)" and "\<not> contains_sub ''://'' s" and "host_port s"
proof -
  show eq: "s = strip_scheme (trim raw)" and nos: "\<not> contains_sub ''://'' s"
    using assms
    by (auto simp: normalize_pool_url_def Let_def split: if_splits option.splits prod.splits)
  from assms obtain host port where r: "rsplit_once CHR '':'' s = Some (host, port)"
    and h: "host \<noteq> []" "CHR ''/'' \<notin> set host" and p: "parse_u16 port \<noteq> None"
    by (auto simp: normalize_pool_url_def Let_def split: if_splits option.splits prod.splits)
  from p obtain n where n: "parse_u16 port = Some n" by auto
  then have "n < 65536"
    using from_str_radix_lt [of "2 ^ 16" 10 port n] by (simp add: parse_u16_def)
  with r h n show "host_port s"
    unfolding host_port_def rsplit_once_Some by blast
qed

lemma host_port_normalizes:
  assumes s: "strip_scheme (trim raw) = s" and "\<not> contains_sub ''://'' s" and "host_port s"
  shows "normalize_pool_url raw = Inr s"
proof -
  from assms(3) obtain host port n where "s = host @ CHR '':'' # port" "CHR '':'' \<notin> set port"
    and h: "host \<noteq> []" "CHR ''/'' \<notin> set host" "parse_u16 port = Some n"
    by (auto simp: host_port_def)
  then have "rsplit_once CHR '':'' s = Some (host, port)"
    by (simp add: rsplit_once_Some)
  with h assms(1,2) show ?thesis by (simp add: normalize_pool_url_def)
qed

text \<open>The last character of a normalized address is a digit of the port, never white space.\<close>

lemma host_port_last_not_ws:
  assumes "host_port s"
  shows "s \<noteq> []" and "\<not> is_ws (last s)"
proof -
  from assms obtain host port n where s: "s = host @ CHR '':'' # port"
    and p: "from_str_radix (2 ^ 16) 10 port = Some n"
    by (auto simp: host_port_def parse_u16_def)
  show "s \<noteq> []" using s by simp
  from from_str_radix_not_ws [OF p] have "port \<noteq> []" "\<not> is_ws (last port)"
    by auto
  with s show "\<not> is_ws (last s)" by simp
qed

lemma strip_scheme_no_scheme:
  assumes "\<not> contains_sub ''://'' s"
  shows "strip_scheme s = s"
proof -
  have "\<not> eq_ignore_ascii_case (take (length p) s) p" if p: "p \<in> set tcp_schemes" for p
  proof
    assume eq: "eq_ignore_ascii_case (take (length p) s) p"
    then have len: "length (take (length p) s) = length p"
      unfolding eq_ignore_ascii_case_def by (metis length_map)
    obtain q where pq: "p = q @ ''://''"
      using p by (auto simp: tcp_schemes_def)
    let ?t = "drop (length q) (take (length p) s)"
    have "map ascii_lower ?t = map ascii_lower ''://''"
      using eq by (simp add: eq_ignore_ascii_case_def pq flip: drop_map)
    then have "?t = ''://''" by (rule lower_scheme_sep)
    moreover have "take (length p) s = take (length q) (take (length p) s) @ ?t"
      by (rule append_take_drop_id [symmetric])
    ultimately have "take (length p) s = take (length q) (take (length p) s) @ ''://''"
      by (simp only:)
    then have "s = take (length q) (take (length p) s) @ ''://'' @ drop (length p) s"
      by (metis append.assoc append_take_drop_id)
    then show False using assms contains_sub_append by metis
  qed
  then have "List.find (\<lambda>p. length p \<le> length s \<and> eq_ignore_ascii_case (take (length p) s) p)
      tcp_schemes = None"
    by (auto simp: find_None_iff)
  then show ?thesis by (simp add: strip_scheme_def)
qed

section \<open>Targets and routing\<close>

record upstream_target =
  t_url :: string
  t_user :: string
  t_password :: string
  t_authority :: "string option"

datatype routing = Idle | Rented string

definition routing_order :: "routing \<Rightarrow> string option" where
  "routing_order r = (case r of Idle \<Rightarrow> None | Rented oid \<Rightarrow> Some oid)"

definition routing_name :: "routing \<Rightarrow> string" where
  "routing_name r = (case r of Idle \<Rightarrow> ''idle'' | Rented _ \<Rightarrow> ''rented'')"

section \<open>The share window\<close>

definition diff1_hashes :: f64 where
  "diff1_hashes = 4294967296"

definition min_rate_secs :: f64 where
  "min_rate_secs = 60"

type_synonym instant = int

record hashrate_window =
  hw_window :: int
  hw_samples :: "(instant \<times> f64) list"

definition window_new :: "int \<Rightarrow> hashrate_window" where
  "window_new w = \<lparr>hw_window = w, hw_samples = []\<rparr>"

definition duration_since :: "instant \<Rightarrow> instant \<Rightarrow> int" where
  "duration_since now t = max 0 (now - t)"

definition as_secs :: "int \<Rightarrow> f64" where
  "as_secs ns = of_int ns / 1000000000"

fun prune_loop :: "int \<Rightarrow> instant \<Rightarrow> (instant \<times> f64) list \<Rightarrow> (instant \<times> f64) list" where
  "prune_loop w now [] = []"
| "prune_loop w now ((t, d) # xs) =
     (if duration_since now t > w then prune_loop w now xs else (t, d) # xs)"

definition window_record_at :: "instant \<Rightarrow> f64 \<Rightarrow> hashrate_window \<Rightarrow> hashrate_window" where
  "window_record_at now d h =
     h\<lparr>hw_samples := prune_loop (hw_window h) now (hw_samples h @ [(now, d)])\<rparr>"

definition hashes_per_second_at :: "instant \<Rightarrow> hashrate_window \<Rightarrow> f64" where
  "hashes_per_second_at now h =
     (case hw_samples h of
        [] \<Rightarrow> 0
      | (oldest, _) # _ \<Rightarrow>
          let total = sum_list (map snd (hw_samples h));
              span = max (min (as_secs (duration_since now oldest)) (as_secs (hw_window h)))
                         min_rate_secs
          in total * diff1_hashes / span)"

text \<open>The window's invariant: samples in time order.\<close>

definition window_sorted :: "hashrate_window \<Rightarrow> bool" where
  "window_sorted h \<longleftrightarrow> sorted (map fst (hw_samples h))"

definition window_before :: "instant \<Rightarrow> hashrate_window \<Rightarrow> bool" where
  "window_before now h \<longleftrightarrow> (\<forall>(t, d) \<in> set (hw_samples h). t \<le> now)"

lemma prune_loop_filter:
  "sorted (map fst xs) \<Longrightarrow>
   prune_loop w now xs = filter (\<lambda>(t, d). duration_since now t \<le> w) xs"
proof (induction xs)
  case Nil
  then show ?case by simp
next
  case (Cons x xs)
  obtain t d where x: "x = (t, d)" by (cases x)
  from Cons.prems x have le: "\<forall>y\<in>set xs. t \<le> fst y" by auto
  show ?case
  proof (cases "duration_since now t > w")
    case True
    with Cons x show ?thesis by simp
  next
    case False
    with le have "\<forall>y\<in>set xs. duration_since now (fst y) \<le> w"
      by (auto simp: duration_since_def)
    then have "filter (\<lambda>(t, d). duration_since now t \<le> w) xs = xs"
      by (intro filter_True) auto
    with False x show ?thesis by simp
  qed
qed

lemma prune_loop_subset: "set (prune_loop w now xs) \<subseteq> set xs"
  by (induction w now xs rule: prune_loop.induct) auto

lemma sorted_prune_loop: "sorted (map fst xs) \<Longrightarrow> sorted (map fst (prune_loop w now xs))"
  by (induction w now xs rule: prune_loop.induct) auto

lemma window_record_at_sorted:
  assumes "window_sorted h" "window_before now h"
  shows "window_sorted (window_record_at now d h)" "window_before now (window_record_at now d h)"
proof -
  have "sorted (map fst (hw_samples h @ [(now, d)]))"
    using assms by (auto simp: window_sorted_def window_before_def sorted_append)
  then show "window_sorted (window_record_at now d h)"
    by (simp add: window_sorted_def window_record_at_def sorted_prune_loop del: map_append)
  show "window_before now (window_record_at now d h)"
    using assms(2) prune_loop_subset [of "hw_window h" now "hw_samples h @ [(now, d)]"]
    by (auto simp: window_before_def window_record_at_def)
qed

lemma window_record_at_filter:
  assumes "window_sorted h" "window_before now h"
  shows "hw_samples (window_record_at now d h) =
    filter (\<lambda>(t, d). duration_since now t \<le> hw_window h) (hw_samples h @ [(now, d)])"
proof -
  have "sorted (map fst (hw_samples h @ [(now, d)]))"
    using assms by (auto simp: window_sorted_def window_before_def sorted_append)
  then show ?thesis by (simp add: window_record_at_def prune_loop_filter del: map_append filter_append)
qed

lemma span_bounds:
  assumes "0 \<le> hw_window h"
  shows "min_rate_secs \<le> max (min (as_secs x) (as_secs (hw_window h))) min_rate_secs"
    and "max (min (as_secs x) (as_secs (hw_window h))) min_rate_secs
      \<le> max (as_secs (hw_window h)) min_rate_secs"
  by auto

lemma hashes_per_second_bounds:
  assumes ne: "hw_samples h \<noteq> []" and nonneg: "\<forall>(t, d)\<in>set (hw_samples h). 0 \<le> d"
  shows "sum_list (map snd (hw_samples h)) * diff1_hashes / max (as_secs (hw_window h)) min_rate_secs
      \<le> hashes_per_second_at now h"
    and "hashes_per_second_at now h \<le> sum_list (map snd (hw_samples h)) * diff1_hashes / min_rate_secs"
proof -
  let ?sum = "sum_list (map snd (hw_samples h)) * diff1_hashes"
  obtain t d xs where s: "hw_samples h = (t, d) # xs"
    using ne by (metis list.exhaust surj_pair)
  let ?span = "max (min (as_secs (duration_since now t)) (as_secs (hw_window h))) min_rate_secs"
  have rate: "hashes_per_second_at now h = ?sum / ?span"
    by (simp add: hashes_per_second_at_def s)
  have "0 \<le> sum_list (map snd (hw_samples h))"
    using nonneg by (intro sum_list_nonneg) auto
  then have pos: "0 \<le> ?sum" by (simp add: diff1_hashes_def)
  have m: "0 < min_rate_secs" by (simp add: min_rate_secs_def)
  have sp: "min_rate_secs \<le> ?span" "?span \<le> max (as_secs (hw_window h)) min_rate_secs"
    by auto
  have "0 < ?span" using m sp(1) by (rule less_le_trans)
  show "?sum / max (as_secs (hw_window h)) min_rate_secs \<le> hashes_per_second_at now h"
    unfolding rate using sp(2) pos \<open>0 < ?span\<close> by (intro divide_left_mono) auto
  show "hashes_per_second_at now h \<le> ?sum / min_rate_secs"
    unfolding rate using sp(1) pos m \<open>0 < ?span\<close> by (intro divide_left_mono) auto
qed

end
