(* ===== verification/Config_Detect.thy ===== *)
theory Config_Detect
  imports Session_Model
begin

text \<open>
  \<open>src/config.rs\<close> and \<open>src/proto/detect.rs\<close>: the boot configuration read from the
  environment, the classification of a connection by its first byte, and the dispatch of the
  accept loops in \<open>src/main.rs\<close>.
\<close>

datatype protocol = ProtoSv1 | ProtoSv2 | ProtoBoth

definition protocol_parse :: "string \<Rightarrow> protocol option" where
  "protocol_parse s =
     (let t = map ascii_lower (trim s)
      in if t \<in> set [''sv1'', ''v1'', ''1'', ''stratum1''] then Some ProtoSv1
         else if t \<in> set [''sv2'', ''v2'', ''2'', ''stratum2''] then Some ProtoSv2
         else if t \<in> set [''both'', ''sv1+sv2'', ''all''] then Some ProtoBoth
         else None)"

record config =
  cfg_listen :: string
  cfg_protocol :: protocol
  cfg_default_upstream :: "upstream_target option"

definition config_default :: config where
  "config_default = \<lparr>cfg_listen = ''0.0.0.0:3333'', cfg_protocol = ProtoSv1,
     cfg_default_upstream = None\<rparr>"

text \<open>\<open>env\<close> is the process environment: the value of a variable, when it is set.\<close>

definition from_env :: "(string \<Rightarrow> string option) \<Rightarrow> config" where
  "from_env env =
     (let c0 = config_default;
          c1 = (case env ''RENTAL_PROXY_LISTEN'' of
                 Some l \<Rightarrow> c0\<lparr>cfg_listen := l\<rparr> | None \<Rightarrow> c0);
          c2 = (case env ''RENTAL_PROXY_PROTOCOL'' of
                 Some proto \<Rightarrow> (case protocol_parse proto of
                     Some p \<Rightarrow> c1\<lparr>cfg_protocol := p\<rparr> | None \<Rightarrow> c1)
               | None \<Rightarrow> c1)
      in case env ''RENTAL_PROXY_POOL_URL'' of
           Some url \<Rightarrow> c2\<lparr>cfg_default_upstream := Some \<lparr>t_url = url,
             t_user = (case env ''RENTAL_PROXY_POOL_USER'' of Some u \<Rightarrow> u | None \<Rightarrow> []),
             t_password = (case env ''RENTAL_PROXY_POOL_PASS'' of Some p \<Rightarrow> p | None \<Rightarrow> ''x''),
             t_authority = env ''RENTAL_PROXY_POOL_AUTHORITY''\<rparr>\<rparr>
         | None \<Rightarrow> c2)"

definition detect :: "u8 \<Rightarrow> protocol" where
  "detect first_byte =
     (if first_byte = 0x7B \<or> first_byte = 0x20 \<or> first_byte = 0x0A \<or> first_byte = 0x0D
      then ProtoSv1 else ProtoSv2)"

text \<open>Which adapter an accepted connection is handed to: the one chosen at boot
  (\<open>accept_loop\<close>), or, on a shared port, the one its first byte selects. The peek yields
  no byte when the peer closes before sending (\<open>Inr None\<close>) and may fail (\<open>Inl\<close>);
  in both cases the connection is dropped.\<close>

datatype adapter = Sv1Adapter | Sv2Adapter

definition accept_dispatch :: "protocol \<Rightarrow> (unit + u8 option) \<Rightarrow> adapter option" where
  "accept_dispatch proto peek = (case proto of
       ProtoSv1 \<Rightarrow> Some Sv1Adapter
     | ProtoSv2 \<Rightarrow> Some Sv2Adapter
     | ProtoBoth \<Rightarrow> (case peek of
           Inl _ \<Rightarrow> None
         | Inr None \<Rightarrow> None
         | Inr (Some b) \<Rightarrow> Some (case detect b of ProtoSv2 \<Rightarrow> Sv2Adapter | _ \<Rightarrow> Sv1Adapter)))"

lemma ascii_lower_idem [simp]: "ascii_lower (ascii_lower c) = ascii_lower c"
  by (simp add: ascii_lower_def Let_def)

end
