(* ===== verification/Stores.thy ===== *)
theory Stores
  imports Prelude
begin

text \<open>
  The two interfaces the components share besides accounting: a keyed store whose last
  write wins (the rig table, the per-worker SV2 rig slots) and a registry of live
  connections (an insert adds one instance under a worker, a removal takes exactly that
  instance away). Their lemmas are about any sequence of operations.
\<close>

section \<open>Keyed stores\<close>

datatype ('k, 'v) kv_op = Put 'k 'v | Del 'k

fun last_write :: "'k \<Rightarrow> ('k, 'v) kv_op list \<Rightarrow> 'v option \<Rightarrow> 'v option" where
  "last_write k [] v0 = v0"
| "last_write k (Put k' v # ops) v0 = last_write k ops (if k' = k then Some v else v0)"
| "last_write k (Del k' # ops) v0 = last_write k ops (if k' = k then None else v0)"

locale kv_store =
  fixes get :: "'s \<Rightarrow> 'k \<Rightarrow> 'v option"
    and put :: "'k \<Rightarrow> 'v \<Rightarrow> 's \<Rightarrow> 's"
    and del :: "'k \<Rightarrow> 's \<Rightarrow> 's"
  assumes get_put: "get (put k v s) k' = (if k = k' then Some v else get s k')"
    and get_del: "get (del k s) k' = (if k = k' then None else get s k')"
begin

primrec kv_step :: "('k, 'v) kv_op \<Rightarrow> 's \<Rightarrow> 's" where
  "kv_step (Put k v) s = put k v s"
| "kv_step (Del k) s = del k s"

lemma get_run: "get (fold kv_step ops s) k = last_write k ops (get s k)"
proof (induction ops arbitrary: s)
  case Nil
  show ?case by simp
next
  case (Cons e es)
  then show ?case by (cases e) (simp_all add: get_put get_del)
qed

lemma get_untouched:
  assumes "\<forall>op\<in>set ops. case op of Put k' v \<Rightarrow> k' \<noteq> k | Del k' \<Rightarrow> k' \<noteq> k"
  shows "get (fold kv_step ops s) k = get s k"
proof -
  have "last_write k ops v0 = v0" for v0
    using assms by (induction ops) (auto split: kv_op.splits)
  then show ?thesis by (simp add: get_run)
qed

end

section \<open>Registries of live connections\<close>

datatype 'x conn_event = Joined string 'x | Left string 'x

fun still_live :: "string \<Rightarrow> 'x conn_event list \<Rightarrow> 'x list \<Rightarrow> 'x list" where
  "still_live w [] live = live"
| "still_live w (Joined v x # es) live = still_live w es (if v = w then live @ [x] else live)"
| "still_live w (Left v x # es) live =
     still_live w es (if v = w then filter (\<lambda>y. y \<noteq> x) live else live)"

locale conn_registry =
  fixes empty :: 'r
    and members :: "'r \<Rightarrow> string \<Rightarrow> 'x list"
    and join :: "string \<Rightarrow> 'x \<Rightarrow> 'r \<Rightarrow> 'r"
    and leave :: "string \<Rightarrow> 'x \<Rightarrow> 'r \<Rightarrow> 'r"
  assumes members_empty: "members empty w = []"
    and members_join: "members (join v x r) w = (if v = w then members r w @ [x] else members r w)"
    and members_leave:
      "members (leave v x r) w = (if v = w then filter (\<lambda>y. y \<noteq> x) (members r w) else members r w)"
begin

primrec conn_step :: "'x conn_event \<Rightarrow> 'r \<Rightarrow> 'r" where
  "conn_step (Joined w x) r = join w x r"
| "conn_step (Left w x) r = leave w x r"

lemma members_run: "members (fold conn_step es r) w = still_live w es (members r w)"
proof (induction es arbitrary: r)
  case Nil
  show ?case by simp
next
  case (Cons e es)
  then show ?case by (cases e) (simp_all add: members_join members_leave)
qed

lemma members_run_empty: "members (fold conn_step es empty) w = still_live w es []"
  by (simp add: members_run members_empty)

lemma left_not_member: "x \<notin> set (members (leave w x r) w)"
  by (simp add: members_leave)

lemma sibling_kept: "y \<noteq> x \<Longrightarrow> y \<in> set (members r w) \<Longrightarrow> y \<in> set (members (leave v x r) w)"
  by (simp add: members_leave)

end

end
