(* ===== verification/Registry.thy ===== *)
theory Registry
  imports Session_Model Stores
begin

text \<open>
  \<open>src/control.rs\<close> and \<open>src/registry.rs\<close>: the protocol-agnostic session handle, the
  acceptance-ratio flag, and the registry that groups live sessions under their worker
  (rig) name and sums them into one rig status.
\<close>

section \<open>The control surface\<close>

definition accept_ratio_min_sample :: u64 where
  "accept_ratio_min_sample = 50"

definition accept_ratio_threshold :: f64 where
  "accept_ratio_threshold = 3/4"

definition accept_ratio :: "u64 \<Rightarrow> u64 \<Rightarrow> f64" where
  "accept_ratio accepted submitted =
     (if submitted = 0 then 1 else f64_of_u64 accepted / f64_of_u64 submitted)"

definition accept_ratio_low :: "u64 \<Rightarrow> u64 \<Rightarrow> bool" where
  "accept_ratio_low accepted submitted =
     (submitted \<ge> accept_ratio_min_sample \<and> accept_ratio accepted submitted < accept_ratio_threshold)"

record session_status =
  st_worker :: string
  st_routing :: string
  st_order_id :: "string option"
  st_upstream_url :: string
  st_hashrate_hs :: f64
  st_delivered_work :: f64
  st_accepted_shares :: u64
  st_submitted_shares :: u64
  st_accept_ratio :: f64
  st_accept_ratio_low :: bool
  st_protocol :: string

text \<open>A session handle is the address of its shared state (the \<open>Arc\<close>) with its
  protocol, so \<open>ptr_eq\<close> is equality of handles.\<close>

datatype any_session = Sv1 nat | Sv2 nat

fun ptr_eq :: "any_session \<Rightarrow> any_session \<Rightarrow> bool" where
  "ptr_eq (Sv1 a) (Sv1 b) = (a = b)"
| "ptr_eq (Sv2 a) (Sv2 b) = (a = b)"
| "ptr_eq _ _ = False"

lemma ptr_eq_iff: "ptr_eq a b \<longleftrightarrow> a = b"
  by (cases a; cases b) simp_all

section \<open>The registry\<close>

type_synonym registry = "(string \<times> any_session list) list"

definition registry_new :: registry where
  "registry_new = []"

definition get_all :: "registry \<Rightarrow> string \<Rightarrow> any_session list" where
  "get_all reg worker = (case map_of reg worker of None \<Rightarrow> [] | Some ss \<Rightarrow> ss)"

definition insert_session :: "string \<Rightarrow> any_session \<Rightarrow> registry \<Rightarrow> registry" where
  "insert_session worker s reg =
     AList.update worker ((case map_of reg worker of None \<Rightarrow> [] | Some ss \<Rightarrow> ss) @ [s]) reg"

definition remove_if :: "string \<Rightarrow> any_session \<Rightarrow> registry \<Rightarrow> registry" where
  "remove_if worker s reg = (case map_of reg worker of
       None \<Rightarrow> reg
     | Some ss \<Rightarrow>
         (let kept = filter (\<lambda>x. \<not> ptr_eq x s) ss
          in if kept = [] then AList.delete worker reg else AList.update worker kept reg))"

definition aggregate :: "session_status list \<Rightarrow> session_status" where
  "aggregate parts =
     (let lead_idx = (case position (\<lambda>p. st_routing p = ''rented'') parts of None \<Rightarrow> 0 | Some i \<Rightarrow> i);
          hashrate = sum_list (map st_hashrate_hs parts);
          work = sum_list (map st_delivered_work parts);
          accepted = sum_list (map st_accepted_shares parts);
          submitted = sum_list (map st_submitted_shares parts);
          lead = fst (swap_remove lead_idx parts)
      in \<lparr>st_worker = st_worker lead, st_routing = st_routing lead,
           st_order_id = st_order_id lead, st_upstream_url = st_upstream_url lead,
           st_hashrate_hs = hashrate, st_delivered_work = work,
           st_accepted_shares = accepted, st_submitted_shares = submitted,
           st_accept_ratio = accept_ratio accepted submitted,
           st_accept_ratio_low = accept_ratio_low accepted submitted,
           st_protocol = st_protocol lead\<rparr>)"

definition aggregated_status ::
    "(any_session \<Rightarrow> session_status) \<Rightarrow> registry \<Rightarrow> string \<Rightarrow> session_status option" where
  "aggregated_status status reg worker =
     (let sessions = get_all reg worker
      in if sessions = [] then None else Some (aggregate (map status sessions)))"

definition snapshot :: "(any_session \<Rightarrow> session_status) \<Rightarrow> registry \<Rightarrow> session_status list" where
  "snapshot status reg =
     map (\<lambda>ss. aggregate (map status ss)) (filter (\<lambda>ss. ss \<noteq> []) (map snd reg))"

section \<open>Lemmas\<close>

definition registry_inv :: "registry \<Rightarrow> bool" where
  "registry_inv reg \<longleftrightarrow> al_keys_distinct reg \<and> (\<forall>(w, ss)\<in>set reg. ss \<noteq> [])"

interpretation reg: conn_registry registry_new get_all insert_session remove_if
  by unfold_locales
    (auto simp: get_all_def registry_new_def insert_session_def remove_if_def ptr_eq_iff Let_def
      split: option.split)

lemma update_values: "(w, v) \<in> set (AList.update k x m) \<Longrightarrow> v = x \<or> (w, v) \<in> set m"
  by (induction m) (auto split: if_splits)

lemma registry_inv_new: "registry_inv registry_new"
  by (simp add: registry_inv_def registry_new_def)

lemma registry_inv_update: "registry_inv reg \<Longrightarrow> ss \<noteq> [] \<Longrightarrow> registry_inv (AList.update w ss reg)"
  by (auto simp: registry_inv_def dest: update_values)

lemma registry_inv_delete: "registry_inv reg \<Longrightarrow> registry_inv (AList.delete w reg)"
  unfolding registry_inv_def
proof (elim conjE, intro conjI)
  assume "\<forall>(w, ss)\<in>set reg. ss \<noteq> []"
  then show "\<forall>(w, ss)\<in>set (AList.delete w reg). ss \<noteq> []" by (auto simp: AList.delete_eq)
qed simp

lemma registry_inv_insert [inv_intros]: "registry_inv reg \<Longrightarrow> registry_inv (insert_session w s reg)"
  by (simp add: insert_session_def registry_inv_update)

lemma registry_inv_remove [inv_intros]: "registry_inv reg \<Longrightarrow> registry_inv (remove_if w s reg)"
  by (simp add: remove_if_def Let_def registry_inv_update registry_inv_delete split: option.split)

lemma registry_inv_run: "registry_inv reg \<Longrightarrow> registry_inv (fold reg.conn_step es reg)"
proof (induction es arbitrary: reg)
  case Nil
  then show ?case by simp
next
  case (Cons e es)
  then show ?case by (cases e) (simp_all add: registry_inv_insert registry_inv_remove)
qed

lemma swap_remove_fst [simp]: "fst (swap_remove i xs) = xs ! i"
  by (simp add: swap_remove_def)

lemma aggregate_sums [simp]:
  "st_hashrate_hs (aggregate ps) = sum_list (map st_hashrate_hs ps)"
  "st_delivered_work (aggregate ps) = sum_list (map st_delivered_work ps)"
  "st_accepted_shares (aggregate ps) = sum_list (map st_accepted_shares ps)"
  "st_submitted_shares (aggregate ps) = sum_list (map st_submitted_shares ps)"
  by (simp_all add: aggregate_def Let_def)

lemma aggregate_routing:
  "ps \<noteq> [] \<Longrightarrow> st_routing (aggregate ps) = ''rented'' \<longleftrightarrow> (\<exists>p\<in>set ps. st_routing p = ''rented'')"
proof (cases "position (\<lambda>p. st_routing p = ''rented'') ps")
  case None
  assume "ps \<noteq> []"
  with None show ?thesis
    by (cases ps) (auto simp: aggregate_def Let_def position_None split: if_splits)
next
  case (Some i)
  with position_Some [OF Some] show ?thesis
    by (auto simp: aggregate_def Let_def intro!: bexI [of _ "ps ! i"])
qed

end
