(* ===== verification/Sellers.thy ===== *)
theory Sellers
  imports Session_Model Stores
begin

text \<open>
  \<open>src/store.rs\<close>: the rig table. A \<open>rig\<close> is what the code computes with, a \<open>rig_row\<close>
  what the table holds (the listing flag is an integer column).
\<close>

record rig =
  g_default_pool :: upstream_target
  g_advertised_ths :: f64
  g_price_per_th_day :: f64
  g_price_min_per_th_day :: f64
  g_price_max_per_th_day :: f64
  g_payout_address :: "string option"
  g_rentable :: bool
  g_max_rental_secs :: i64

record rig_row =
  c_pool_url :: string
  c_pool_user :: string
  c_pool_password :: string
  c_pool_authority :: "string option"
  c_advertised_ths :: f64
  c_price_per_th_day :: f64
  c_price_min_per_th_day :: f64
  c_price_max_per_th_day :: f64
  c_payout_address :: "string option"
  c_rentable :: i64
  c_max_rental_secs :: i64

type_synonym seller_store = "(string \<times> rig_row) list"

definition into_rig :: "rig_row \<Rightarrow> rig" where
  "into_rig r = \<lparr>g_default_pool = \<lparr>t_url = c_pool_url r, t_user = c_pool_user r,
       t_password = c_pool_password r, t_authority = c_pool_authority r\<rparr>,
     g_advertised_ths = c_advertised_ths r,
     g_price_per_th_day = c_price_per_th_day r,
     g_price_min_per_th_day = c_price_min_per_th_day r,
     g_price_max_per_th_day = c_price_max_per_th_day r,
     g_payout_address = c_payout_address r,
     g_rentable = (c_rentable r \<noteq> 0),
     g_max_rental_secs = c_max_rental_secs r\<rparr>"

definition row_of_rig :: "rig \<Rightarrow> rig_row" where
  "row_of_rig g = \<lparr>c_pool_url = t_url (g_default_pool g), c_pool_user = t_user (g_default_pool g),
     c_pool_password = t_password (g_default_pool g),
     c_pool_authority = t_authority (g_default_pool g),
     c_advertised_ths = g_advertised_ths g,
     c_price_per_th_day = g_price_per_th_day g,
     c_price_min_per_th_day = g_price_min_per_th_day g,
     c_price_max_per_th_day = g_price_max_per_th_day g,
     c_payout_address = g_payout_address g,
     c_rentable = of_bool (g_rentable g),
     c_max_rental_secs = g_max_rental_secs g\<rparr>"

definition get_rig :: "db_oracle \<Rightarrow> seller_store \<Rightarrow> string \<Rightarrow> rig option" where
  "get_rig db s worker = (if db SelectRig then map_option into_rig (map_of s worker) else None)"

definition default_pool :: "db_oracle \<Rightarrow> seller_store \<Rightarrow> string \<Rightarrow> upstream_target option" where
  "default_pool db s worker = map_option g_default_pool (get_rig db s worker)"

definition set_rig :: "db_oracle \<Rightarrow> string \<Rightarrow> rig \<Rightarrow> seller_store \<Rightarrow> (db_error + unit) \<times> seller_store" where
  "set_rig db worker g s = (if db UpsertRig
     then (Inr (), AList.update worker (row_of_rig g) s) else (Inl DbError, s))"

definition set_rentable :: "db_oracle \<Rightarrow> string \<Rightarrow> bool \<Rightarrow> seller_store
    \<Rightarrow> (db_error + bool) \<times> seller_store" where
  "set_rentable db worker flag s = (if \<not> db UpdateRentable then (Inl DbError, s)
     else (case map_of s worker of
         None \<Rightarrow> (Inr False, s)
       | Some r \<Rightarrow> (Inr True, AList.update worker (r\<lparr>c_rentable := of_bool flag\<rparr>) s)))"

definition remove_rig :: "db_oracle \<Rightarrow> string \<Rightarrow> seller_store \<Rightarrow> (db_error + bool) \<times> seller_store" where
  "remove_rig db worker s = (if \<not> db DeleteRig then (Inl DbError, s)
     else (Inr (map_of s worker \<noteq> None), AList.delete worker s))"

definition list_rigs :: "db_oracle \<Rightarrow> seller_store \<Rightarrow> (string \<times> rig) list" where
  "list_rigs db s = (if db SelectRigs then map (\<lambda>(w, r). (w, into_rig r)) s else [])"

text \<open>SQLite's \<open>LIKE\<close>: \<open>%\<close> is any run of characters, \<open>_\<close> any one character, and
  letters of the ASCII range compare without their case.\<close>

fun sql_like :: "string \<Rightarrow> string \<Rightarrow> bool" where
  "sql_like [] s = (s = [])"
| "sql_like (p # ps) [] = (p = CHR ''%'' \<and> sql_like ps [])"
| "sql_like (p # ps) (c # s) =
     (if p = CHR ''%'' then sql_like ps (c # s) \<or> sql_like (p # ps) s
      else (p = CHR ''_'' \<or> ascii_lower p = ascii_lower c) \<and> sql_like ps s)"

definition list_for_seller :: "db_oracle \<Rightarrow> seller_store \<Rightarrow> string \<Rightarrow> (string \<times> rig) list" where
  "list_for_seller db s address = (if db SelectSellerRigs
     then map (\<lambda>(w, r). (w, into_rig r))
       (filter (\<lambda>(w, r). w = address \<or> sql_like (address @ ''.%'') w) s)
     else [])"

section \<open>Lemmas\<close>

lemma into_rig_row_of_rig [simp]: "into_rig (row_of_rig g) = g"
  by (simp add: into_rig_def row_of_rig_def)

lemma into_rig_rentable [simp]:
  "into_rig (r\<lparr>c_rentable := of_bool b\<rparr>) = (into_rig r)\<lparr>g_rentable := b\<rparr>"
  by (simp add: into_rig_def)

interpretation rigs: kv_store "get_rig db_up" "\<lambda>w g s. snd (set_rig db_up w g s)"
  "\<lambda>w s. snd (remove_rig db_up w s)"
  by unfold_locales (simp_all add: get_rig_def set_rig_def remove_rig_def)

lemma sql_like_any [simp]: "sql_like ''%'' s"
  by (induction s) simp_all

lemma sql_like_literal:
  "\<forall>c\<in>set p. c \<noteq> CHR ''%'' \<and> c \<noteq> CHR ''_'' \<Longrightarrow>
   sql_like (p @ ''%'') s \<longleftrightarrow> map ascii_lower (take (length p) s) = map ascii_lower p"
proof (induction p arbitrary: s)
  case Nil
  show ?case by simp
next
  case (Cons c p)
  have c: "c \<noteq> CHR ''%''" "c \<noteq> CHR ''_''" using Cons.prems by simp_all
  show ?case
  proof (cases s)
    case Nil
    with c show ?thesis by simp
  next
    case (Cons d t)
    have "sql_like ((c # p) @ ''%'') s \<longleftrightarrow> ascii_lower d = ascii_lower c \<and> sql_like (p @ ''%'') t"
      using c by (simp add: Cons eq_commute)
    with Cons.IH [of t] Cons.prems show ?thesis by (simp add: Cons)
  qed
qed

end
