(* ===== verification/Hashrate.thy ===== *)
theory Hashrate
  imports Registry Sellers
begin

text \<open>
  \<open>src/hashrate.rs\<close>: the persisted ten-minute slots of delivered hashrate, and one tick of
  the sampler that fills them.
\<close>

definition slot_len_ms :: i64 where
  "slot_len_ms = 600000"

definition retention_ms :: i64 where
  "retention_ms = 7 * 24 * 60 * 60 * 1000"

definition hs_per_ths :: f64 where
  "hs_per_ths = 1000000000000"

record sample =
  sm_slot_ms :: i64
  sm_hashrate_ths :: f64
  sm_online :: bool

text \<open>The table: the primary key \<open>(worker, slot_ms)\<close> with the two value columns, the
  online flag as the integer it is stored as.\<close>

type_synonym hashrate_store = "((string \<times> i64) \<times> (f64 \<times> i64)) list"

definition record_slot :: "db_oracle \<Rightarrow> string \<Rightarrow> i64 \<Rightarrow> f64 \<Rightarrow> bool \<Rightarrow> hashrate_store \<Rightarrow> hashrate_store" where
  "record_slot db worker slot ths online s =
     (if db UpsertSample then AList.update (worker, slot) (ths, of_bool online) s else s)"

definition since :: "db_oracle \<Rightarrow> string \<Rightarrow> i64 \<Rightarrow> hashrate_store \<Rightarrow> sample list" where
  "since db worker since_ms s = (if db SelectSamples
     then map (\<lambda>((w, slot), (ths, online)).
            \<lparr>sm_slot_ms = slot, sm_hashrate_ths = ths, sm_online = (online \<noteq> 0)\<rparr>)
        (sort_key (\<lambda>r. snd (fst r))
          (filter (\<lambda>r. fst (fst r) = worker \<and> snd (fst r) \<ge> since_ms) s))
     else [])"

definition prune :: "db_oracle \<Rightarrow> i64 \<Rightarrow> hashrate_store \<Rightarrow> hashrate_store" where
  "prune db older_than_ms s =
     (if db DeleteSamples then filter (\<lambda>r. \<not> snd (fst r) < older_than_ms) s else s)"

definition slot_reading :: "(string \<Rightarrow> session_status option) \<Rightarrow> string \<Rightarrow> f64 \<times> bool" where
  "slot_reading agg worker = (case agg worker of
       Some st \<Rightarrow> if st_hashrate_hs st > 0 then (st_hashrate_hs st / hs_per_ths, True) else (0, False)
     | None \<Rightarrow> (0, False))"

fun sample_rigs :: "db_oracle \<Rightarrow> (string \<Rightarrow> session_status option) \<Rightarrow> i64 \<Rightarrow> string list
    \<Rightarrow> hashrate_store \<Rightarrow> hashrate_store" where
  "sample_rigs db agg slot [] s = s"
| "sample_rigs db agg slot (worker # ws) s =
     (let (ths, online) = slot_reading agg worker
      in sample_rigs db agg slot ws (record_slot db worker slot ths online s))"

definition sampler_tick :: "db_oracle \<Rightarrow> (any_session \<Rightarrow> session_status) \<Rightarrow> registry \<Rightarrow> seller_store
    \<Rightarrow> i64 \<Rightarrow> hashrate_store \<Rightarrow> hashrate_store" where
  "sampler_tick db status reg sellers now s =
     (let slot = div_trunc now slot_len_ms * slot_len_ms;
          s' = sample_rigs db (aggregated_status status reg) slot (map fst (list_rigs db sellers)) s
      in prune db (now - retention_ms) s')"

section \<open>Lemmas\<close>

lemma al_keys_distinct_record [simp]:
  "al_keys_distinct s \<Longrightarrow> al_keys_distinct (record_slot db w t x b s)"
  by (simp add: record_slot_def)

lemma al_keys_distinct_sample_rigs:
  "al_keys_distinct s \<Longrightarrow> al_keys_distinct (sample_rigs db agg slot ws s)"
  by (induction db agg slot ws s rule: sample_rigs.induct) (simp_all split: prod.split)

lemma sampler_tick_distinct:
  "al_keys_distinct s \<Longrightarrow> al_keys_distinct (sampler_tick db st reg sel now s)"
  by (simp add: sampler_tick_def Let_def prune_def al_keys_distinct_filter al_keys_distinct_sample_rigs)

lemma map_of_sample_rigs:
  "map_of (sample_rigs db_up agg slot ws s) (w, t) =
     (if t = slot \<and> w \<in> set ws
      then Some (fst (slot_reading agg w), of_bool (snd (slot_reading agg w)))
      else map_of s (w, t))"
  by (induction db_up agg slot ws s rule: sample_rigs.induct)
    (auto simp: record_slot_def split: prod.split)

lemma map_of_prune:
  assumes "al_keys_distinct s"
  shows "map_of (prune db_up old s) (w, t) = (if t < old then None else map_of s (w, t))"
proof -
  have "prune db_up old s = filter (\<lambda>(k, v). \<not> snd k < old) s"
    by (simp add: prune_def split_def)
  with map_of_filter_keep [OF assms, of "\<lambda>k v. \<not> snd k < old" "(w, t)"] show ?thesis
    by (simp split: option.split)
qed

lemma slot_of_now:
  assumes "0 \<le> now"
  shows "div_trunc now slot_len_ms * slot_len_ms \<le> now"
    "now < div_trunc now slot_len_ms * slot_len_ms + slot_len_ms"
proof -
  have eq: "div_trunc now slot_len_ms = now div slot_len_ms"
    using assms by (simp add: div_trunc_pos slot_len_ms_def)
  show "div_trunc now slot_len_ms * slot_len_ms \<le> now"
    "now < div_trunc now slot_len_ms * slot_len_ms + slot_len_ms"
    unfolding eq by (simp_all add: slot_len_ms_def)
qed

end
