(* ===== verification/Accounting.thy ===== *)
theory Accounting
  imports Prelude
begin

text \<open>
  The interface between the relays (which measure work) and the order store (which bills
  it): \<open>add_work\<close>, \<open>add_submitted\<close> and \<open>flush\<close>, with the ledger the provider promises.
  The lemmas of the locale are about any interleaving of credits, submits and flushes, so
  they hold for every relay of the proxy at once.
\<close>

datatype acct_event =
    Credit string f64 u64
  | Submit string u64
  | Flush

fun credited_work :: "string \<Rightarrow> acct_event list \<Rightarrow> f64" where
  "credited_work oid [] = 0"
| "credited_work oid (Credit i w n # es) = (if i = oid then w else 0) + credited_work oid es"
| "credited_work oid (Submit i n # es) = credited_work oid es"
| "credited_work oid (Flush # es) = credited_work oid es"

fun credited_shares :: "string \<Rightarrow> acct_event list \<Rightarrow> u64" where
  "credited_shares oid [] = 0"
| "credited_shares oid (Credit i w n # es) = (if i = oid then n else 0) + credited_shares oid es"
| "credited_shares oid (Submit i n # es) = credited_shares oid es"
| "credited_shares oid (Flush # es) = credited_shares oid es"

fun submitted_total :: "string \<Rightarrow> acct_event list \<Rightarrow> u64" where
  "submitted_total oid [] = 0"
| "submitted_total oid (Credit i w n # es) = submitted_total oid es"
| "submitted_total oid (Submit i n # es) = (if i = oid then n else 0) + submitted_total oid es"
| "submitted_total oid (Flush # es) = submitted_total oid es"

locale accounting =
  fixes add_work :: "string \<Rightarrow> f64 \<Rightarrow> u64 \<Rightarrow> 's \<Rightarrow> 's"
    and add_submitted :: "string \<Rightarrow> u64 \<Rightarrow> 's \<Rightarrow> 's"
    and flush :: "'s \<Rightarrow> 's"
    and work_of :: "'s \<Rightarrow> string \<Rightarrow> f64"
    and accepted_of :: "'s \<Rightarrow> string \<Rightarrow> u64"
    and submitted_of :: "'s \<Rightarrow> string \<Rightarrow> u64"
    and known :: "'s \<Rightarrow> string \<Rightarrow> bool"
    and inv :: "'s \<Rightarrow> bool"
  assumes add_work_inv: "inv s \<Longrightarrow> inv (add_work oid w n s)"
    and add_submitted_inv: "inv s \<Longrightarrow> inv (add_submitted oid n s)"
    and flush_inv: "inv s \<Longrightarrow> inv (flush s)"
    and add_work_known: "known (add_work i w n s) oid = known s oid"
    and add_submitted_known: "known (add_submitted i n s) oid = known s oid"
    and flush_known: "known (flush s) oid = known s oid"
    and add_work_work: "work_of (add_work i w n s) oid = work_of s oid + (if i = oid then w else 0)"
    and add_work_accepted:
      "accepted_of (add_work i w n s) oid = accepted_of s oid + (if i = oid then n else 0)"
    and add_work_submitted: "submitted_of (add_work i w n s) oid = submitted_of s oid"
    and add_submitted_work: "work_of (add_submitted i n s) oid = work_of s oid"
    and add_submitted_accepted: "accepted_of (add_submitted i n s) oid = accepted_of s oid"
    and add_submitted_submitted:
      "submitted_of (add_submitted i n s) oid = submitted_of s oid + (if i = oid then n else 0)"
    and flush_work: "inv s \<Longrightarrow> known s oid \<Longrightarrow> work_of (flush s) oid = work_of s oid"
    and flush_accepted: "inv s \<Longrightarrow> known s oid \<Longrightarrow> accepted_of (flush s) oid = accepted_of s oid"
    and flush_submitted: "inv s \<Longrightarrow> known s oid \<Longrightarrow> submitted_of (flush s) oid = submitted_of s oid"
begin

primrec acct_step :: "acct_event \<Rightarrow> 's \<Rightarrow> 's" where
  "acct_step (Credit i w n) s = add_work i w n s"
| "acct_step (Submit i n) s = add_submitted i n s"
| "acct_step Flush s = flush s"

lemma acct_step_inv: "inv s \<Longrightarrow> inv (acct_step e s)"
  by (cases e) (simp_all add: add_work_inv add_submitted_inv flush_inv)

lemma acct_step_known: "known (acct_step e s) oid = known s oid"
  by (cases e) (simp_all add: add_work_known add_submitted_known flush_known)

lemmas ledger_laws = add_work_work add_work_accepted add_work_submitted
  add_submitted_work add_submitted_accepted add_submitted_submitted
  flush_work flush_accepted flush_submitted

lemma run_inv: "inv s \<Longrightarrow> inv (fold acct_step es s)"
  by (induction es arbitrary: s) (simp_all add: acct_step_inv)

lemma run_known: "known (fold acct_step es s) oid = known s oid"
  by (induction es arbitrary: s) (simp_all add: acct_step_known)

end

text \<open>A counter of the ledger: a value every step moves by what the step's event is worth.\<close>

locale ledger_counter =
  fixes step :: "acct_event \<Rightarrow> 's \<Rightarrow> 's"
    and ok :: "'s \<Rightarrow> bool"
    and val :: "'s \<Rightarrow> 'a::monoid_add"
    and total :: "acct_event list \<Rightarrow> 'a"
  assumes step_ok: "ok s \<Longrightarrow> ok (step e s)"
    and step_val: "ok s \<Longrightarrow> val (step e s) = val s + total [e]"
    and total_Nil: "total [] = 0"
    and total_Cons: "total (e # es) = total [e] + total es"
begin

lemma run_val: "ok s \<Longrightarrow> val (fold step es s) = val s + total es"
proof (induction es arbitrary: s)
  case Nil
  show ?case by (simp add: total_Nil)
next
  case (Cons e es)
  then show ?case
    by (simp add: step_ok step_val add.assoc total_Cons [of e es])
qed

end

lemma totals_Nil: "credited_work oid [] = 0" "credited_shares oid [] = 0" "submitted_total oid [] = 0"
  by simp_all

lemma totals_Cons:
  "credited_work oid (e # es) = credited_work oid [e] + credited_work oid es"
  "credited_shares oid (e # es) = credited_shares oid [e] + credited_shares oid es"
  "submitted_total oid (e # es) = submitted_total oid [e] + submitted_total oid es"
  by (cases e; simp)+

text \<open>The three counters of an order the provider knows.\<close>

context accounting
begin

lemma step_known: "inv s \<and> known s oid \<Longrightarrow> inv (acct_step e s) \<and> known (acct_step e s) oid"
  by (simp add: acct_step_inv acct_step_known)

lemma step_counters:
  assumes "inv s \<and> known s oid"
  shows "work_of (acct_step e s) oid = work_of s oid + credited_work oid [e]"
    "accepted_of (acct_step e s) oid = accepted_of s oid + credited_shares oid [e]"
    "submitted_of (acct_step e s) oid = submitted_of s oid + submitted_total oid [e]"
  using assms by (cases e; simp add: ledger_laws)+

end

sublocale accounting \<subseteq> work: ledger_counter acct_step "\<lambda>s. inv s \<and> known s oid" "\<lambda>s. work_of s oid" "credited_work oid" for oid
  by unfold_locales (fact step_known step_counters totals_Nil totals_Cons)+

sublocale accounting \<subseteq> accepted: ledger_counter acct_step "\<lambda>s. inv s \<and> known s oid" "\<lambda>s. accepted_of s oid" "credited_shares oid" for oid
  by unfold_locales (fact step_known step_counters totals_Nil totals_Cons)+

sublocale accounting \<subseteq> submitted: ledger_counter acct_step "\<lambda>s. inv s \<and> known s oid" "\<lambda>s. submitted_of s oid" "submitted_total oid" for oid
  by unfold_locales (fact step_known step_counters totals_Nil totals_Cons)+

end
