(* ===== verification/Orders.thy ===== *)
theory Orders
  imports Session_Model Accounting
begin

text \<open>
  \<open>src/orders.rs\<close>: rental orders. An \<open>order\<close> is what the code computes with, an
  \<open>order_row\<close> what the \<open>orders\<close> table holds; \<open>order_store\<close> is the table, the
  in-memory buffer \<open>pending\<close> of unflushed accounting and the process-wide id sequence.
  Each method of \<open>OrderStore\<close> is one definition, parameterised by the outcome of its SQL
  statements and by the clock reading it takes.
\<close>

section \<open>Orders and their cost\<close>

datatype order_status = Active | Ended | Cancelled

definition from_db :: "string \<Rightarrow> order_status" where
  "from_db s = (if s = ''ended'' then Ended else if s = ''cancelled'' then Cancelled else Active)"

record order =
  o_id :: string
  o_worker :: string
  o_target :: upstream_target
  o_fallback :: "upstream_target option"
  o_created_ms :: i64
  o_until_ms :: i64
  o_status :: order_status
  o_ended_ms :: i64
  o_delivered_work :: f64
  o_accepted_shares :: u64
  o_submitted_shares :: u64
  o_price_per_th_day :: f64
  o_budget :: f64

definition hashes_per_th_day :: f64 where
  "hashes_per_th_day = 1000000000000 * 86400"

definition cost :: "order \<Rightarrow> f64" where
  "cost o' = (let th_days = o_delivered_work o' * diff1_hashes / hashes_per_th_day
     in th_days * o_price_per_th_day o')"

definition funding_exhausted :: "order \<Rightarrow> bool" where
  "funding_exhausted o' = (o_budget o' > 0 \<and> cost o' \<ge> o_budget o')"

definition is_live :: "i64 \<Rightarrow> order \<Rightarrow> bool" where
  "is_live now o' = (o_status o' = Active \<and> (o_until_ms o' = 0 \<or> o_until_ms o' > now)
     \<and> \<not> funding_exhausted o')"

definition budget_remaining :: "order \<Rightarrow> f64" where
  "budget_remaining o' = (if o_budget o' \<le> 0 then 0 else max (o_budget o' - cost o') 0)"

section \<open>Rows\<close>

record order_row =
  r_id :: string
  r_worker :: string
  r_target_url :: string
  r_target_user :: string
  r_target_password :: string
  r_target_authority :: "string option"
  r_fallback_url :: "string option"
  r_fallback_user :: "string option"
  r_fallback_password :: "string option"
  r_fallback_authority :: "string option"
  r_created_ms :: i64
  r_until_ms :: i64
  r_status :: string
  r_ended_ms :: i64
  r_delivered_work :: f64
  r_accepted_shares :: i64
  r_submitted_shares :: i64
  r_price_per_th_day :: f64
  r_budget :: f64

definition unwrap_str :: "string option \<Rightarrow> string" where
  "unwrap_str x = (case x of None \<Rightarrow> [] | Some s \<Rightarrow> s)"

definition into_order :: "order_row \<Rightarrow> order" where
  "into_order r = \<lparr>
     o_id = r_id r, o_worker = r_worker r,
     o_target = \<lparr>t_url = r_target_url r, t_user = r_target_user r,
        t_password = r_target_password r, t_authority = r_target_authority r\<rparr>,
     o_fallback = map_option (\<lambda>url. \<lparr>t_url = url, t_user = unwrap_str (r_fallback_user r),
        t_password = unwrap_str (r_fallback_password r),
        t_authority = r_fallback_authority r\<rparr>) (r_fallback_url r),
     o_created_ms = r_created_ms r, o_until_ms = r_until_ms r,
     o_status = from_db (r_status r), o_ended_ms = r_ended_ms r,
     o_delivered_work = r_delivered_work r,
     o_accepted_shares = u64_of_i64 (r_accepted_shares r),
     o_submitted_shares = u64_of_i64 (r_submitted_shares r),
     o_price_per_th_day = r_price_per_th_day r, o_budget = r_budget r\<rparr>"

section \<open>The store\<close>

record work_delta =
  wd_work :: f64
  wd_accepted :: u64
  wd_submitted :: u64

definition zero_delta :: work_delta where
  "zero_delta = \<lparr>wd_work = 0, wd_accepted = 0, wd_submitted = 0\<rparr>"

record order_store =
  os_rows :: "order_row list"
  os_pending :: "(string \<times> work_delta) list"
  os_seq :: u64

definition order_store_new :: "order_row list \<Rightarrow> u64 \<Rightarrow> order_store" where
  "order_store_new rows seq = \<lparr>os_rows = rows, os_pending = [], os_seq = seq\<rparr>"

datatype create_order_error = AlreadyActive | Db

definition order_key :: "i64 \<Rightarrow> u64 \<Rightarrow> string" where
  "order_key now seq = ''o'' @ dec_of_int now @ ''-'' @ dec_of_nat (unat seq)"

definition row_active :: "order_row \<Rightarrow> bool" where
  "row_active r = (r_status r = ''active'')"

definition create :: "db_oracle \<Rightarrow> i64 \<Rightarrow> string \<Rightarrow> upstream_target \<Rightarrow> upstream_target option
    \<Rightarrow> i64 \<Rightarrow> f64 \<Rightarrow> f64 \<Rightarrow> order_store \<Rightarrow> (create_order_error + order) \<times> order_store" where
  "create db now worker target fallback until price budget s =
     (let oid = order_key now (os_seq s);
          s1 = s\<lparr>os_seq := os_seq s + 1\<rparr>;
          row = \<lparr>r_id = oid, r_worker = worker,
            r_target_url = t_url target, r_target_user = t_user target,
            r_target_password = t_password target, r_target_authority = t_authority target,
            r_fallback_url = map_option t_url fallback,
            r_fallback_user = map_option t_user fallback,
            r_fallback_password = map_option t_password fallback,
            r_fallback_authority = Option.bind fallback t_authority,
            r_created_ms = now, r_until_ms = until, r_status = ''active'', r_ended_ms = 0,
            r_delivered_work = 0, r_accepted_shares = 0, r_submitted_shares = 0,
            r_price_per_th_day = price, r_budget = budget\<rparr>
      in if \<not> db InsertOrder then (Inl Db, s1)
         else if list_ex (\<lambda>r. r_id r = oid \<or> (row_active r \<and> r_worker r = worker)) (os_rows s)
         then (Inl AlreadyActive, s1)
         else (Inr \<lparr>o_id = oid, o_worker = worker, o_target = target, o_fallback = fallback,
                o_created_ms = now, o_until_ms = until, o_status = Active, o_ended_ms = 0,
                o_delivered_work = 0, o_accepted_shares = 0, o_submitted_shares = 0,
                o_price_per_th_day = price, o_budget = budget\<rparr>,
               s1\<lparr>os_rows := os_rows s @ [row]\<rparr>))"

definition get_order :: "db_oracle \<Rightarrow> string \<Rightarrow> order_store \<Rightarrow> order option" where
  "get_order db oid s = (if db SelectOrder
     then map_option into_order (List.find (\<lambda>r. r_id r = oid) (os_rows s)) else None)"

definition list_orders :: "db_oracle \<Rightarrow> order_store \<Rightarrow> order list" where
  "list_orders db s = (if db SelectOrders then map into_order (os_rows s) else [])"

definition list_for_worker :: "db_oracle \<Rightarrow> string \<Rightarrow> order_store \<Rightarrow> order list" where
  "list_for_worker db worker s = (if db SelectWorkerOrders
     then map into_order (sort_key r_created_ms (filter (\<lambda>r. r_worker r = worker) (os_rows s)))
     else [])"

definition active_for_worker :: "db_oracle \<Rightarrow> string \<Rightarrow> i64 \<Rightarrow> order_store \<Rightarrow> order option" where
  "active_for_worker db worker now s =
     (let rows = (if db SelectWorkerActive
        then filter (\<lambda>r. r_worker r = worker \<and> row_active r \<and> (r_until_ms r = 0 \<or> r_until_ms r > now))
               (os_rows s)
        else [])
      in List.find (\<lambda>o'. \<not> funding_exhausted o') (map into_order rows))"

definition pending_delta :: "order_store \<Rightarrow> string \<Rightarrow> work_delta" where
  "pending_delta s oid = (case map_of (os_pending s) oid of None \<Rightarrow> zero_delta | Some d \<Rightarrow> d)"

definition add_work :: "string \<Rightarrow> f64 \<Rightarrow> u64 \<Rightarrow> order_store \<Rightarrow> order_store" where
  "add_work oid work accepted s =
     (let d = pending_delta s oid
      in s\<lparr>os_pending := AList.update oid
             (d\<lparr>wd_work := wd_work d + work, wd_accepted := wd_accepted d + accepted\<rparr>)
             (os_pending s)\<rparr>)"

definition add_submitted :: "string \<Rightarrow> u64 \<Rightarrow> order_store \<Rightarrow> order_store" where
  "add_submitted oid submitted s =
     (let d = pending_delta s oid
      in s\<lparr>os_pending := AList.update oid (d\<lparr>wd_submitted := wd_submitted d + submitted\<rparr>)
             (os_pending s)\<rparr>)"

definition apply_delta :: "string \<Rightarrow> work_delta \<Rightarrow> order_row \<Rightarrow> order_row" where
  "apply_delta oid d r = (if r_id r = oid
     then r\<lparr>r_delivered_work := r_delivered_work r + wd_work d,
            r_accepted_shares := r_accepted_shares r + i64_of_u64 (wd_accepted d),
            r_submitted_shares := r_submitted_shares r + i64_of_u64 (wd_submitted d)\<rparr>
     else r)"

fun flush_loop :: "db_oracle \<Rightarrow> (string \<times> work_delta) list \<Rightarrow> order_row list \<Rightarrow> order_row list" where
  "flush_loop db [] rows = rows"
| "flush_loop db ((oid, d) # ds) rows =
     flush_loop db ds (if db (UpdateWork oid) then map (apply_delta oid d) rows else rows)"

definition flush :: "db_oracle \<Rightarrow> order_store \<Rightarrow> order_store" where
  "flush db s = (if os_pending s = [] then s
     else s\<lparr>os_rows := flush_loop db (os_pending s) (os_rows s), os_pending := []\<rparr>)"

definition set_status :: "string \<Rightarrow> string \<Rightarrow> i64 \<Rightarrow> order_row \<Rightarrow> order_row" where
  "set_status oid st now r =
     (if r_id r = oid then r\<lparr>r_status := st, r_ended_ms := now\<rparr> else r)"

definition cancel :: "db_oracle \<Rightarrow> i64 \<Rightarrow> string \<Rightarrow> order_store \<Rightarrow> order option \<times> order_store" where
  "cancel db now oid s =
     (case get_order db oid s of
        None \<Rightarrow> (None, s)
      | Some existing \<Rightarrow>
          (Some (existing\<lparr>o_status := Cancelled, o_ended_ms := now\<rparr>),
           if db (UpdateCancelled oid)
           then s\<lparr>os_rows := map (set_status oid ''cancelled'' now) (os_rows s)\<rparr> else s))"

definition order_finished :: "i64 \<Rightarrow> order \<Rightarrow> bool" where
  "order_finished now o' = ((o_until_ms o' > 0 \<and> o_until_ms o' \<le> now) \<or> funding_exhausted o')"

fun expire_loop :: "db_oracle \<Rightarrow> i64 \<Rightarrow> order list \<Rightarrow> order_row list \<Rightarrow> order list
    \<Rightarrow> order list \<times> order_row list" where
  "expire_loop db now [] rows finished = (finished, rows)"
| "expire_loop db now (o' # os) rows finished =
     (if order_finished now o'
      then expire_loop db now os
             (if db (UpdateEnded (o_id o'))
              then map (set_status (o_id o') ''ended'' now) rows else rows)
             (finished @ [o'\<lparr>o_status := Ended, o_ended_ms := now\<rparr>])
      else expire_loop db now os rows finished)"

definition take_expired :: "db_oracle \<Rightarrow> i64 \<Rightarrow> order_store \<Rightarrow> order list \<times> order_store" where
  "take_expired db now s =
     (let active = (if db SelectActive
        then map into_order (filter row_active (os_rows s)) else []);
          (finished, rows) = expire_loop db now active (os_rows s) []
      in (finished, s\<lparr>os_rows := rows\<rparr>))"

end
