(* ===== verification/Orders_Facts.thy ===== *)
theory Orders_Facts
  imports Orders
begin

text \<open>
  Lemmas about the order store: what each statement does to a row, the two loops
  (\<open>flush\<close>, \<open>take_expired\<close>) as one pass over the table, the store invariant, and the
  interpretation of the \<open>accounting\<close> interface by the store.
\<close>

section \<open>Rows under the statements\<close>

lemma apply_delta_simps [simp]:
  "r_id (apply_delta oid d r) = r_id r"
  "r_worker (apply_delta oid d r) = r_worker r"
  "r_status (apply_delta oid d r) = r_status r"
  "row_active (apply_delta oid d r) = row_active r"
  "r_until_ms (apply_delta oid d r) = r_until_ms r"
  by (simp_all add: apply_delta_def row_active_def)

lemma apply_delta_other: "r_id r \<noteq> oid \<Longrightarrow> apply_delta oid d r = r"
  by (simp add: apply_delta_def)

lemma set_status_simps [simp]:
  "r_id (set_status oid st now r) = r_id r"
  "r_worker (set_status oid st now r) = r_worker r"
  "r_until_ms (set_status oid st now r) = r_until_ms r"
  "r_delivered_work (set_status oid st now r) = r_delivered_work r"
  "r_accepted_shares (set_status oid st now r) = r_accepted_shares r"
  "r_submitted_shares (set_status oid st now r) = r_submitted_shares r"
  by (simp_all add: set_status_def)

lemma set_status_other: "r_id r \<noteq> oid \<Longrightarrow> set_status oid st now r = r"
  by (simp add: set_status_def)

lemma set_status_status:
  "r_status (set_status oid st now r) = (if r_id r = oid then st else r_status r)"
  by (simp add: set_status_def)

lemma into_order_simps [simp]:
  "o_id (into_order r) = r_id r"
  "o_worker (into_order r) = r_worker r"
  "o_until_ms (into_order r) = r_until_ms r"
  "o_delivered_work (into_order r) = r_delivered_work r"
  "o_price_per_th_day (into_order r) = r_price_per_th_day r"
  "o_budget (into_order r) = r_budget r"
  "o_status (into_order r) = from_db (r_status r)"
  "o_accepted_shares (into_order r) = u64_of_i64 (r_accepted_shares r)"
  "o_submitted_shares (into_order r) = u64_of_i64 (r_submitted_shares r)"
  by (simp_all add: into_order_def)

lemma from_db_active [simp]: "from_db ''active'' = Active"
  by (simp add: from_db_def)

lemma from_db_ended [simp]: "from_db ''ended'' = Ended"
  by (simp add: from_db_def)

lemma from_db_cancelled [simp]: "from_db ''cancelled'' = Cancelled"
  by (simp add: from_db_def)

definition status_ok :: "order_row \<Rightarrow> bool" where
  "status_ok r \<longleftrightarrow> r_status r \<in> {''active'', ''ended'', ''cancelled''}"

lemma status_ok_active: "status_ok r \<Longrightarrow> row_active r \<longleftrightarrow> from_db (r_status r) = Active"
  by (auto simp: status_ok_def row_active_def)

section \<open>The flush loop is one pass over the table\<close>

definition row_flush :: "db_oracle \<Rightarrow> (string \<times> work_delta) list \<Rightarrow> order_row \<Rightarrow> order_row" where
  "row_flush db ds r = (case map_of ds (r_id r) of
      None \<Rightarrow> r
    | Some d \<Rightarrow> if db (UpdateWork (r_id r)) then apply_delta (r_id r) d r else r)"

lemma row_flush_simps [simp]:
  "r_id (row_flush db ds r) = r_id r"
  "r_worker (row_flush db ds r) = r_worker r"
  "r_status (row_flush db ds r) = r_status r"
  "row_active (row_flush db ds r) = row_active r"
  "status_ok (row_flush db ds r) = status_ok r"
  by (auto simp: row_flush_def row_active_def status_ok_def split: option.splits)

lemma flush_loop_map:
  "al_keys_distinct ds \<Longrightarrow> flush_loop db ds rows = map (row_flush db ds) rows"
proof (induction db ds rows rule: flush_loop.induct)
  case (1 db rows)
  show ?case by (simp add: row_flush_def map_idI)
next
  case (2 db oid d ds rows)
  from "2.prems" have notin: "map_of ds oid = None" and dist: "al_keys_distinct ds"
    by (auto simp: al_keys_distinct_def map_of_eq_None_iff)
  show ?case
  proof (cases "db (UpdateWork oid)")
    case True
    have "row_flush db ds (apply_delta oid d r) = row_flush db ((oid, d) # ds) r" for r
      using True notin by (cases "r_id r = oid") (auto simp: row_flush_def apply_delta_other)
    with True "2.IH" [OF dist] show ?thesis by simp
  next
    case False
    have "row_flush db ds r = row_flush db ((oid, d) # ds) r" for r
      using False notin by (cases "r_id r = oid") (auto simp: row_flush_def)
    with False "2.IH" [OF dist] show ?thesis by simp
  qed
qed

lemma flush_rows:
  "al_keys_distinct (os_pending s) \<Longrightarrow>
   os_rows (flush db s) = map (row_flush db (os_pending s)) (os_rows s)"
  by (cases "os_pending s = []") (auto simp: flush_def flush_loop_map row_flush_def map_idI)

lemma flush_pending [simp]: "os_pending (flush db s) = []"
  by (simp add: flush_def)

section \<open>The expiry loop is one pass over the table\<close>

definition mark_ended :: "i64 \<Rightarrow> order \<Rightarrow> order" where
  "mark_ended now o' = o'\<lparr>o_status := Ended, o_ended_ms := now\<rparr>"

definition row_expire :: "db_oracle \<Rightarrow> i64 \<Rightarrow> order list \<Rightarrow> order_row \<Rightarrow> order_row" where
  "row_expire db now os r =
     (if \<exists>o'\<in>set os. order_finished now o' \<and> o_id o' = r_id r \<and> db (UpdateEnded (r_id r))
      then r\<lparr>r_status := ''ended'', r_ended_ms := now\<rparr> else r)"

lemma row_expire_simps [simp]:
  "r_id (row_expire db now os r) = r_id r"
  "r_worker (row_expire db now os r) = r_worker r"
  by (simp_all add: row_expire_def)

lemma expire_loop_eq:
  "expire_loop db now os rows fin =
     (fin @ map (mark_ended now) (filter (order_finished now) os), map (row_expire db now os) rows)"
proof (induction db now os rows fin rule: expire_loop.induct)
  case (1 db now rows fin)
  show ?case by (simp add: row_expire_def map_idI)
next
  case (2 db now o' os rows fin)
  show ?case
  proof (cases "order_finished now o'")
    case False
    have "row_expire db now os = row_expire db now (o' # os)"
      using False by (auto simp: row_expire_def fun_eq_iff)
    with "2.IH"(2) False show ?thesis by simp
  next
    case True
    have skip: "row_expire db now os = row_expire db now (o' # os)"
      if "\<not> db (UpdateEnded (o_id o'))"
      using that by (auto simp: row_expire_def fun_eq_iff)
    have hit: "row_expire db now os (set_status (o_id o') ''ended'' now r) = row_expire db now (o' # os) r"
      if "db (UpdateEnded (o_id o'))" for r
      using that True by (cases "r_id r = o_id o'") (auto simp: row_expire_def set_status_def)
    show ?thesis
      using "2.IH"(1) [OF True] True skip hit
      by (cases "db (UpdateEnded (o_id o'))") (simp_all add: mark_ended_def comp_def)
  qed
qed

lemma take_expired_eq:
  "take_expired db now s =
     (let active = (if db SelectActive then map into_order (filter row_active (os_rows s)) else [])
      in (map (mark_ended now) (filter (order_finished now) active),
          s\<lparr>os_rows := map (row_expire db now active) (os_rows s)\<rparr>))"
  by (simp add: take_expired_def expire_loop_eq)

section \<open>The store invariant\<close>

definition active_workers :: "order_row list \<Rightarrow> string list" where
  "active_workers rows = map r_worker (filter row_active rows)"

definition store_inv :: "order_store \<Rightarrow> bool" where
  "store_inv s \<longleftrightarrow> distinct (map r_id (os_rows s)) \<and> distinct (active_workers (os_rows s))
     \<and> (\<forall>r\<in>set (os_rows s). status_ok r) \<and> al_keys_distinct (os_pending s)"

lemma store_invD:
  assumes "store_inv s"
  shows "distinct (map r_id (os_rows s))" "distinct (active_workers (os_rows s))"
    "r \<in> set (os_rows s) \<Longrightarrow> status_ok r" "al_keys_distinct (os_pending s)"
  using assms by (auto simp: store_inv_def)

lemma active_workers_map:
  assumes "\<And>r. r \<in> set rows \<Longrightarrow> r_worker (f r) = r_worker r \<and> (row_active (f r) \<longrightarrow> row_active r)"
    and "distinct (active_workers rows)"
  shows "distinct (active_workers (map f rows))"
  using assms
proof (induction rows)
  case Nil
  then show ?case by (simp add: active_workers_def)
next
  case (Cons r rows)
  have sub: "set (active_workers (map f rows)) \<subseteq> set (active_workers rows)"
    using Cons.prems(1) by (fastforce simp: active_workers_def)
  have d: "distinct (active_workers rows)"
    using Cons.prems(2) by (auto simp: active_workers_def split: if_splits)
  have IH: "distinct (active_workers (map f rows))"
    using Cons.IH Cons.prems(1) d by auto
  show ?case
  proof (cases "row_active (f r)")
    case False
    with IH show ?thesis by (simp add: active_workers_def)
  next
    case True
    with Cons.prems(1) have "row_active r" "r_worker (f r) = r_worker r" by auto
    with Cons.prems(2) have "r_worker (f r) \<notin> set (active_workers rows)"
      by (simp add: active_workers_def)
    with True IH sub show ?thesis by (auto simp: active_workers_def)
  qed
qed

lemma store_inv_map_rows:
  assumes "store_inv s"
    and "\<And>r. r \<in> set (os_rows s) \<Longrightarrow>
      r_id (f r) = r_id r \<and> r_worker (f r) = r_worker r \<and> status_ok (f r) \<and> (row_active (f r) \<longrightarrow> row_active r)"
    and "os_rows s' = map f (os_rows s)" and "al_keys_distinct (os_pending s')"
  shows "store_inv s'"
proof -
  have "map r_id (map f (os_rows s)) = map r_id (os_rows s)"
    using assms(2) by auto
  moreover have "distinct (active_workers (map f (os_rows s)))"
    by (rule active_workers_map) (use assms(1,2) in \<open>auto simp: store_inv_def\<close>)
  ultimately show ?thesis
    using assms by (auto simp: store_inv_def simp del: map_map)
qed

lemma create_inv [inv_intros]: "store_inv s \<Longrightarrow> store_inv (snd (create db now w t fb until p b s))"
  by (auto simp: store_inv_def create_def Let_def active_workers_def status_ok_def list_ex_iff
      row_active_def)

lemma store_inv_add_work [inv_intros]: "store_inv s \<Longrightarrow> store_inv (add_work oid w n s)"
  by (simp add: store_inv_def add_work_def Let_def)

lemma store_inv_add_submitted [inv_intros]: "store_inv s \<Longrightarrow> store_inv (add_submitted oid n s)"
  by (simp add: store_inv_def add_submitted_def Let_def)

lemma store_inv_flush [inv_intros]:
  assumes "store_inv s"
  shows "store_inv (flush db s)"
proof (rule store_inv_map_rows [OF assms])
  show "os_rows (flush db s) = map (row_flush db (os_pending s)) (os_rows s)"
    using assms by (intro flush_rows) (simp add: store_inv_def)
qed (use assms in \<open>auto simp: store_inv_def\<close>)

lemma cancel_inv [inv_intros]:
  assumes "store_inv s"
  shows "store_inv (snd (cancel db now oid s))"
proof -
  have "store_inv (s\<lparr>os_rows := map (set_status oid ''cancelled'' now) (os_rows s)\<rparr>)"
    by (rule store_inv_map_rows [OF assms, where f = "set_status oid ''cancelled'' now"])
      (use assms in \<open>auto simp: store_inv_def set_status_def status_ok_def row_active_def\<close>)
  with assms show ?thesis by (simp add: cancel_def split: option.split)
qed

lemma take_expired_inv [inv_intros]:
  assumes "store_inv s"
  shows "store_inv (snd (take_expired db now s))"
proof -
  define act where "act = (if db SelectActive then map into_order (filter row_active (os_rows s)) else [])"
  have step: "status_ok (row_expire db now act r) \<and> (row_active (row_expire db now act r) \<longrightarrow> row_active r)"
    if "status_ok r" for r
    using that by (auto simp: row_expire_def status_ok_def row_active_def)
  have "store_inv (s\<lparr>os_rows := map (row_expire db now act) (os_rows s)\<rparr>)"
  proof (rule store_inv_map_rows [OF assms, where f = "row_expire db now act"])
    fix r assume "r \<in> set (os_rows s)"
    then have "status_ok r" using assms by (simp add: store_inv_def)
    with step [of r] show "r_id (row_expire db now act r) = r_id r
        \<and> r_worker (row_expire db now act r) = r_worker r
        \<and> status_ok (row_expire db now act r) \<and> (row_active (row_expire db now act r) \<longrightarrow> row_active r)"
      by simp
  qed (use assms in \<open>simp_all add: store_inv_def\<close>)
  then show ?thesis by (simp add: take_expired_eq Let_def act_def)
qed

section \<open>Lookups\<close>

definition row_of :: "order_store \<Rightarrow> string \<Rightarrow> order_row option" where
  "row_of s oid = List.find (\<lambda>r. r_id r = oid) (os_rows s)"

lemma find_map_id:
  "(\<And>r. r_id (f r) = r_id r) \<Longrightarrow>
   List.find (\<lambda>r. r_id r = oid) (map f rows) = map_option f (List.find (\<lambda>r. r_id r = oid) rows)"
  by (induction rows) auto

lemma row_of_Some: "row_of s oid = Some r \<Longrightarrow> r \<in> set (os_rows s) \<and> r_id r = oid"
  unfolding row_of_def by (rule find_in_set)

lemma find_id_mem:
  "distinct (map r_id rows) \<Longrightarrow> r \<in> set rows \<Longrightarrow> List.find (\<lambda>x. r_id x = r_id r) rows = Some r"
  by (induction rows) force+

lemma row_of_mem:
  "distinct (map r_id (os_rows s)) \<Longrightarrow> r \<in> set (os_rows s) \<Longrightarrow> row_of s (r_id r) = Some r"
  unfolding row_of_def by (rule find_id_mem)

lemma get_order_row: "db SelectOrder \<Longrightarrow> get_order db oid s = map_option into_order (row_of s oid)"
  by (simp add: get_order_def row_of_def)

lemma active_for_worker_Some_live:
  assumes "store_inv s" "active_for_worker db w now s = Some o'"
  shows "o_worker o' = w" "is_live now o'"
    "\<exists>r\<in>set (os_rows s). row_active r \<and> o' = into_order r"
proof -
  from assms(2) obtain r where r: "r \<in> set (os_rows s)" "r_worker r = w" "row_active r"
      "r_until_ms r = 0 \<or> r_until_ms r > now" "\<not> funding_exhausted o'" "o' = into_order r"
    by (auto simp: active_for_worker_def Let_def dest!: find_in_set split: if_splits)
  show "o_worker o' = w" using r by simp
  show "is_live now o'"
    using r by (auto simp: is_live_def row_active_def)
  show "\<exists>r\<in>set (os_rows s). row_active r \<and> o' = into_order r"
    using r by blast
qed

lemma active_for_worker_found:
  assumes inv: "store_inv s" and ok: "db SelectWorkerActive"
    and r: "r \<in> set (os_rows s)" "r_worker r = w" "is_live now (into_order r)"
  shows "active_for_worker db w now s = Some (into_order r)"
proof -
  have act: "row_active r"
    using r store_invD(3) [OF inv r(1)] status_ok_active by (auto simp: is_live_def)
  let ?rows = "filter (\<lambda>r. r_worker r = w \<and> row_active r \<and> (r_until_ms r = 0 \<or> r_until_ms r > now))
      (os_rows s)"
  have "r \<in> set ?rows" using r act by (auto simp: is_live_def)
  then obtain o' where o': "List.find (\<lambda>o'. \<not> funding_exhausted o') (map into_order ?rows) = Some o'"
    using r(3) find_is_Some [of "\<lambda>o'. \<not> funding_exhausted o'" "map into_order ?rows"]
    by (auto simp: is_live_def)
  from find_in_set [OF o'] have "o' \<in> into_order ` set ?rows" by simp
  then obtain r' where r': "r' \<in> set ?rows" "o' = into_order r'" by blast
  have "inj_on r_worker (set (filter row_active (os_rows s)))"
    using store_invD(2) [OF inv] by (simp add: active_workers_def distinct_map)
  with r r' act have "r' = r"
    by (auto simp: inj_on_def)
  with o' r' ok show ?thesis by (simp add: active_for_worker_def)
qed

section \<open>The ledger\<close>

text \<open>What an order has been credited so far: its row plus the unflushed buffer.\<close>

definition ledger_work :: "order_store \<Rightarrow> string \<Rightarrow> f64" where
  "ledger_work s oid = (case row_of s oid of None \<Rightarrow> 0 | Some r \<Rightarrow> r_delivered_work r)
     + wd_work (pending_delta s oid)"

definition ledger_accepted :: "order_store \<Rightarrow> string \<Rightarrow> u64" where
  "ledger_accepted s oid =
     (case row_of s oid of None \<Rightarrow> 0 | Some r \<Rightarrow> u64_of_i64 (r_accepted_shares r))
     + wd_accepted (pending_delta s oid)"

definition ledger_submitted :: "order_store \<Rightarrow> string \<Rightarrow> u64" where
  "ledger_submitted s oid =
     (case row_of s oid of None \<Rightarrow> 0 | Some r \<Rightarrow> u64_of_i64 (r_submitted_shares r))
     + wd_submitted (pending_delta s oid)"

definition order_known :: "order_store \<Rightarrow> string \<Rightarrow> bool" where
  "order_known s oid \<longleftrightarrow> row_of s oid \<noteq> None"

lemma order_known_iff: "order_known s oid \<longleftrightarrow> oid \<in> r_id ` set (os_rows s)"
  by (auto simp: order_known_def row_of_def find_None_iff)

lemma flush_loop_ids: "map r_id (flush_loop db ds rows) = map r_id rows"
  by (induction db ds rows rule: flush_loop.induct) (auto simp: comp_def)

lemma flush_order_known: "order_known (flush db s) oid = order_known s oid"
proof -
  have "map r_id (os_rows (flush db s)) = map r_id (os_rows s)"
    by (simp add: flush_def flush_loop_ids)
  then have "set (map r_id (os_rows (flush db s))) = set (map r_id (os_rows s))"
    by (simp only:)
  then show ?thesis by (simp add: order_known_iff)
qed

lemma zero_delta_simps [simp]:
  "wd_work zero_delta = 0" "wd_accepted zero_delta = 0" "wd_submitted zero_delta = 0"
  by (simp_all add: zero_delta_def)

lemma row_of_buffer [simp]:
  "row_of (add_work i w n s) oid = row_of s oid"
  "row_of (add_submitted i n s) oid = row_of s oid"
  by (simp_all add: row_of_def add_work_def add_submitted_def Let_def)

lemma pending_delta_add [simp]:
  "pending_delta (add_work i w n s) oid = (if i = oid
     then (pending_delta s oid)\<lparr>wd_work := wd_work (pending_delta s oid) + w,
       wd_accepted := wd_accepted (pending_delta s oid) + n\<rparr> else pending_delta s oid)"
  "pending_delta (add_submitted i m s) oid = (if i = oid
     then (pending_delta s oid)\<lparr>wd_submitted := wd_submitted (pending_delta s oid) + m\<rparr>
     else pending_delta s oid)"
  by (auto simp: pending_delta_def add_work_def add_submitted_def Let_def)

lemma pending_delta_flush [simp]: "pending_delta (flush db s) oid = zero_delta"
  by (simp add: pending_delta_def)

lemma row_of_flush:
  "al_keys_distinct (os_pending s) \<Longrightarrow>
   row_of (flush db s) oid = map_option (row_flush db (os_pending s)) (row_of s oid)"
  by (simp add: row_of_def flush_rows find_map_id)

lemma row_flush_work:
  "db (UpdateWork (r_id r)) \<Longrightarrow>
   r_delivered_work (row_flush db (os_pending s) r) =
     r_delivered_work r + wd_work (pending_delta s (r_id r))"
  "db (UpdateWork (r_id r)) \<Longrightarrow>
   u64_of_i64 (r_accepted_shares (row_flush db (os_pending s) r)) =
     u64_of_i64 (r_accepted_shares r) + wd_accepted (pending_delta s (r_id r))"
  "db (UpdateWork (r_id r)) \<Longrightarrow>
   u64_of_i64 (r_submitted_shares (row_flush db (os_pending s) r)) =
     u64_of_i64 (r_submitted_shares r) + wd_submitted (pending_delta s (r_id r))"
  by (simp_all add: row_flush_def pending_delta_def apply_delta_def split: option.split)

interpretation os: accounting add_work add_submitted "flush db_up"
  ledger_work ledger_accepted ledger_submitted order_known store_inv
proof unfold_locales
  fix s :: order_store and oid :: string
  assume inv: "store_inv s" and known: "order_known s oid"
  from known obtain r where r: "row_of s oid = Some r" and rid: "r_id r = oid"
    using row_of_Some by (auto simp: order_known_def)
  note fl = row_of_flush [OF store_invD(4) [OF inv], of db_up oid] r rid
  show "ledger_work (flush db_up s) oid = ledger_work s oid"
    by (simp add: ledger_work_def fl row_flush_work)
  show "ledger_accepted (flush db_up s) oid = ledger_accepted s oid"
    by (simp add: ledger_accepted_def fl row_flush_work)
  show "ledger_submitted (flush db_up s) oid = ledger_submitted s oid"
    by (simp add: ledger_submitted_def fl row_flush_work)
next
  fix s :: order_store and oid :: string
  show "order_known (flush db_up s) oid = order_known s oid"
    by (rule flush_order_known)
qed (auto simp: ledger_work_def ledger_accepted_def ledger_submitted_def order_known_def
    intro: inv_intros split: option.split)

end
