(* ===== verification/Json.thy ===== *)
theory Json
  imports Rust_Str
begin

text \<open>
  \<open>src/proto/sv1.rs\<close>: JSON values, the one-struct JSON-RPC message of Stratum V1 and the
  lines it travels on. The text of a line is the JSON library's business: a line is what
  that library makes of it (white space, a text that is no JSON, or a value).
\<close>

section \<open>Values\<close>

datatype json =
    JNull | JBool bool | JInt int | JFloat f64 | JStr string
  | JArr "json list" | JObj "(string \<times> json) list"

fun as_str :: "json \<Rightarrow> string option" where
  "as_str (JStr s) = Some s"
| "as_str _ = None"

fun as_bool :: "json \<Rightarrow> bool option" where
  "as_bool (JBool b) = Some b"
| "as_bool _ = None"

fun as_array :: "json \<Rightarrow> json list option" where
  "as_array (JArr xs) = Some xs"
| "as_array _ = None"

fun as_u64 :: "json \<Rightarrow> u64 option" where
  "as_u64 (JInt i) = (if 0 \<le> i \<and> i < 2 ^ 64 then Some (word_of_int i) else None)"
| "as_u64 _ = None"

fun as_f64 :: "json \<Rightarrow> f64 option" where
  "as_f64 (JInt i) = Some (of_int i)"
| "as_f64 (JFloat r) = Some r"
| "as_f64 _ = None"

fun jget :: "string \<Rightarrow> json \<Rightarrow> json option" where
  "jget k (JObj fs) = map_of fs k"
| "jget k _ = None"

definition jfirst :: "json option \<Rightarrow> json option" where
  "jfirst p = Option.bind p (\<lambda>v. Option.bind (as_array v) (\<lambda>xs. case xs of [] \<Rightarrow> None | x # _ \<Rightarrow> Some x))"

section \<open>Messages\<close>

record rpc_message =
  m_id :: "json option"
  m_method :: "string option"
  m_params :: "json option"
  m_result :: "json option"
  m_error :: "json option"

datatype line = Blank | Garbage string | Json json

text \<open>An \<open>Option<Value>\<close> field reads \<open>null\<close> as absent; \<open>method\<close> must be a string
  or \<open>null\<close>. A message may also be written as an array of its fields in order.\<close>

definition opt_value :: "json option \<Rightarrow> json option" where
  "opt_value v = (case v of Some JNull \<Rightarrow> None | _ \<Rightarrow> v)"

definition opt_string :: "json option \<Rightarrow> string option option" where
  "opt_string v = (case v of None \<Rightarrow> Some None | Some JNull \<Rightarrow> Some None
     | Some (JStr s) \<Rightarrow> Some (Some s) | _ \<Rightarrow> None)"

definition rpc_fields :: "string list" where
  "rpc_fields = [''id'', ''method'', ''params'', ''result'', ''error'']"

definition arr_field :: "json list \<Rightarrow> nat \<Rightarrow> json option" where
  "arr_field xs i = (if i < length xs then Some (xs ! i) else None)"

fun rpc_of_json :: "json \<Rightarrow> rpc_message option" where
  "rpc_of_json (JObj fs) =
     (if distinct (filter (\<lambda>k. k \<in> set rpc_fields) (map fst fs))
      then map_option (\<lambda>m. \<lparr>m_id = opt_value (map_of fs ''id''), m_method = m,
             m_params = opt_value (map_of fs ''params''),
             m_result = opt_value (map_of fs ''result''),
             m_error = opt_value (map_of fs ''error'')\<rparr>)
           (opt_string (map_of fs ''method''))
      else None)"
| "rpc_of_json (JArr xs) =
     (if length xs \<le> 5
      then map_option (\<lambda>m. \<lparr>m_id = opt_value (arr_field xs 0), m_method = m,
             m_params = opt_value (arr_field xs 2), m_result = opt_value (arr_field xs 3),
             m_error = opt_value (arr_field xs 4)\<rparr>)
           (opt_string (arr_field xs 1))
      else None)"
| "rpc_of_json _ = None"

fun rpc_parse :: "line \<Rightarrow> rpc_message option" where
  "rpc_parse (Json j) = rpc_of_json j"
| "rpc_parse _ = None"

definition opt_field :: "string \<Rightarrow> json option \<Rightarrow> (string \<times> json) list" where
  "opt_field k v = (case v of None \<Rightarrow> [] | Some x \<Rightarrow> [(k, x)])"

definition rpc_to_json :: "rpc_message \<Rightarrow> json" where
  "rpc_to_json m = JObj (opt_field ''id'' (m_id m)
     @ opt_field ''method'' (map_option JStr (m_method m))
     @ opt_field ''params'' (m_params m) @ opt_field ''result'' (m_result m)
     @ opt_field ''error'' (m_error m))"

definition to_line :: "rpc_message \<Rightarrow> line" where
  "to_line m = Json (rpc_to_json m)"

definition rpc_request :: "json \<Rightarrow> string \<Rightarrow> json \<Rightarrow> rpc_message" where
  "rpc_request i meth params = \<lparr>m_id = Some i, m_method = Some meth, m_params = Some params,
     m_result = None, m_error = None\<rparr>"

text \<open>The struct literal the relays answer with.\<close>

definition rpc_reply :: "json option \<Rightarrow> json \<Rightarrow> json \<Rightarrow> rpc_message" where
  "rpc_reply i result error = \<lparr>m_id = i, m_method = None, m_params = None,
     m_result = Some result, m_error = Some error\<rparr>"

definition set_extranonce :: "string \<Rightarrow> u32 \<Rightarrow> rpc_message" where
  "set_extranonce en1 en2 = rpc_request JNull ''mining.set_extranonce''
     (JArr [JStr en1, JInt (uint en2)])"

definition client_reconnect :: "string \<Rightarrow> u16 \<Rightarrow> u32 \<Rightarrow> rpc_message" where
  "client_reconnect host port wait = rpc_request JNull ''client.reconnect''
     (JArr [JStr host, JInt (uint port), JInt (uint wait)])"

section \<open>The wire round trip\<close>

definition rpc_norm :: "rpc_message \<Rightarrow> rpc_message" where
  "rpc_norm m = m\<lparr>m_id := opt_value (m_id m), m_params := opt_value (m_params m),
     m_result := opt_value (m_result m), m_error := opt_value (m_error m)\<rparr>"

lemma opt_string_JStr [simp]: "opt_string (map_option JStr m) = Some m"
  by (cases m) (simp_all add: opt_string_def)

lemma rpc_roundtrip: "rpc_parse (to_line m) = Some (rpc_norm m)"
  by (cases "m_id m"; cases "m_method m"; cases "m_params m"; cases "m_result m"; cases "m_error m")
    (simp_all add: to_line_def rpc_to_json_def rpc_norm_def rpc_fields_def opt_field_def opt_string_def
      opt_value_def)

end
