(* ===== verification/Api.thy ===== *)
theory Api
  imports Hashrate Orders_Facts Json
begin

text \<open>
  \<open>src/api.rs\<close>: the HTTP control API. A handler is a function of the shared state and of
  its environment (clock readings, statement outcomes, live session statuses); it returns
  the JSON answer or the rejection, the new state, and the sessions it told to reconnect.
\<close>

section \<open>Rejections, state, environment\<close>

datatype status_code =
    BadRequest | Unauthorized | NotFound | Conflict | InternalServerError | ServiceUnavailable

datatype api_msg = Text string | PoolUrlMsg pool_url_error string | DbMsg

type_synonym api_error = "status_code \<times> api_msg"

record app_state =
  as_registry :: registry
  as_sellers :: seller_store
  as_orders :: order_store
  as_hashrate :: hashrate_store
  as_token :: string

text \<open>\<open>ae_clk i\<close> is the \<open>i\<close>-th clock reading of the request.\<close>

record api_env =
  ae_db :: db_oracle
  ae_clk :: "nat \<Rightarrow> i64"
  ae_status :: "any_session \<Rightarrow> session_status"

type_synonym api_result = "(api_error + json) \<times> app_state \<times> any_session list"

definition reject :: "status_code \<Rightarrow> string \<Rightarrow> app_state \<Rightarrow> api_result" where
  "reject code msg s = (Inl (code, Text msg), s, [])"

section \<open>The bearer gate\<close>

text \<open>The UTF-8 bytes of a string of code points below 256.\<close>

definition utf8_char :: "char \<Rightarrow> u8 list" where
  "utf8_char c = (let n = (of_char c :: nat) in
     if n < 128 then [of_nat n] else [of_nat (192 + n div 64), of_nat (128 + n mod 64)])"

definition as_bytes :: "string \<Rightarrow> u8 list" where
  "as_bytes s = concat (map utf8_char s)"

fun ct_loop :: "u8 list \<Rightarrow> u8 list \<Rightarrow> u8 \<Rightarrow> u8" where
  "ct_loop (x # xs) (y # ys) diff = ct_loop xs ys (or diff (xor x y))"
| "ct_loop _ _ diff = diff"

definition ct_eq :: "string \<Rightarrow> string \<Rightarrow> bool" where
  "ct_eq a b = (let x = as_bytes a; y = as_bytes b
     in if length x \<noteq> length y then False else ct_loop x y 0 = 0)"

definition strip_prefix :: "string \<Rightarrow> string \<Rightarrow> string option" where
  "strip_prefix p s = (if starts_with p s then Some (drop (length p) s) else None)"

text \<open>\<open>hdr\<close> is the \<open>Authorization\<close> header when it is present and readable as text.\<close>

definition require_bearer :: "string option \<Rightarrow> app_state \<Rightarrow> (api_error + unit)" where
  "require_bearer hdr s =
     (if as_token s = []
      then Inl (ServiceUnavailable,
             Text ''control API token not configured (set RENTAL_PROXY_API_TOKEN)'')
      else let presented = (case Option.bind hdr (strip_prefix ''Bearer '') of
                 None \<Rightarrow> [] | Some v \<Rightarrow> trim v)
           in if ct_eq presented (as_token s) then Inr ()
              else Inl (Unauthorized, Text ''missing or invalid bearer token''))"

section \<open>JSON of the shared types\<close>

definition opt_json :: "string option \<Rightarrow> json" where
  "opt_json v = (case v of None \<Rightarrow> JNull | Some s \<Rightarrow> JStr s)"

definition target_json :: "upstream_target \<Rightarrow> json" where
  "target_json t = JObj [(''url'', JStr (t_url t)), (''user'', JStr (t_user t)),
     (''password'', JStr (t_password t)), (''authority_pubkey'', opt_json (t_authority t))]"

definition status_json :: "session_status \<Rightarrow> json" where
  "status_json st = JObj [(''worker'', JStr (st_worker st)), (''routing'', JStr (st_routing st)),
     (''order_id'', opt_json (st_order_id st)), (''upstream_url'', JStr (st_upstream_url st)),
     (''hashrate_hs'', JFloat (st_hashrate_hs st)), (''delivered_work'', JFloat (st_delivered_work st)),
     (''accepted_shares'', JInt (uint (st_accepted_shares st))),
     (''submitted_shares'', JInt (uint (st_submitted_shares st))),
     (''accept_ratio'', JFloat (st_accept_ratio st)),
     (''accept_ratio_low'', JBool (st_accept_ratio_low st)), (''protocol'', JStr (st_protocol st))]"

definition rig_fields :: "rig \<Rightarrow> (string \<times> json) list" where
  "rig_fields g = [(''default_pool'', target_json (g_default_pool g)),
     (''advertised_ths'', JFloat (g_advertised_ths g)),
     (''price_per_th_day'', JFloat (g_price_per_th_day g)),
     (''price_min_per_th_day'', JFloat (g_price_min_per_th_day g)),
     (''price_max_per_th_day'', JFloat (g_price_max_per_th_day g)),
     (''payout_address'', opt_json (g_payout_address g)),
     (''rentable'', JBool (g_rentable g)), (''max_rental_secs'', JInt (g_max_rental_secs g))]"

definition order_status_name :: "order_status \<Rightarrow> string" where
  "order_status_name st = (case st of Active \<Rightarrow> ''active'' | Ended \<Rightarrow> ''ended''
     | Cancelled \<Rightarrow> ''cancelled'')"

definition order_json :: "order \<Rightarrow> json" where
  "order_json o' = JObj [(''id'', JStr (o_id o')), (''worker'', JStr (o_worker o')),
     (''target'', target_json (o_target o')),
     (''fallback'', (case o_fallback o' of None \<Rightarrow> JNull | Some t \<Rightarrow> target_json t)),
     (''created_ms'', JInt (o_created_ms o')), (''until_ms'', JInt (o_until_ms o')),
     (''status'', JStr (order_status_name (o_status o'))), (''ended_ms'', JInt (o_ended_ms o')),
     (''delivered_work'', JFloat (o_delivered_work o')),
     (''accepted_shares'', JInt (uint (o_accepted_shares o'))),
     (''submitted_shares'', JInt (uint (o_submitted_shares o'))),
     (''price_per_th_day'', JFloat (o_price_per_th_day o')), (''budget'', JFloat (o_budget o')),
     (''cost'', JFloat (cost o')), (''budget_remaining'', JFloat (budget_remaining o'))]"

section \<open>Reading endpoints\<close>

definition rented_guard :: "api_env \<Rightarrow> nat \<Rightarrow> string \<Rightarrow> app_state \<Rightarrow> (api_error + unit)" where
  "rented_guard e i worker s =
     (if active_for_worker (ae_db e) worker (ae_clk e i) (as_orders s) \<noteq> None
      then Inl (Conflict, Text ''rig is already rented'') else Inr ())"

definition pool_url :: "string \<Rightarrow> (api_error + string)" where
  "pool_url raw = (case normalize_pool_url raw of
       Inl err \<Rightarrow> Inl (BadRequest, PoolUrlMsg err raw) | Inr u \<Rightarrow> Inr u)"

definition health :: json where
  "health = JObj [(''ok'', JBool True), (''service'', JStr ''stratum-rental-proxy'')]"

definition list_sessions :: "api_env \<Rightarrow> app_state \<Rightarrow> json" where
  "list_sessions e s =
     JObj [(''sessions'', JArr (map status_json (snapshot (ae_status e) (as_registry s))))]"

definition get_session :: "api_env \<Rightarrow> string \<Rightarrow> app_state \<Rightarrow> (api_error + json)" where
  "get_session e worker s = (case aggregated_status (ae_status e) (as_registry s) worker of
       Some st \<Rightarrow> Inr (status_json st)
     | None \<Rightarrow> Inl (NotFound, Text ''worker not connected''))"

definition clamp :: "i64 \<Rightarrow> i64 \<Rightarrow> i64 \<Rightarrow> i64" where
  "clamp lo hi x = (if x < lo then lo else if x > hi then hi else x)"

definition band_end :: "i64 \<Rightarrow> order \<Rightarrow> i64" where
  "band_end now o' = (if o_status o' = Active then now
     else if o_ended_ms o' > 0 then o_ended_ms o'
     else if o_until_ms o' > 0 then o_until_ms o' else o_created_ms o')"

definition rental_bands :: "i64 \<Rightarrow> i64 \<Rightarrow> order list \<Rightarrow> json list" where
  "rental_bands now since_ms os =
     map (\<lambda>o'. JObj [(''id'', JStr (o_id o')), (''start_ms'', JInt (o_created_ms o')),
            (''end_ms'', JInt (band_end now o')),
            (''status'', JStr (order_status_name (o_status o')))])
       (filter (\<lambda>o'. \<not> band_end now o' < since_ms) os)"

definition sample_json :: "sample \<Rightarrow> json" where
  "sample_json m = JObj [(''slot_ms'', JInt (sm_slot_ms m)),
     (''hashrate_ths'', JFloat (sm_hashrate_ths m)), (''online'', JBool (sm_online m))]"

definition get_seller_history :: "api_env \<Rightarrow> string \<Rightarrow> i64 option \<Rightarrow> app_state \<Rightarrow> (api_error + json)" where
  "get_seller_history e worker days_q s =
     (case get_rig (ae_db e) (as_sellers s) worker of
        None \<Rightarrow> Inl (NotFound, Text ''rig not found'')
      | Some g \<Rightarrow>
          (let days = clamp 1 7 (case days_q of None \<Rightarrow> 7 | Some d \<Rightarrow> d);
               now = ae_clk e 0;
               since_ms = now - days * 86400000
           in Inr (JObj [(''worker'', JStr worker), (''advertised_ths'', JFloat (g_advertised_ths g)),
                (''days'', JInt days),
                (''samples'', JArr (map sample_json
                   (since (ae_db e) worker since_ms (as_hashrate s)))),
                (''rentals'', JArr (rental_bands now since_ms
                   (list_for_worker (ae_db e) worker (as_orders s))))])))"

definition is_delivering :: "f64 \<Rightarrow> bool" where
  "is_delivering hs = (hs > 0)"

definition enrich_sellers ::
    "(string \<times> rig) list \<Rightarrow> (string \<times> f64) list \<Rightarrow> string list \<Rightarrow> (string \<times> json) list" where
  "enrich_sellers sellers live rented =
     map (\<lambda>(worker, g).
       (let hs = (case map_of live worker of None \<Rightarrow> 0 | Some x \<Rightarrow> x)
        in (worker, JObj (rig_fields g @ [(''hashrate_hs'', JFloat hs),
             (''online'', JBool (is_delivering hs)), (''rented'', JBool (worker \<in> set rented))]))))
       sellers"

text \<open>Collecting pairs into a \<open>HashMap\<close> keeps the last pair of a key.\<close>

definition list_sellers :: "api_env \<Rightarrow> string option \<Rightarrow> app_state \<Rightarrow> json" where
  "list_sellers e seller s =
     (let sellers = (case seller of
            Some addr \<Rightarrow> if addr \<noteq> [] then list_for_seller (ae_db e) (as_sellers s) addr
                         else list_rigs (ae_db e) (as_sellers s)
          | None \<Rightarrow> list_rigs (ae_db e) (as_sellers s));
          live = fold (\<lambda>st m. AList.update (st_worker st) (st_hashrate_hs st) m)
            (snapshot (ae_status e) (as_registry s)) [];
          now = ae_clk e 0;
          rented = map o_worker (filter (is_live now) (list_orders (ae_db e) (as_orders s)))
      in JObj [(''sellers'', JObj (enrich_sellers sellers live rented))])"

section \<open>Rig endpoints\<close>

record seller_req =
  q_url :: string
  q_user :: string
  q_pass :: string
  q_authority :: "string option"
  q_advertised_ths :: f64
  q_price_per_th_day :: f64
  q_price_min_per_th_day :: f64
  q_price_max_per_th_day :: f64
  q_payout_address :: "string option"
  q_rentable :: bool
  q_max_rental_secs :: i64

definition set_seller :: "api_env \<Rightarrow> string \<Rightarrow> seller_req \<Rightarrow> app_state \<Rightarrow> api_result" where
  "set_seller e worker req s =
     (case rented_guard e 0 worker s of
        Inl err \<Rightarrow> (Inl err, s, [])
      | Inr _ \<Rightarrow>
        (case pool_url (q_url req) of
           Inl err \<Rightarrow> (Inl err, s, [])
         | Inr url \<Rightarrow>
             (let target = \<lparr>t_url = url, t_user = q_user req, t_password = q_pass req,
                    t_authority = q_authority req\<rparr>;
                  g = \<lparr>g_default_pool = target, g_advertised_ths = q_advertised_ths req,
                    g_price_per_th_day = q_price_per_th_day req,
                    g_price_min_per_th_day = q_price_min_per_th_day req,
                    g_price_max_per_th_day = q_price_max_per_th_day req,
                    g_payout_address = q_payout_address req, g_rentable = q_rentable req,
                    g_max_rental_secs = max (q_max_rental_secs req) 0\<rparr>
              in case set_rig (ae_db e) worker g (as_sellers s) of
                   (Inl _, sel) \<Rightarrow> (Inl (InternalServerError, DbMsg), s\<lparr>as_sellers := sel\<rparr>, [])
                 | (Inr _, sel) \<Rightarrow>
                     (Inr (JObj [(''ok'', JBool True)]), s\<lparr>as_sellers := sel\<rparr>,
                      filter (\<lambda>x. st_routing (ae_status e x) = ''idle'')
                        (get_all (as_registry s) worker)))))"

definition set_rentable_req :: "api_env \<Rightarrow> string \<Rightarrow> bool \<Rightarrow> app_state \<Rightarrow> api_result" where
  "set_rentable_req e worker flag s =
     (case set_rentable (ae_db e) worker flag (as_sellers s) of
        (Inl _, sel) \<Rightarrow> (Inl (InternalServerError, DbMsg), s\<lparr>as_sellers := sel\<rparr>, [])
      | (Inr updated, sel) \<Rightarrow>
          (if \<not> updated then reject NotFound ''rig not found'' (s\<lparr>as_sellers := sel\<rparr>)
           else (Inr (JObj [(''ok'', JBool True), (''rentable'', JBool flag)]),
                 s\<lparr>as_sellers := sel\<rparr>, [])))"

definition delete_seller :: "api_env \<Rightarrow> string \<Rightarrow> app_state \<Rightarrow> api_result" where
  "delete_seller e worker s =
     (case rented_guard e 0 worker s of
        Inl err \<Rightarrow> (Inl err, s, [])
      | Inr _ \<Rightarrow>
        (case remove_rig (ae_db e) worker (as_sellers s) of
           (Inl _, sel) \<Rightarrow> (Inl (InternalServerError, DbMsg), s\<lparr>as_sellers := sel\<rparr>, [])
         | (Inr removed, sel) \<Rightarrow>
             (Inr (JObj [(''ok'', JBool True), (''removed'', JBool removed)]),
              s\<lparr>as_sellers := sel\<rparr>, [])))"

section \<open>Order endpoints\<close>

definition list_orders_req :: "api_env \<Rightarrow> app_state \<Rightarrow> json" where
  "list_orders_req e s =
     JObj [(''orders'', JArr (map order_json (list_orders (ae_db e) (as_orders s))))]"

definition get_order_req :: "api_env \<Rightarrow> string \<Rightarrow> app_state \<Rightarrow> (api_error + json)" where
  "get_order_req e oid s = (case get_order (ae_db e) oid (as_orders s) of
       Some o' \<Rightarrow> Inr (order_json o')
     | None \<Rightarrow> Inl (NotFound, Text ''order not found''))"

record order_req =
  oq_worker :: string
  oq_url :: string
  oq_user :: string
  oq_pass :: string
  oq_authority :: "string option"
  oq_fallback_url :: string
  oq_fallback_user :: string
  oq_fallback_pass :: string
  oq_fallback_authority :: "string option"
  oq_until_ms :: i64
  oq_price_per_th_day :: f64
  oq_budget :: f64

definition fallback_url :: "order_req \<Rightarrow> (api_error + string option)" where
  "fallback_url req = (if trim (oq_fallback_url req) = [] then Inr None
     else (case pool_url (oq_fallback_url req) of Inl err \<Rightarrow> Inl err | Inr u \<Rightarrow> Inr (Some u)))"

text \<open>The duration checks against the rig's cap (the dash of the two messages is a long
  dash in the source): readings \<open>0\<close> (end in the past) and
  \<open>1\<close> (duration) of the clock.\<close>

definition rig_check :: "api_env \<Rightarrow> order_req \<Rightarrow> app_state \<Rightarrow> (api_error + unit)" where
  "rig_check e req s = (case get_rig (ae_db e) (as_sellers s) (oq_worker req) of
       None \<Rightarrow> Inr ()
     | Some g \<Rightarrow>
         (if \<not> g_rentable g then Inl (Conflict, Text ''rig is not listed for rent'')
          else if g_max_rental_secs g > 0 then
            (let max_h = div_trunc (g_max_rental_secs g) 3600
             in if oq_until_ms req \<le> 0
                then Inl (Conflict, Text (''this rig caps rentals at '' @ dec_of_int max_h
                       @ '' h - set an end time''))
                else if oq_until_ms req - ae_clk e 1 > saturating_mul (g_max_rental_secs g) 1000
                then Inl (Conflict, Text (''rental too long - this rig caps at ''
                       @ dec_of_int max_h @ '' h''))
                else Inr ())
          else Inr ()))"

text \<open>Everything \<open>create_order\<close> tests before it inserts.\<close>

definition create_order_check :: "api_env \<Rightarrow> order_req \<Rightarrow> app_state
    \<Rightarrow> (api_error + upstream_target \<times> upstream_target option)" where
  "create_order_check e req s =
     (case pool_url (oq_url req) of Inl err \<Rightarrow> Inl err | Inr url \<Rightarrow>
      (case fallback_url req of Inl err \<Rightarrow> Inl err | Inr fb_url \<Rightarrow>
       if oq_until_ms req \<noteq> 0 \<and> oq_until_ms req \<le> ae_clk e 0
       then Inl (Conflict, Text ''end time must be in the future'')
       else (case rig_check e req s of Inl err \<Rightarrow> Inl err | Inr _ \<Rightarrow>
         (case rented_guard e 2 (oq_worker req) s of Inl err \<Rightarrow> Inl err | Inr _ \<Rightarrow>
           (let live = (case aggregated_status (ae_status e) (as_registry s) (oq_worker req) of
                  None \<Rightarrow> 0 | Some st \<Rightarrow> st_hashrate_hs st)
            in if \<not> is_delivering live then Inl (Conflict, Text ''rig is offline'')
               else Inr (\<lparr>t_url = url, t_user = oq_user req, t_password = oq_pass req,
                      t_authority = oq_authority req\<rparr>,
                    map_option (\<lambda>u. \<lparr>t_url = u, t_user = oq_fallback_user req,
                      t_password = oq_fallback_pass req,
                      t_authority = oq_fallback_authority req\<rparr>) fb_url))))))"

text \<open>The count a caller answers with; what it does to the sessions is \<open>reconnect_sessions\<close> of
  \<open>Control\<close>.\<close>

definition reconnect_all :: "any_session list \<Rightarrow> nat" where
  "reconnect_all sessions = length sessions"

text \<open>The insert and what follows it; a competing request may have run since the check.\<close>

definition create_order_commit :: "api_env \<Rightarrow> order_req \<Rightarrow> upstream_target \<Rightarrow> upstream_target option
    \<Rightarrow> app_state \<Rightarrow> api_result" where
  "create_order_commit e req target fallback s =
     (case create (ae_db e) (ae_clk e 3) (oq_worker req) target fallback (oq_until_ms req)
          (oq_price_per_th_day req) (oq_budget req) (as_orders s) of
        (Inl AlreadyActive, os) \<Rightarrow> reject Conflict ''rig is already rented'' (s\<lparr>as_orders := os\<rparr>)
      | (Inl Db, os) \<Rightarrow> (Inl (InternalServerError, DbMsg), s\<lparr>as_orders := os\<rparr>, [])
      | (Inr o', os) \<Rightarrow>
          (let sessions = get_all (as_registry s) (oq_worker req);
               switched = reconnect_all sessions
           in (Inr (JObj [(''ok'', JBool True), (''order'', order_json o'),
                 (''applied'', JBool (switched > 0)), (''switched'', JInt (int switched)),
                 (''of'', JInt (int (length sessions)))]),
               s\<lparr>as_orders := os\<rparr>, sessions)))"

definition create_order :: "api_env \<Rightarrow> order_req \<Rightarrow> app_state \<Rightarrow> api_result" where
  "create_order e req s = (case create_order_check e req s of
       Inl err \<Rightarrow> (Inl err, s, [])
     | Inr (target, fallback) \<Rightarrow> create_order_commit e req target fallback s)"

definition cancel_order :: "api_env \<Rightarrow> string \<Rightarrow> app_state \<Rightarrow> api_result" where
  "cancel_order e oid s =
     (case cancel (ae_db e) (ae_clk e 0) oid (as_orders s) of
        (None, os) \<Rightarrow> reject NotFound ''order not found'' (s\<lparr>as_orders := os\<rparr>)
      | (Some o', os) \<Rightarrow>
          (let sessions = get_all (as_registry s) (o_worker o');
               reverted = reconnect_all sessions
           in (Inr (JObj [(''ok'', JBool True), (''reverted'', JInt (int reverted)),
                 (''of'', JInt (int (length sessions)))]),
               s\<lparr>as_orders := os\<rparr>, sessions)))"

section \<open>Routing\<close>

datatype api_request =
    Health | ListSessions | GetSession string | ListSellers "string option"
  | SetSeller string seller_req | DeleteSeller string | SetRentable string bool
  | GetSellerHistory string "i64 option" | ListOrders | CreateOrder order_req
  | GetOrder string | CancelOrder string

fun dispatch :: "api_env \<Rightarrow> api_request \<Rightarrow> app_state \<Rightarrow> api_result" where
  "dispatch e Health s = (Inr health, s, [])"
| "dispatch e ListSessions s = (Inr (list_sessions e s), s, [])"
| "dispatch e (GetSession w) s = (get_session e w s, s, [])"
| "dispatch e (ListSellers q) s = (Inr (list_sellers e q s), s, [])"
| "dispatch e (SetSeller w r) s = set_seller e w r s"
| "dispatch e (DeleteSeller w) s = delete_seller e w s"
| "dispatch e (SetRentable w b) s = set_rentable_req e w b s"
| "dispatch e (GetSellerHistory w d) s = (get_seller_history e w d s, s, [])"
| "dispatch e ListOrders s = (Inr (list_orders_req e s), s, [])"
| "dispatch e (CreateOrder r) s = create_order e r s"
| "dispatch e (GetOrder i) s = (get_order_req e i s, s, [])"
| "dispatch e (CancelOrder i) s = cancel_order e i s"

definition router :: "api_env \<Rightarrow> string option \<Rightarrow> api_request \<Rightarrow> app_state \<Rightarrow> api_result" where
  "router e hdr req s = (if req = Health then dispatch e req s
     else (case require_bearer hdr s of
        Inl err \<Rightarrow> (Inl err, s, []) | Inr _ \<Rightarrow> dispatch e req s))"

section \<open>The expiry task\<close>

text \<open>One tick of \<open>spawn_expiry\<close> (\<open>src/orders.rs\<close>): flush the buffered accounting, end the
  finished orders, and drop every connected miner of their rigs.\<close>

definition expiry_tick :: "db_oracle \<Rightarrow> i64 \<Rightarrow> registry \<Rightarrow> order_store \<Rightarrow> order_store \<times> any_session list" where
  "expiry_tick db now reg os =
     (let (finished, os') = take_expired db now (flush db os)
      in (os', concat (map (\<lambda>o'. get_all reg (o_worker o')) finished)))"

end
