(* ===== verification/Migrations.thy ===== *)
theory Migrations
  imports Orders_Facts
begin

text \<open>
  \<open>src/migrations\<close>, run by \<open>connect\<close> of \<open>src/db.rs\<close> at start-up: what becomes of an \<open>orders\<close> table
  of an earlier release. The columns of the first migration are an \<open>old_row\<close>; the fourth ends
  duplicate active orders so that its unique index can be built; the fifth and the sixth add
  columns with their defaults. A table is the list of its rows in the order of their \<open>rowid\<close>.
\<close>

section \<open>The migrations\<close>

record old_row =
  w_id :: string
  w_worker :: string
  w_target_url :: string
  w_target_user :: string
  w_target_password :: string
  w_target_authority :: "string option"
  w_created_ms :: i64
  w_until_ms :: i64
  w_status :: string
  w_delivered_work :: f64
  w_accepted_shares :: i64
  w_submitted_shares :: i64
  w_price_per_th_day :: f64
  w_budget :: f64

definition old_active :: "old_row \<Rightarrow> bool" where
  "old_active r = (w_status r = ''active'')"

text \<open>\<open>newer\<close> at position \<open>j\<close> against \<open>r\<close> at position \<open>i\<close>.\<close>

definition newer_active :: "nat \<Rightarrow> old_row \<Rightarrow> nat \<times> old_row \<Rightarrow> bool" where
  "newer_active i r jq = (case jq of (j, q) \<Rightarrow> w_worker q = w_worker r \<and> old_active q
     \<and> (w_created_ms q > w_created_ms r \<or> (w_created_ms q = w_created_ms r \<and> j > i)))"

definition end_duplicates :: "old_row list \<Rightarrow> old_row list" where
  "end_duplicates rows = map (\<lambda>(i, r).
      if old_active r \<and> list_ex (newer_active i r) (enumerate 0 rows)
      then r\<lparr>w_status := ''ended''\<rparr> else r) (enumerate 0 rows)"

definition add_columns :: "old_row \<Rightarrow> order_row" where
  "add_columns r = \<lparr>r_id = w_id r, r_worker = w_worker r, r_target_url = w_target_url r,
     r_target_user = w_target_user r, r_target_password = w_target_password r,
     r_target_authority = w_target_authority r, r_fallback_url = None, r_fallback_user = None,
     r_fallback_password = None, r_fallback_authority = None, r_created_ms = w_created_ms r,
     r_until_ms = w_until_ms r, r_status = w_status r, r_ended_ms = 0,
     r_delivered_work = w_delivered_work r, r_accepted_shares = w_accepted_shares r,
     r_submitted_shares = w_submitted_shares r, r_price_per_th_day = w_price_per_th_day r,
     r_budget = w_budget r\<rparr>"

definition migrate_orders :: "old_row list \<Rightarrow> order_row list" where
  "migrate_orders rows = map add_columns (end_duplicates rows)"

section \<open>What they keep\<close>

text \<open>Row \<open>i\<close> is the most recent active one of its worker.\<close>

definition latest_active :: "old_row list \<Rightarrow> nat \<Rightarrow> bool" where
  "latest_active rows i \<longleftrightarrow> old_active (rows ! i)
     \<and> (\<forall>j<length rows. old_active (rows ! j) \<and> w_worker (rows ! j) = w_worker (rows ! i) \<longrightarrow>
          w_created_ms (rows ! j) < w_created_ms (rows ! i)
          \<or> (w_created_ms (rows ! j) = w_created_ms (rows ! i) \<and> j \<le> i))"

lemma length_migrate [simp]: "length (migrate_orders rows) = length rows"
  by (simp add: migrate_orders_def end_duplicates_def)

lemma migrate_nth:
  assumes "i < length rows"
  shows "migrate_orders rows ! i = add_columns
    (if old_active (rows ! i) \<and> \<not> latest_active rows i then (rows ! i)\<lparr>w_status := ''ended''\<rparr> else rows ! i)"
proof -
  have "list_ex (newer_active i (rows ! i)) (enumerate 0 rows) \<longleftrightarrow>
      (\<exists>j<length rows. newer_active i (rows ! i) (j, rows ! j))"
    by (auto simp: list_ex_iff in_set_enumerate_eq)
  also have "\<dots> \<longleftrightarrow> \<not> latest_active rows i" if "old_active (rows ! i)"
    using that by (auto simp: newer_active_def latest_active_def not_le not_less)
  finally show ?thesis
    using assms by (auto simp: migrate_orders_def end_duplicates_def nth_enumerate_eq)
qed

lemma row_active_add_columns: "row_active (add_columns r) = old_active r"
  by (simp add: row_active_def old_active_def add_columns_def)

lemma migrate_active:
  "i < length rows \<Longrightarrow> row_active (migrate_orders rows ! i) \<longleftrightarrow> latest_active rows i"
  by (simp add: migrate_nth row_active_add_columns) (auto simp: latest_active_def old_active_def)

lemma migrate_fields:
  assumes "i < length rows"
  shows "r_id (migrate_orders rows ! i) = w_id (rows ! i)" "r_worker (migrate_orders rows ! i) = w_worker (rows ! i)"
    "\<not> old_active (rows ! i) \<Longrightarrow> migrate_orders rows ! i = add_columns (rows ! i)"
  using assms by (simp_all add: migrate_nth add_columns_def)

lemma latest_unique:
  assumes "latest_active rows i" "latest_active rows j" "i < length rows" "j < length rows"
    and "w_worker (rows ! i) = w_worker (rows ! j)"
  shows "i = j"
  using assms unfolding latest_active_def by (metis less_asym order.asym antisym less_irrefl)

lemma latest_exists:
  assumes "i < length rows" "old_active (rows ! i)"
  shows "\<exists>k<length rows. latest_active rows k \<and> w_worker (rows ! k) = w_worker (rows ! i)"
proof -
  let ?A = "{j. j < length rows \<and> old_active (rows ! j) \<and> w_worker (rows ! j) = w_worker (rows ! i)}"
  let ?c = "\<lambda>j. w_created_ms (rows ! j)"
  let ?B = "{j \<in> ?A. ?c j = Max (?c ` ?A)}"
  have A: "finite ?A" "?A \<noteq> {}" using assms by auto
  then have "Max (?c ` ?A) \<in> ?c ` ?A" by (intro Max_in) simp_all
  then have B: "finite ?B" "?B \<noteq> {}" using A(1) by auto
  let ?k = "Max ?B"
  have k: "?k \<in> ?B" by (rule Max_in [OF B])
  have "?c j < ?c ?k \<or> (?c j = ?c ?k \<and> j \<le> ?k)" if "j \<in> ?A" for j
  proof (cases "j \<in> ?B")
    case True
    with Max_ge [OF B(1) True] k show ?thesis by simp
  next
    case False
    with that have "?c j < Max (?c ` ?A)" using A(1) by (simp add: order.not_eq_order_implies_strict)
    with k show ?thesis by simp
  qed
  with k show ?thesis by (intro exI [of _ ?k]) (auto simp: latest_active_def)
qed

lemma migrated_inv:
  assumes "distinct (map w_id rows)" and "\<forall>r\<in>set rows. w_status r \<in> {''active'', ''ended'', ''cancelled''}"
  shows "store_inv (order_store_new (migrate_orders rows) seq)"
proof -
  let ?m = "migrate_orders rows"
  have ids: "map r_id ?m = map w_id rows"
    by (rule nth_equalityI) (simp_all add: migrate_fields)
  have "distinct (map r_worker (filter row_active ?m))"
  proof -
    have "distinct ?m" using assms(1) ids by (metis distinct_map)
    moreover have "inj_on r_worker (set (filter row_active ?m))"
    proof (rule inj_onI)
      fix x y
      assume "x \<in> set (filter row_active ?m)" "y \<in> set (filter row_active ?m)" and w: "r_worker x = r_worker y"
      then obtain i j where "x = ?m ! i" "y = ?m ! j" "i < length rows" "j < length rows"
        "row_active (?m ! i)" "row_active (?m ! j)"
        by (auto simp: in_set_conv_nth)
      with w show "x = y" using latest_unique [of rows i j] by (simp add: migrate_active migrate_fields)
    qed
    ultimately show ?thesis by (simp add: distinct_map)
  qed
  moreover have "status_ok r" if "r \<in> set ?m" for r
  proof -
    from that obtain i where i: "i < length rows" "r = ?m ! i" by (auto simp: in_set_conv_nth)
    with assms(2) show ?thesis by (simp add: migrate_nth status_ok_def add_columns_def)
  qed
  ultimately show ?thesis
    using assms(1) ids by (simp add: store_inv_def order_store_new_def active_workers_def)
qed

text \<open>C35: Upgrading a database never fails on the new unique index and never loses a running
  rental: after the migrations every worker that had an active order has exactly one, its most
  recent (by creation time, then insertion), every order keeps its id, worker and position, no
  order that was not active changes, and none becomes active.\<close>

theorem migration_keeps_latest_active:
  assumes "i < length rows"
  shows "r_id (migrate_orders rows ! i) = w_id (rows ! i)
    \<and> r_worker (migrate_orders rows ! i) = w_worker (rows ! i)
    \<and> (row_active (migrate_orders rows ! i) \<longleftrightarrow> latest_active rows i)
    \<and> (\<not> old_active (rows ! i) \<longrightarrow> migrate_orders rows ! i = add_columns (rows ! i))
    \<and> (old_active (rows ! i) \<longrightarrow> (\<exists>!k. k < length rows \<and> row_active (migrate_orders rows ! k)
         \<and> r_worker (migrate_orders rows ! k) = w_worker (rows ! i)))"
proof -
  have "\<exists>!k. k < length rows \<and> row_active (migrate_orders rows ! k)
      \<and> r_worker (migrate_orders rows ! k) = w_worker (rows ! i)" if "old_active (rows ! i)"
  proof (rule ex_ex1I)
    show "\<exists>k. k < length rows \<and> row_active (migrate_orders rows ! k)
        \<and> r_worker (migrate_orders rows ! k) = w_worker (rows ! i)"
      using latest_exists [OF assms that] by (auto simp: migrate_active migrate_fields)
  next
    fix j k
    assume "j < length rows \<and> row_active (migrate_orders rows ! j)
        \<and> r_worker (migrate_orders rows ! j) = w_worker (rows ! i)"
      "k < length rows \<and> row_active (migrate_orders rows ! k)
        \<and> r_worker (migrate_orders rows ! k) = w_worker (rows ! i)"
    then show "j = k" by (intro latest_unique [of rows j k]) (auto simp: migrate_active migrate_fields)
  qed
  with assms show ?thesis by (simp add: migrate_active migrate_fields)
qed

definition old_order :: "string \<Rightarrow> i64 \<Rightarrow> old_row" where
  "old_order i t = \<lparr>w_id = i, w_worker = ''w1'', w_target_url = ''p:1'', w_target_user = ''u'',
     w_target_password = ''x'', w_target_authority = None, w_created_ms = t, w_until_ms = 0,
     w_status = ''active'', w_delivered_work = 0, w_accepted_shares = 0, w_submitted_shares = 0,
     w_price_per_th_day = 1, w_budget = 0\<rparr>"

theorem migration_keeps_latest_active_witness:
  "row_active (migrate_orders [old_order ''a'' 5, old_order ''b'' 7, old_order ''c'' 7] ! 2)
   \<and> \<not> row_active (migrate_orders [old_order ''a'' 5, old_order ''b'' 7, old_order ''c'' 7] ! 1)"
  using migration_keeps_latest_active [of 2 "[old_order ''a'' 5, old_order ''b'' 7, old_order ''c'' 7]"]
    migration_keeps_latest_active [of 1 "[old_order ''a'' 5, old_order ''b'' 7, old_order ''c'' 7]"]
  by (auto simp: latest_active_def old_order_def old_active_def less_Suc_eq numeral_2_eq_2 numeral_3_eq_3)

end
