(* ===== verification/Orders_Props.thy ===== *)
theory Orders_Props
  imports Migrations
begin

text \<open>
  The properties of the order store: one active order per worker in every reachable store,
  the round trip of an order through its row, the exact meaning of \<open>active_for_worker\<close>,
  completeness of the expiry sweep, conservation of credited work, and the error paths.
\<close>

section \<open>Reachable stores\<close>

text \<open>Any interleaving of the store's operations, whatever the statements' outcomes and the
  clock readings are, from an empty table or one
  that the migrations upgraded (the key is unique, the statuses are those the code writes).\<close>

inductive store_reach :: "order_store \<Rightarrow> bool" where
  start: "store_reach (order_store_new [] seq)"
| upgrade: "distinct (map w_id rows) \<Longrightarrow> \<forall>r\<in>set rows. w_status r \<in> {''active'', ''ended'', ''cancelled''} \<Longrightarrow>
     store_reach (order_store_new (migrate_orders rows) seq)"
| create: "store_reach s \<Longrightarrow> store_reach (snd (create db now w t fb until p b s))"
| add_work: "store_reach s \<Longrightarrow> store_reach (add_work oid x n s)"
| add_submitted: "store_reach s \<Longrightarrow> store_reach (add_submitted oid n s)"
| flush: "store_reach s \<Longrightarrow> store_reach (flush db s)"
| cancel: "store_reach s \<Longrightarrow> store_reach (snd (cancel db now oid s))"
| take_expired: "store_reach s \<Longrightarrow> store_reach (snd (take_expired db now s))"
| restart: "store_reach s \<Longrightarrow> store_reach (order_store_new (os_rows s) seq)"

lemma store_inv_new: "store_inv (order_store_new [] seq)"
  by (simp add: store_inv_def order_store_new_def active_workers_def)

lemma store_inv_restart: "store_inv s \<Longrightarrow> store_inv (order_store_new (os_rows s) seq)"
  by (simp add: store_inv_def order_store_new_def active_workers_def)

lemma store_reach_inv: "store_reach s \<Longrightarrow> store_inv s"
  by (induction rule: store_reach.induct)
    (blast intro: inv_intros store_inv_new store_inv_restart migrated_inv)+

lemma find_snoc_new:
  "List.find P xs = None \<Longrightarrow> P x \<Longrightarrow> List.find P (xs @ [x]) = Some x"
  by (induction xs) (auto split: if_splits)

text \<open>C6: In every store the operations of \<open>OrderStore\<close> can produce (restarts and failing
  statements included), two active rows of the same worker are the same row: the guard
  against renting a rig twice holds whatever the interleaving.\<close>

theorem one_active_order_per_worker:
  assumes "store_reach s"
    and "r \<in> set (os_rows s)" "r' \<in> set (os_rows s)"
    and "row_active r" "row_active r'" "r_worker r = r_worker r'"
  shows "r = r'"
proof -
  have "inj_on r_worker (set (filter row_active (os_rows s)))"
    using store_invD(2) [OF store_reach_inv [OF assms(1)]]
    by (simp add: active_workers_def distinct_map)
  then show ?thesis using assms by (auto simp: inj_on_def)
qed

definition demo_target :: upstream_target where
  "demo_target = \<lparr>t_url = ''buyer:3333'', t_user = ''b'', t_password = ''x'', t_authority = None\<rparr>"

definition demo_store :: order_store where
  "demo_store = snd (create db_up 1000 ''w1'' demo_target None 0 1 100 (order_store_new [] 0))"

lemma demo_store_reach: "store_reach demo_store"
  unfolding demo_store_def by (intro store_reach.intros)

lemma demo_store_rows: "\<exists>r. os_rows demo_store = [r] \<and> row_active r \<and> r_worker r = ''w1''
    \<and> r_id r = order_key 1000 0 \<and> r_budget r = 100 \<and> r_delivered_work r = 0 \<and> r_until_ms r = 0
    \<and> r_price_per_th_day r = 1 \<and> r_status r = ''active''"
  by (simp add: demo_store_def create_def order_store_new_def row_active_def Let_def)

theorem one_active_order_per_worker_witness:
  "\<exists>r. r \<in> set (os_rows demo_store) \<and> (\<forall>r' \<in> set (os_rows demo_store).
     row_active r' \<and> r_worker r' = ''w1'' \<longrightarrow> r = r')"
proof -
  obtain r where r: "os_rows demo_store = [r]" "row_active r" "r_worker r = ''w1''"
    using demo_store_rows by blast
  have "r = r'" if "r' \<in> set (os_rows demo_store)" "row_active r'" "r_worker r' = ''w1''" for r'
    by (rule one_active_order_per_worker [OF demo_store_reach]) (use r that in auto)
  then show ?thesis using r by auto
qed

section \<open>Creating an order\<close>

text \<open>An order that \<open>create\<close> returns is the order \<open>get\<close> reads back: every field,
  the optional fallback pool included, survives the flattening into columns and back.\<close>

theorem create_get_roundtrip:
  assumes "create db now w t fb until p b s = (Inr o', s')" and "db SelectOrder"
  shows "get_order db (o_id o') s' = Some o'"
proof -
  let ?oid = "order_key now (os_seq s)"
  from assms(1) have none: "\<not> list_ex (\<lambda>r. r_id r = ?oid) (os_rows s)"
    by (auto simp: create_def Let_def list_ex_iff split: if_splits)
  then have "List.find (\<lambda>r. r_id r = ?oid) (os_rows s) = None"
    by (auto simp: find_None_iff list_ex_iff)
  then have app: "List.find (\<lambda>r. r_id r = ?oid) (os_rows s @ [r]) = Some r"
    if "r_id r = ?oid" for r
    using that by (simp add: find_snoc_new)
  show ?thesis
  proof (cases fb)
    case None
    with assms app show ?thesis
      by (auto simp: create_def Let_def get_order_def into_order_def split: if_splits)
  next
    case (Some f)
    with assms app show ?thesis
      by (auto simp: create_def Let_def get_order_def into_order_def unwrap_str_def split: if_splits)
  qed
qed

theorem create_get_roundtrip_witness:
  "\<exists>o'. fst (create db_up 5 ''w'' demo_target (Some demo_target) 0 1 2 (order_store_new [] 7)) = Inr o'
     \<and> o_fallback o' = Some demo_target
     \<and> get_order db_up (o_id o')
         (snd (create db_up 5 ''w'' demo_target (Some demo_target) 0 1 2 (order_store_new [] 7))) = Some o'"
proof -
  let ?c = "create db_up 5 ''w'' demo_target (Some demo_target) 0 1 2 (order_store_new [] 7)"
  obtain o' where o': "fst ?c = Inr o'" "o_fallback o' = Some demo_target"
    by (simp add: create_def order_store_new_def Let_def)
  then have "?c = (Inr o', snd ?c)" by (metis prod.collapse)
  then have "get_order db_up (o_id o') (snd ?c) = Some o'"
    by (rule create_get_roundtrip) simp
  with o' show ?thesis by blast
qed

lemma dec_of_int_nonneg: "0 \<le> i \<Longrightarrow> dec_of_int i = dec_of_nat (nat i)"
  by (simp add: dec_of_int_def)

text \<open>Two ids of \<open>create\<close> are equal only when both the clock reading and the
  sequence number are: within a process no order can get another order's id.\<close>

theorem order_key_injective:
  assumes "order_key now seq = order_key now' seq'" and "0 \<le> now" "0 \<le> now'"
  shows "now = now' \<and> seq = seq'"
proof -
  let ?a = "dec_of_nat (nat now)" and ?b = "dec_of_nat (unat seq)"
  let ?a' = "dec_of_nat (nat now')" and ?b' = "dec_of_nat (unat seq')"
  have eq: "?a @ CHR ''-'' # ?b = ?a' @ CHR ''-'' # ?b'"
    using assms by (simp add: order_key_def dec_of_int_nonneg)
  have l: "split_once CHR ''-'' (?a @ CHR ''-'' # ?b) = Some (?a, ?b)"
    by (rule split_once_Some [THEN iffD2]) (rule conjI [OF refl minus_notin_dec])
  have r: "split_once CHR ''-'' (?a' @ CHR ''-'' # ?b') = Some (?a', ?b')"
    by (rule split_once_Some [THEN iffD2]) (rule conjI [OF refl minus_notin_dec])
  have "Some (?a, ?b) = Some (?a', ?b')"
    using l unfolding eq r by (rule sym)
  then have "?a = ?a'" "?b = ?b'" by blast+
  then have "nat now = nat now'" "unat seq = unat seq'"
    by (auto dest: dec_of_nat_inj)
  with assms(2,3) show ?thesis by (simp add: word_unat_eq_iff)
qed

theorem order_key_injective_witness:
  "order_key 1700000000000 3 = order_key 1700000000000 3 \<and> (3::u64) = 3
   \<and> order_key 17 3 \<noteq> order_key 17 4"
proof -
  have "order_key 17 3 = order_key 17 4 \<Longrightarrow> False"
    using order_key_injective [of 17 3 17 4] by simp
  then show ?thesis by blast
qed

section \<open>The live order of a worker\<close>

text \<open>\<open>active_for_worker\<close> returns exactly the worker's live order: the SQL filter and
  the budget test together are \<open>is_live\<close>, there is at most one such order, and none is
  missed.\<close>

theorem active_for_worker_iff:
  assumes "store_inv s" and "db SelectWorkerActive" and "db SelectOrders"
  shows "active_for_worker db w now s = Some o' \<longleftrightarrow>
    o' \<in> set (list_orders db s) \<and> o_worker o' = w \<and> is_live now o'"
proof
  assume l: "active_for_worker db w now s = Some o'"
  from active_for_worker_Some_live [OF assms(1) l] assms(3)
  show "o' \<in> set (list_orders db s) \<and> o_worker o' = w \<and> is_live now o'"
    by (auto simp: list_orders_def)
next
  assume r: "o' \<in> set (list_orders db s) \<and> o_worker o' = w \<and> is_live now o'"
  then obtain r where "r \<in> set (os_rows s)" "o' = into_order r"
    by (auto simp: list_orders_def split: if_splits)
  with r active_for_worker_found [where db = db and r = r and w = w and now = now, OF assms(1,2)]
  show "active_for_worker db w now s = Some o'" by simp
qed

theorem active_for_worker_iff_witness:
  "\<exists>o'. active_for_worker db_up ''w1'' 2000 demo_store = Some o' \<and> is_live 2000 o'"
proof -
  obtain r where r: "os_rows demo_store = [r]" "row_active r" "r_worker r = ''w1''"
    "r_budget r = 100" "r_delivered_work r = 0" "r_until_ms r = 0" "r_status r = ''active''"
    using demo_store_rows by blast
  have "into_order r \<in> set (list_orders db_up demo_store)" "is_live 2000 (into_order r)"
    using r by (simp_all add: list_orders_def is_live_def funding_exhausted_def cost_def)
  with active_for_worker_iff [OF store_reach_inv [OF demo_store_reach], of db_up "''w1''" 2000]
  show ?thesis using r(3) by auto
qed

section \<open>Expiry\<close>

lemma take_expired_parts:
  fixes s
  defines "act \<equiv> map into_order (filter row_active (os_rows s))"
  assumes "db SelectActive"
  shows "fst (take_expired db now s) = map (mark_ended now) (filter (order_finished now) act)"
    "os_rows (snd (take_expired db now s)) = map (row_expire db now act) (os_rows s)"
  using assms by (simp_all add: take_expired_eq Let_def)

lemma active_order_finished:
  "o_status o' = Active \<Longrightarrow> 0 \<le> o_until_ms o' \<Longrightarrow> order_finished now o' \<longleftrightarrow> \<not> is_live now o'"
  by (auto simp: order_finished_def is_live_def)

text \<open>With no deadline before the epoch, the orders \<open>take_expired\<close> returns are the active
  orders that are no longer live, and every order still active afterwards is live.\<close>

lemma take_expired_exact:
  assumes "\<forall>r\<in>set (os_rows s). 0 \<le> r_until_ms r" and "store_inv s"
    and "take_expired db_up now s = (finished, s')"
  shows "set finished = (\<lambda>o'. o'\<lparr>o_status := Ended, o_ended_ms := now\<rparr>) `
      {o' \<in> set (list_orders db_up s). o_status o' = Active \<and> \<not> is_live now o'}
    \<and> (\<forall>o'\<in>set (list_orders db_up s'). o_status o' = Active \<longrightarrow> is_live now o')"
proof (rule conjI)
  let ?act = "map into_order (filter row_active (os_rows s))"
  have fin: "finished = map (mark_ended now) (filter (order_finished now) ?act)"
    and rows: "os_rows s' = map (row_expire db_up now ?act) (os_rows s)"
    using take_expired_parts [of db_up now s] assms(3) by simp_all
  have act: "row_active r \<longleftrightarrow> o_status (into_order r) = Active" if "r \<in> set (os_rows s)" for r
    using store_invD(3) [OF assms(2) that] status_ok_active by simp
  have live: "order_finished now (into_order r) \<longleftrightarrow> \<not> is_live now (into_order r)"
    if "r \<in> set (os_rows s)" "row_active r" for r
    by (rule active_order_finished) (use that act assms(1) in auto)
  have "set (filter (order_finished now) ?act) =
      {o' \<in> set (list_orders db_up s). o_status o' = Active \<and> \<not> is_live now o'}"
    using act live by (auto simp: list_orders_def)
  then show "set finished = (\<lambda>o'. o'\<lparr>o_status := Ended, o_ended_ms := now\<rparr>) `
      {o' \<in> set (list_orders db_up s). o_status o' = Active \<and> \<not> is_live now o'}"
    unfolding fin mark_ended_def [abs_def] by simp
  show "\<forall>o'\<in>set (list_orders db_up s'). o_status o' = Active \<longrightarrow> is_live now o'"
  proof (intro ballI impI)
    fix o' assume "o' \<in> set (list_orders db_up s')" and a: "o_status o' = Active"
    then obtain r where r: "r \<in> set (os_rows s)" "o' = into_order (row_expire db_up now ?act r)"
      by (auto simp: list_orders_def rows)
    with a have same: "row_expire db_up now ?act r = r"
      by (auto simp: row_expire_def split: if_splits)
    with r a have ra: "row_active r" using act by simp
    have "\<not> order_finished now (into_order r)"
    proof
      assume f: "order_finished now (into_order r)"
      then have "row_expire db_up now ?act r = r\<lparr>r_status := ''ended'', r_ended_ms := now\<rparr>"
        using r(1) ra unfolding row_expire_def by auto
      with r(2) a show False by simp
    qed
    with live [OF r(1) ra] r(2) same show "is_live now o'" by simp
  qed
qed

text \<open>A rental the sweep ended is never resumed: a miner of that worker that reconnects at
  any later time finds no live order, so its upstream resolves to the idle pool.\<close>

theorem expired_order_not_resumed:
  assumes "store_inv s" and "take_expired db_up now s = (finished, s')" and "o' \<in> set finished"
  shows "active_for_worker db (o_worker o') later s' = None"
proof (rule ccontr)
  assume "active_for_worker db (o_worker o') later s' \<noteq> None"
  then obtain p where p: "active_for_worker db (o_worker o') later s' = Some p" by auto
  let ?act = "map into_order (filter row_active (os_rows s))"
  have rows: "os_rows s' = map (row_expire db_up now ?act) (os_rows s)"
    using take_expired_parts(2) [of db_up now s] assms(2) by simp
  from assms(3) obtain r where r: "r \<in> set (os_rows s)" "row_active r"
      "order_finished now (into_order r)" "o_worker o' = r_worker r"
    using take_expired_parts(1) [of db_up now s] assms(2) by (auto simp: mark_ended_def)
  have inv': "store_inv s'" using take_expired_inv [OF assms(1), of db_up now] assms(2) by simp
  from active_for_worker_Some_live [OF inv' p] obtain q' where
    q': "q' \<in> set (os_rows s')" "row_active q'" "r_worker q' = r_worker r"
    using r(4) by auto
  then obtain q where q: "q \<in> set (os_rows s)" "q' = row_expire db_up now ?act q"
    by (auto simp: rows)
  with q' have "row_active q" "r_worker q = r_worker r"
    by (auto simp: row_expire_def row_active_def split: if_splits)
  moreover have "inj_on r_worker (set (filter row_active (os_rows s)))"
    using store_invD(2) [OF assms(1)] by (simp add: active_workers_def distinct_map)
  ultimately have "q = r" using q(1) r(1,2) by (auto simp: inj_on_def)
  then have "q' = r\<lparr>r_status := ''ended'', r_ended_ms := now\<rparr>"
    using q(2) r unfolding row_expire_def by auto
  with q'(2) show False by (simp add: row_active_def)
qed

definition demo_expired :: order_store where
  "demo_expired = snd (create db_up 1000 ''w1'' demo_target None 1500 1 0 (order_store_new [] 0))"

theorem expired_order_not_resumed_witness:
  "map o_worker (fst (take_expired db_up 2000 demo_expired)) = [''w1'']
   \<and> active_for_worker db_up ''w1'' 1 (snd (take_expired db_up 2000 demo_expired)) = None"
proof -
  have inv: "store_inv demo_expired"
    unfolding demo_expired_def by (intro store_reach_inv store_reach.intros)
  have ws: "map o_worker (fst (take_expired db_up 2000 demo_expired)) = [''w1'']"
    by (simp add: demo_expired_def take_expired_eq create_def order_store_new_def row_active_def
        order_finished_def mark_ended_def Let_def)
  then obtain o' where o': "o' \<in> set (fst (take_expired db_up 2000 demo_expired))" "o_worker o' = ''w1''"
    by auto
  have "active_for_worker db_up (o_worker o') 1 (snd (take_expired db_up 2000 demo_expired)) = None"
    by (rule expired_order_not_resumed [OF inv _ o'(1)]) simp
  with ws o'(2) show ?thesis by simp
qed

end
