(* ===== verification/Api_Props.thy ===== *)
theory Api_Props
  imports Api Orders_Props
begin

text \<open>
  The control API's properties: the bearer gate, what a successful rental request
  guarantees, the freeze of a rented rig, and the expiry task over every state the API and
  the relays can reach.
\<close>

section \<open>The token comparison\<close>

lemma or_zero_iff: "or a b = 0 \<longleftrightarrow> a = 0 \<and> b = (0 :: u8)"
  by (auto simp: bit_eq_iff bit_simps)

lemma xor_zero_iff: "xor a b = 0 \<longleftrightarrow> a = (b :: u8)"
  by (auto simp: bit_eq_iff bit_simps)

lemma ct_loop_zero: "length xs = length ys \<Longrightarrow> ct_loop xs ys d = 0 \<longleftrightarrow> d = 0 \<and> xs = ys"
  by (induction xs ys d rule: ct_loop.induct) (auto simp: or_zero_iff xor_zero_iff)

lemma byte_unat: "n < 256 \<Longrightarrow> unat (of_nat n :: u8) = n"
  by (simp add: unat_of_nat take_bit_eq_mod)

lemma byte_inj: "m < 256 \<Longrightarrow> n < 256 \<Longrightarrow> (of_nat m :: u8) = of_nat n \<longleftrightarrow> m = n"
  by (metis byte_unat)

lemma code_point: "(of_char c :: nat) < 256"
  by (rule nat_of_char_less_256)

lemma utf8_char_cancel: "utf8_char c @ s = utf8_char d @ t \<longleftrightarrow> c = d \<and> s = t"
proof
  let ?m = "of_char c :: nat" and ?n = "of_char d :: nat"
  have r: "?m < 256" "?n < 256" by (rule code_point)+
  assume eq: "utf8_char c @ s = utf8_char d @ t"
  have "?m = ?n"
  proof (cases "?m < 128"; cases "?n < 128")
    assume "?m < 128" "?n < 128"
    with eq r show ?thesis by (simp add: utf8_char_def Let_def byte_inj)
  next
    assume "?m < 128" "\<not> ?n < 128"
    with eq r have "?m = 192 + ?n div 64"
      by (simp add: utf8_char_def Let_def byte_inj del: of_nat_add)
    with \<open>?m < 128\<close> show ?thesis by simp
  next
    assume "\<not> ?m < 128" "?n < 128"
    with eq r have "192 + ?m div 64 = ?n"
      by (simp add: utf8_char_def Let_def byte_inj del: of_nat_add)
    with \<open>?n < 128\<close> show ?thesis by simp
  next
    assume "\<not> ?m < 128" "\<not> ?n < 128"
    with eq r have "192 + ?m div 64 = 192 + ?n div 64" "128 + ?m mod 64 = 128 + ?n mod 64"
      by (simp_all add: utf8_char_def Let_def byte_inj del: of_nat_add)
    then show ?thesis by (metis add_left_cancel div_mult_mod_eq)
  qed
  then have cd: "c = d" by simp
  with eq show "c = d \<and> s = t" by simp
qed simp

lemma as_bytes_inj: "as_bytes a = as_bytes b \<longleftrightarrow> a = b"
proof (induction a arbitrary: b)
  case Nil
  show ?case by (cases b) (auto simp: as_bytes_def utf8_char_def Let_def)
next
  case (Cons c a)
  show ?case
  proof (cases b)
    case Nil
    then show ?thesis by (auto simp: as_bytes_def utf8_char_def Let_def)
  next
    case (Cons d t)
    with Cons.IH [of t] show ?thesis by (simp add: as_bytes_def utf8_char_cancel)
  qed
qed

text \<open>The constant-time comparison accepts exactly equal strings: no token is accepted
  by a shared prefix, a wrong length or a byte that cancels out.\<close>

theorem ct_eq_iff: "ct_eq a b \<longleftrightarrow> a = b"
  by (auto simp: ct_eq_def Let_def ct_loop_zero as_bytes_inj)

section \<open>The bearer gate\<close>

text \<open>C30: No request but the health check succeeds, changes the state or reconnects a miner
  unless a token is configured and the request carries it as a bearer token: the control API
  fails closed.\<close>

theorem bearer_gate:
  assumes "req \<noteq> Health"
    and "router e hdr req s = (res, s', rc)"
    and "(\<exists>j. res = Inr j) \<or> s' \<noteq> s \<or> rc \<noteq> []"
  shows "as_token s \<noteq> [] \<and> (\<exists>v. hdr = Some (''Bearer '' @ v) \<and> trim v = as_token s)"
proof -
  from assms have ok: "require_bearer hdr s = Inr ()"
    by (auto simp: router_def split: sum.splits)
  then have tok: "as_token s \<noteq> []" by (auto simp: require_bearer_def split: if_splits)
  with ok have eq: "(case Option.bind hdr (strip_prefix ''Bearer '') of None \<Rightarrow> [] | Some v \<Rightarrow> trim v)
      = as_token s"
    by (auto simp: require_bearer_def Let_def ct_eq_def ct_loop_zero as_bytes_inj split: if_splits)
  with tok obtain v where "Option.bind hdr (strip_prefix ''Bearer '') = Some v" "trim v = as_token s"
    by (auto split: option.splits)
  moreover from this(1) obtain h where h: "hdr = Some h" "strip_prefix ''Bearer '' h = Some v"
    by (auto simp: bind_eq_Some_conv)
  moreover from h(2) have "h = ''Bearer '' @ v"
    unfolding strip_prefix_def starts_with_def
    by (metis append_take_drop_id option.distinct(1) option.inject)
  ultimately show ?thesis using tok by blast
qed

definition demo_status :: "any_session \<Rightarrow> session_status" where
  "demo_status x = \<lparr>st_worker = ''w1'', st_routing = ''idle'', st_order_id = None,
     st_upstream_url = ''p:1'', st_hashrate_hs = 5, st_delivered_work = 0, st_accepted_shares = 0,
     st_submitted_shares = 0, st_accept_ratio = 1, st_accept_ratio_low = False,
     st_protocol = ''sv1''\<rparr>"

definition demo_env :: api_env where
  "demo_env = \<lparr>ae_db = db_up, ae_clk = (\<lambda>i. 1000), ae_status = demo_status\<rparr>"

definition demo_app :: app_state where
  "demo_app = \<lparr>as_registry = [(''w1'', [Sv1 7])], as_sellers = [],
     as_orders = order_store_new [] 0, as_hashrate = [], as_token = ''s3cret''\<rparr>"

theorem bearer_gate_witness:
  "fst (router demo_env (Some ''Bearer s3cret'') ListOrders demo_app) = Inr (JObj [(''orders'', JArr [])])
   \<and> (\<exists>v. ''Bearer s3cret'' = ''Bearer '' @ v \<and> trim v = as_token demo_app)"
proof -
  have t: "trim ''s3cret'' = ''s3cret''" by (rule trim_id) (simp add: no_outer_ws_def is_ws_def)
  have r: "router demo_env (Some ''Bearer s3cret'') ListOrders demo_app =
      (Inr (JObj [(''orders'', JArr [])]), demo_app, [])"
    by (simp add: router_def require_bearer_def strip_prefix_def starts_with_def t ct_eq_def
        ct_loop_zero demo_app_def list_orders_req_def list_orders_def order_store_new_def demo_env_def)
  show ?thesis using bearer_gate [OF _ r] r by simp
qed

section \<open>Renting\<close>

lemma create_Inr:
  assumes "create db now w t fb until p b s = (Inr o', s')"
  shows "o' = \<lparr>o_id = order_key now (os_seq s), o_worker = w, o_target = t, o_fallback = fb,
           o_created_ms = now, o_until_ms = until, o_status = Active, o_ended_ms = 0,
           o_delivered_work = 0, o_accepted_shares = 0, o_submitted_shares = 0,
           o_price_per_th_day = p, o_budget = b\<rparr>"
    and "\<forall>r\<in>set (os_rows s). \<not> (row_active r \<and> r_worker r = w)"
    and "\<exists>r. os_rows s' = os_rows s @ [r] \<and> into_order r = o' \<and> r_id r = o_id o' \<and> row_active r
       \<and> r_worker r = w \<and> r_until_ms r = until"
    and "\<forall>r\<in>set (os_rows s). r_id r \<noteq> o_id o'"
proof -
  show o': "o' = \<lparr>o_id = order_key now (os_seq s), o_worker = w, o_target = t, o_fallback = fb,
      o_created_ms = now, o_until_ms = until, o_status = Active, o_ended_ms = 0,
      o_delivered_work = 0, o_accepted_shares = 0, o_submitted_shares = 0,
      o_price_per_th_day = p, o_budget = b\<rparr>"
    using assms by (simp add: create_def Let_def split: if_splits)
  show "\<forall>r\<in>set (os_rows s). \<not> (row_active r \<and> r_worker r = w)"
    using assms by (simp add: create_def Let_def list_ex_iff split: if_splits)
  show "\<forall>r\<in>set (os_rows s). r_id r \<noteq> o_id o'"
    using assms by (auto simp: create_def Let_def list_ex_iff split: if_splits)
  show "\<exists>r. os_rows s' = os_rows s @ [r] \<and> into_order r = o' \<and> r_id r = o_id o' \<and> row_active r
       \<and> r_worker r = w \<and> r_until_ms r = until"
  proof (cases fb)
    case None
    with assms o' show ?thesis
      by (auto simp: create_def Let_def row_active_def into_order_def split: if_splits)
  next
    case (Some f)
    with assms o' show ?thesis
      by (auto simp: create_def Let_def row_active_def into_order_def unwrap_str_def split: if_splits)
  qed
qed

lemma pool_url_Inr: "pool_url raw = Inr u \<longleftrightarrow> normalize_pool_url raw = Inr u"
  by (simp add: pool_url_def split: sum.splits)

lemma fallback_url_Inr:
  "fallback_url req = Inr v \<Longrightarrow> (case v of None \<Rightarrow> True | Some u \<Rightarrow> host_port u)"
  by (auto simp: fallback_url_def pool_url_Inr split: if_splits sum.splits
      dest: normalize_pool_url_Inr(3))

lemma create_order_checkD:
  assumes "create_order_check e req s = Inr (t, fb)"
  shows "host_port (t_url t) \<and> t_user t = oq_user req"
    and "case fb of None \<Rightarrow> True | Some f \<Rightarrow> host_port (t_url f)"
    and "oq_until_ms req = 0 \<or> ae_clk e 0 < oq_until_ms req"
    and "rig_check e req s = Inr ()"
    and "active_for_worker (ae_db e) (oq_worker req) (ae_clk e 2) (as_orders s) = None"
    and "\<exists>st. aggregated_status (ae_status e) (as_registry s) (oq_worker req) = Some st
       \<and> 0 < st_hashrate_hs st"
proof -
  from assms obtain url fbu where u: "pool_url (oq_url req) = Inr url" "fallback_url req = Inr fbu"
    and t: "t_url t = url" "t_user t = oq_user req" and f: "map_option t_url fb = fbu"
    by (auto simp: create_order_check_def Let_def option.map_comp comp_def option.map_ident
        split: sum.splits if_splits)
  show "host_port (t_url t) \<and> t_user t = oq_user req"
    using u t normalize_pool_url_Inr(3) by (simp add: pool_url_Inr)
  show "case fb of None \<Rightarrow> True | Some f \<Rightarrow> host_port (t_url f)"
    using fallback_url_Inr [OF u(2)] f by (cases fb) auto
  show "oq_until_ms req = 0 \<or> ae_clk e 0 < oq_until_ms req" "rig_check e req s = Inr ()"
    "active_for_worker (ae_db e) (oq_worker req) (ae_clk e 2) (as_orders s) = None"
    using assms by (auto simp: create_order_check_def rented_guard_def Let_def
        split: sum.splits if_splits)
  show "\<exists>st. aggregated_status (ae_status e) (as_registry s) (oq_worker req) = Some st
       \<and> 0 < st_hashrate_hs st"
    using assms by (auto simp: create_order_check_def is_delivering_def Let_def
        split: sum.splits if_splits option.splits)
qed

lemma rig_check_cap:
  assumes "rig_check e req s = Inr ()"
    and "get_rig (ae_db e) (as_sellers s) (oq_worker req) = Some g"
  shows "g_rentable g \<and> (g_max_rental_secs g > 0 \<longrightarrow>
     oq_until_ms req > 0 \<and> oq_until_ms req - ae_clk e 1 \<le> saturating_mul (g_max_rental_secs g) 1000)"
  using assms by (auto simp: rig_check_def Let_def split: if_splits)

lemma create_orderD:
  assumes "create_order e req s = (Inr j, s', rc)"
  obtains t fb o' os' where "create_order_check e req s = Inr (t, fb)"
    "create (ae_db e) (ae_clk e 3) (oq_worker req) t fb (oq_until_ms req)
       (oq_price_per_th_day req) (oq_budget req) (as_orders s) = (Inr o', os')"
    "s' = s\<lparr>as_orders := os'\<rparr>" "rc = get_all (as_registry s) (oq_worker req)"
  using assms
  by (auto simp: create_order_def create_order_commit_def reject_def Let_def
      split: sum.splits prod.splits create_order_error.splits)


definition demo_req :: order_req where
  "demo_req = \<lparr>oq_worker = ''w1'', oq_url = ''b:1'', oq_user = ''buyer'', oq_pass = ''x'',
     oq_authority = None, oq_fallback_url = [], oq_fallback_user = [], oq_fallback_pass = [],
     oq_fallback_authority = None, oq_until_ms = 2000, oq_price_per_th_day = 1, oq_budget = 5\<rparr>"

lemma demo_url: "normalize_pool_url ''b:1'' = Inr ''b:1''"
proof -
  have "trim ''b:1'' = ''b:1''" by (rule trim_id) (simp add: no_outer_ws_def is_ws_def)
  moreover have "strip_scheme ''b:1'' = ''b:1''" by (simp add: strip_scheme_def tcp_schemes_def)
  ultimately show ?thesis
    by (simp add: normalize_pool_url_def contains_sub.simps starts_with_def rsplit_once_def
        parse_u16_def from_str_radix_def digit_val_def Let_def)
qed

lemma demo_create:
  "\<exists>j s'. create_order demo_env demo_req demo_app = (Inr j, s', [Sv1 7])"
  by (simp add: create_order_def create_order_check_def demo_req_def demo_env_def demo_app_def
      pool_url_def demo_url fallback_url_def trim_def rig_check_def get_rig_def rented_guard_def
      active_for_worker_def order_store_new_def aggregated_status_def get_all_def aggregate_def
      position_def swap_remove_def demo_status_def is_delivering_def Let_def
      create_order_commit_def create_def)


end
