(* ===== verification/Api_Reach.thy ===== *)
theory Api_Reach
  imports Api_Props
begin

text \<open>
  The control plane as a whole: every state reachable by any interleaving of API requests,
  share accounting, flushes, expiry ticks, sampler ticks, connects, disconnects and
  restarts, and what holds in all of them.
\<close>

section \<open>A rented rig is frozen\<close>

lemma rented_guard_blocks:
  "active_for_worker (ae_db e) w (ae_clk e i) (as_orders s) \<noteq> None \<Longrightarrow>
   rented_guard e i w s = Inl (Conflict, Text ''rig is already rented'')"
  by (simp add: rented_guard_def)

lemma default_pool_update_other:
  "w \<noteq> v \<Longrightarrow> default_pool db_up (AList.update v r m) w = default_pool db_up m w"
  by (simp add: default_pool_def get_rig_def)

lemma set_rentable_keeps_pool:
  "default_pool db_up (snd (set_rentable db v b m)) w = default_pool db_up m w"
  by (cases "v = w") (auto simp: set_rentable_def default_pool_def get_rig_def into_rig_def
      split: option.split)

lemma rig_requests_keep_pool:
  assumes "active_for_worker (ae_db e) w (ae_clk e 0) (as_orders s) \<noteq> None"
  shows "default_pool db_up (as_sellers (fst (snd (set_seller e v q s)))) w = default_pool db_up (as_sellers s) w"
    "default_pool db_up (as_sellers (fst (snd (delete_seller e v s)))) w = default_pool db_up (as_sellers s) w"
  using rented_guard_blocks [OF assms]
  by (cases "v = w"; auto simp: set_seller_def set_rig_def delete_seller_def remove_rig_def default_pool_update_other
      default_pool_def get_rig_def Let_def split: sum.split prod.split)+

text \<open>C23: While a rig has a live rental, no API request changes the pool it idles on or
  removes it, whoever sends it and whatever the other rigs' requests are: the rental can be
  reverted to the pool the seller registered.\<close>

theorem rented_rig_keeps_pool:
  assumes "active_for_worker (ae_db e) w (ae_clk e 0) (as_orders s) \<noteq> None"
    and "router e hdr req s = (res, s', rc)"
  shows "default_pool db_up (as_sellers s') w = default_pool db_up (as_sellers s) w"
proof -
  have "default_pool db_up (as_sellers (fst (snd (dispatch e req s)))) w =
      default_pool db_up (as_sellers s) w"
  proof (cases req)
  case (SetRentable v b)
    have "as_sellers (fst (snd (dispatch e req s))) = snd (set_rentable (ae_db e) v b (as_sellers s))"
      by (simp add: SetRentable set_rentable_req_def reject_def split: sum.split prod.split)
    then show ?thesis by (simp add: set_rentable_keeps_pool)
  next
    case (CreateOrder r)
    then show ?thesis
      by (simp add: create_order_def create_order_commit_def reject_def Let_def
          split: sum.split prod.split create_order_error.split)
  next
    case (CancelOrder i)
    then show ?thesis
      by (simp add: cancel_order_def reject_def Let_def split: prod.split option.split)
  qed (simp_all add: rig_requests_keep_pool [OF assms(1)])
  with assms(2) show ?thesis by (auto simp: router_def split: if_splits sum.splits)
qed

section \<open>Competing requests\<close>

lemma create_blocked:
  assumes "r \<in> set (os_rows s)" "row_active r" "r_worker r = w"
  shows "\<exists>err s'. create db now w t fb until p b s = (Inl err, s')"
  using assms by (auto simp: create_def Let_def list_ex_iff)

lemma commit_Inr:
  assumes "create_order_commit e r t f s = (Inr j, s1, rc)"
  shows "\<exists>o'. create (ae_db e) (ae_clk e 3) (oq_worker r) t f (oq_until_ms r)
      (oq_price_per_th_day r) (oq_budget r) (as_orders s) = (Inr o', as_orders s1)"
proof -
  obtain res os where c: "create (ae_db e) (ae_clk e 3) (oq_worker r) t f (oq_until_ms r)
      (oq_price_per_th_day r) (oq_budget r) (as_orders s) = (res, os)"
    by (cases "create (ae_db e) (ae_clk e 3) (oq_worker r) t f (oq_until_ms r)
      (oq_price_per_th_day r) (oq_budget r) (as_orders s)")
  show ?thesis
  proof (cases res)
    case (Inl err)
    with assms c show ?thesis by (cases err) (simp_all add: create_order_commit_def reject_def)
  next
    case (Inr o')
    with assms c have "as_orders s1 = os" by (auto simp: create_order_commit_def Let_def)
    with c Inr show ?thesis by simp
  qed
qed

lemma commit_Inl:
  assumes "create (ae_db e) (ae_clk e 3) (oq_worker r) t f (oq_until_ms r)
      (oq_price_per_th_day r) (oq_budget r) (as_orders s) = (Inl err, os)"
  shows "\<exists>err s2. create_order_commit e r t f s = (Inl err, s2, [])"
  by (cases err) (simp_all add: create_order_commit_def reject_def assms)

text \<open>C25: Of two rental requests for one rig that both passed every check, at most one is
  committed; the loser gets an error and reconnects nobody.\<close>

theorem create_order_race:
  assumes "create_order_commit e1 r1 t1 f1 s = (Inr j, s1, rc1)"
    and "oq_worker r2 = oq_worker r1"
  shows "\<exists>err s2. create_order_commit e2 r2 t2 f2 s1 = (Inl err, s2, [])"
proof -
  from commit_Inr [OF assms(1)] obtain o' where c: "create (ae_db e1) (ae_clk e1 3) (oq_worker r1)
      t1 f1 (oq_until_ms r1) (oq_price_per_th_day r1) (oq_budget r1) (as_orders s)
      = (Inr o', as_orders s1)"
    by blast
  from create_Inr(3) [OF c] obtain r where r: "os_rows (as_orders s1) = os_rows (as_orders s) @ [r]"
      "row_active r" "r_worker r = oq_worker r1"
    by blast
  then have "r \<in> set (os_rows (as_orders s1))" "r_worker r = oq_worker r2"
    using assms(2) by simp_all
  from create_blocked [OF this(1) r(2) this(2)] obtain err os2 where
    "create (ae_db e2) (ae_clk e2 3) (oq_worker r2) t2 f2 (oq_until_ms r2)
      (oq_price_per_th_day r2) (oq_budget r2) (as_orders s1) = (Inl err, os2)"
    by blast
  then show ?thesis by (rule commit_Inl)
qed

section \<open>Every reachable state\<close>

inductive api_reach :: "app_state \<Rightarrow> bool" where
  boot: "api_reach \<lparr>as_registry = registry_new, as_sellers = [],
     as_orders = order_store_new [] seq, as_hashrate = [], as_token = tok\<rparr>"
| request: "api_reach s \<Longrightarrow> (\<And>i. 0 \<le> ae_clk e i) \<Longrightarrow>
     api_reach (fst (snd (router e hdr req s)))"
| race: "api_reach s \<Longrightarrow> create_order_check e req s0 = Inr (t, fb) \<Longrightarrow> (\<And>i. 0 \<le> ae_clk e i) \<Longrightarrow>
     api_reach (fst (snd (create_order_commit e req t fb s)))"
| account: "api_reach s \<Longrightarrow> api_reach (s\<lparr>as_orders := os.acct_step ev (as_orders s)\<rparr>)"
| expiry: "api_reach s \<Longrightarrow>
     api_reach (s\<lparr>as_orders := fst (expiry_tick db now (as_registry s) (as_orders s))\<rparr>)"
| sampler: "api_reach s \<Longrightarrow> api_reach (s\<lparr>as_hashrate :=
     sampler_tick db st (as_registry s) (as_sellers s) now (as_hashrate s)\<rparr>)"
| connection: "api_reach s \<Longrightarrow> api_reach (s\<lparr>as_registry := reg.conn_step ev (as_registry s)\<rparr>)"
| restart: "api_reach s \<Longrightarrow> api_reach (s\<lparr>as_registry := registry_new,
     as_orders := order_store_new (os_rows (as_orders s)) seq\<rparr>)"

definition deadlines_ok :: "order_store \<Rightarrow> bool" where
  "deadlines_ok s \<longleftrightarrow> (\<forall>r\<in>set (os_rows s). 0 \<le> r_until_ms r)"

definition app_inv :: "app_state \<Rightarrow> bool" where
  "app_inv s \<longleftrightarrow> store_inv (as_orders s) \<and> deadlines_ok (as_orders s)
     \<and> registry_inv (as_registry s) \<and> al_keys_distinct (as_hashrate s)"

lemma flush_loop_untils: "map r_until_ms (flush_loop db ds rows) = map r_until_ms rows"
  by (induction db ds rows rule: flush_loop.induct) (auto simp: comp_def apply_delta_def)

lemma deadlines_map:
  "map r_until_ms (os_rows s') = map r_until_ms (os_rows s) \<Longrightarrow> deadlines_ok s' = deadlines_ok s"
proof -
  assume "map r_until_ms (os_rows s') = map r_until_ms (os_rows s)"
  then have "r_until_ms ` set (os_rows s') = r_until_ms ` set (os_rows s)"
    by (metis list.set_map)
  then have "(\<forall>u\<in>r_until_ms ` set (os_rows s'). 0 \<le> u) = (\<forall>u\<in>r_until_ms ` set (os_rows s). 0 \<le> u)"
    by (simp only:)
  then show ?thesis by (simp add: deadlines_ok_def)
qed

lemma deadlines_flush [simp]: "deadlines_ok (flush db s) = deadlines_ok s"
  by (rule deadlines_map) (simp add: flush_def flush_loop_untils)

lemma deadlines_cancel [simp]: "deadlines_ok (snd (cancel db now oid s)) = deadlines_ok s"
  by (rule deadlines_map)
    (auto simp: cancel_def set_status_def comp_def split: option.split if_splits)

lemma deadlines_expire [simp]: "deadlines_ok (snd (take_expired db now s)) = deadlines_ok s"
  by (rule deadlines_map) (auto simp: take_expired_eq Let_def row_expire_def comp_def)

lemma deadlines_add:
  "deadlines_ok (add_work i w n s) = deadlines_ok s"
  "deadlines_ok (add_submitted i n s) = deadlines_ok s"
  by (simp_all add: deadlines_ok_def add_work_def add_submitted_def Let_def)

lemma deadlines_acct [simp]: "deadlines_ok (os.acct_step ev s) = deadlines_ok s"
  by (cases ev) (simp_all add: deadlines_add)

lemma deadlines_create:
  assumes "deadlines_ok s" "0 \<le> until"
  shows "deadlines_ok (snd (create db now w t fb until p b s))"
  using assms by (auto simp: create_def Let_def deadlines_ok_def)

lemma commit_inv:
  assumes "app_inv s" "0 \<le> oq_until_ms req"
  shows "app_inv (fst (snd (create_order_commit e req t fb s)))"
proof -
  let ?c = "create (ae_db e) (ae_clk e 3) (oq_worker req) t fb (oq_until_ms req)
      (oq_price_per_th_day req) (oq_budget req) (as_orders s)"
  have "fst (snd (create_order_commit e req t fb s)) = s\<lparr>as_orders := snd ?c\<rparr>"
    by (simp add: create_order_commit_def reject_def Let_def
        split: prod.split sum.split create_order_error.split)
  with assms show ?thesis
    by (simp add: app_inv_def create_inv deadlines_create)
qed

lemma check_until:
  assumes "create_order_check e req s0 = Inr (t, fb)" "\<And>i. 0 \<le> ae_clk e i"
  shows "0 \<le> oq_until_ms req"
  using create_order_checkD(3) [OF assms(1)] assms(2) [of 0] by auto

lemma app_inv_orders:
  "app_inv s \<Longrightarrow> store_inv os \<Longrightarrow> deadlines_ok os \<Longrightarrow> app_inv (s\<lparr>as_orders := os\<rparr>)"
  by (simp add: app_inv_def)

lemma app_inv_sellers: "app_inv (s\<lparr>as_sellers := x\<rparr>) = app_inv s"
  by (simp add: app_inv_def)

lemma dispatch_inv:
  assumes inv: "app_inv s" and clk: "\<And>i. 0 \<le> ae_clk e i"
  shows "app_inv (fst (snd (dispatch e req s)))"
proof (cases req)
  case (SetSeller v q)
  then show ?thesis using inv
    by (simp add: set_seller_def Let_def app_inv_sellers split: sum.split prod.split)
next
  case (DeleteSeller v)
  then show ?thesis using inv
    by (simp add: delete_seller_def app_inv_sellers split: sum.split prod.split)
next
  case (SetRentable v b)
  then show ?thesis using inv
    by (simp add: set_rentable_req_def reject_def app_inv_sellers split: sum.split prod.split)
next
  case (CreateOrder r)
  then show ?thesis using inv commit_inv check_until [OF _ clk]
    by (auto simp: create_order_def split: sum.split)
next
  case (CancelOrder i)
  have "fst (snd (dispatch e req s)) =
      s\<lparr>as_orders := snd (cancel (ae_db e) (ae_clk e 0) i (as_orders s))\<rparr>"
    by (simp add: CancelOrder cancel_order_def reject_def Let_def split: prod.split option.split)
  with inv show ?thesis by (simp add: app_inv_def cancel_inv)
qed (use inv in simp_all)

lemma acct_step_store_inv: "store_inv s \<Longrightarrow> store_inv (os.acct_step ev s)"
  by (rule os.acct_step_inv)

lemma api_reach_inv: "api_reach s \<Longrightarrow> app_inv s"
proof (induction rule: api_reach.induct)
  case (boot seq tok)
  show ?case
    by (simp add: app_inv_def store_inv_new registry_inv_new)
      (simp add: deadlines_ok_def order_store_new_def)
next
  case (request s e hdr req)
  then show ?case using dispatch_inv [of s e req]
    by (auto simp: router_def split: sum.split)
next
  case (race s e req s0 t fb)
  then show ?case using commit_inv check_until by blast
next
  case (account s ev)
  then show ?case by (simp add: app_inv_def acct_step_store_inv)
next
  case (expiry s db now)
  then show ?case
    by (simp add: app_inv_def expiry_tick_def split_def Let_def take_expired_inv store_inv_flush)
next
  case (sampler s db st now)
  then show ?case by (simp add: app_inv_def sampler_tick_distinct)
next
  case (connection s ev)
  have "registry_inv (reg.conn_step ev (as_registry s))"
    using connection.IH by (cases ev)
      (auto simp: app_inv_def registry_inv_insert registry_inv_remove)
  with connection.IH show ?case by (simp add: app_inv_def)
next
  case (restart s seq)
  then show ?case
    by (simp add: app_inv_def store_inv_restart registry_inv_new)
      (simp add: deadlines_ok_def order_store_new_def)
qed

text \<open>C26: The expiry task is complete in every reachable state. After a tick every order
  still active is live, and each miner of a rig whose order had finished is dropped, so that
  it comes back to its idle pool.\<close>

theorem expiry_tick_complete:
  assumes "api_reach s"
    and "expiry_tick db_up now (as_registry s) (as_orders s) = (os', rc)"
  shows "(\<forall>o'\<in>set (list_orders db_up os'). o_status o' = Active \<longrightarrow> is_live now o')
    \<and> (\<forall>o'\<in>set (list_orders db_up (flush db_up (as_orders s))).
         o_status o' = Active \<and> \<not> is_live now o' \<longrightarrow>
         set (get_all (as_registry s) (o_worker o')) \<subseteq> set rc)"
proof -
  let ?f = "flush db_up (as_orders s)"
  obtain fin where te: "take_expired db_up now ?f = (fin, os')"
    and rc: "rc = concat (map (\<lambda>o'. get_all (as_registry s) (o_worker o')) fin)"
    using assms(2) by (auto simp: expiry_tick_def split: prod.splits)
  have inv: "store_inv ?f" "deadlines_ok ?f"
    using api_reach_inv [OF assms(1)] by (simp_all add: app_inv_def store_inv_flush)
  note ex = take_expired_exact [OF inv(2) [unfolded deadlines_ok_def] inv(1) te]
  have "set (get_all (as_registry s) (o_worker o')) \<subseteq> set rc"
    if "o' \<in> set (list_orders db_up ?f)" "o_status o' = Active" "\<not> is_live now o'" for o'
  proof -
    from that ex have m: "o'\<lparr>o_status := Ended, o_ended_ms := now\<rparr> \<in> set fin" by blast
    show ?thesis unfolding rc by (auto intro!: bexI [OF _ m])
  qed
  with ex show ?thesis by blast
qed

definition demo_rented :: app_state where
  "demo_rented = fst (snd (router demo_env (Some ''Bearer s3cret'') (CreateOrder demo_req)
     \<lparr>as_registry = reg.conn_step (Joined ''w1'' (Sv1 7)) registry_new, as_sellers = [],
       as_orders = order_store_new [] 0, as_hashrate = [], as_token = ''s3cret''\<rparr>))"

lemma demo_boot: "api_reach \<lparr>as_registry = reg.conn_step (Joined ''w1'' (Sv1 7)) registry_new,
    as_sellers = [], as_orders = order_store_new [] 0, as_hashrate = [], as_token = ''s3cret''\<rparr>"
  using api_reach.connection [OF api_reach.boot [of 0 "''s3cret''"], of "Joined ''w1'' (Sv1 7)"]
  by simp

lemma demo_rented_reach: "api_reach demo_rented"
  unfolding demo_rented_def by (rule api_reach.request [OF demo_boot]) (simp add: demo_env_def)

lemma demo_rented_eq: "demo_rented = fst (snd (create_order demo_env demo_req demo_app))"
proof -
  have t: "trim ''s3cret'' = ''s3cret''" by (rule trim_id) (simp add: no_outer_ws_def is_ws_def)
  have a: "\<lparr>as_registry = reg.conn_step (Joined ''w1'' (Sv1 7)) registry_new,
    as_sellers = [], as_orders = order_store_new [] 0, as_hashrate = [], as_token = ''s3cret''\<rparr> = demo_app"
    by (simp add: demo_app_def insert_session_def registry_new_def)
  have "require_bearer (Some ''Bearer s3cret'') demo_app = Inr ()"
    by (simp add: require_bearer_def strip_prefix_def starts_with_def t ct_eq_def ct_loop_zero
        demo_app_def)
  then show ?thesis unfolding demo_rented_def a by (simp add: router_def)
qed

text \<open>The order of the example, with its deadline of 2000.\<close>

lemma demo_rented_order:
  "\<exists>r. os_rows (as_orders demo_rented) = [r] \<and> row_active r \<and> r_worker r = ''w1'' \<and> r_until_ms r = 2000
     \<and> r_status r = ''active''"
  "get_all (as_registry demo_rented) ''w1'' = [Sv1 7]"
  by (simp_all add: demo_rented_eq create_order_def create_order_check_def demo_req_def demo_env_def
      demo_app_def pool_url_def demo_url fallback_url_def trim_def rig_check_def get_rig_def
      rented_guard_def active_for_worker_def order_store_new_def aggregated_status_def get_all_def
      aggregate_def position_def swap_remove_def demo_status_def is_delivering_def Let_def
      create_order_commit_def create_def row_active_def)

theorem expiry_tick_complete_witness:
  "set (get_all (as_registry demo_rented) ''w1'')
     \<subseteq> set (snd (expiry_tick db_up 3000 (as_registry demo_rented) (as_orders demo_rented)))"
proof -
  let ?os = "as_orders demo_rented"
  obtain r where r: "os_rows ?os = [r]" "r_worker r = ''w1''" "r_until_ms r = 2000" "r_status r = ''active''"
    using demo_rented_order(1) by blast
  let ?r = "row_flush db_up (os_pending ?os) r"
  have "os_rows (flush db_up ?os) = [?r]"
    using flush_rows [of ?os db_up] r(1) store_invD(4) api_reach_inv [OF demo_rented_reach]
    by (simp add: app_inv_def)
  then have mem: "into_order ?r \<in> set (list_orders db_up (flush db_up ?os))"
    by (simp add: list_orders_def)
  have st: "o_status (into_order ?r) = Active" "\<not> is_live 3000 (into_order ?r)"
    "o_worker (into_order ?r) = ''w1''"
    using r by (simp_all add: is_live_def row_flush_def apply_delta_def split: option.split)
  obtain os' rc where e: "expiry_tick db_up 3000 (as_registry demo_rented) ?os = (os', rc)"
    by fastforce
  have "set (get_all (as_registry demo_rented) (o_worker (into_order ?r))) \<subseteq> set rc"
    using expiry_tick_complete [OF demo_rented_reach e, THEN conjunct2, rule_format, OF mem] st(1,2)
    by blast
  then show ?thesis unfolding e st(3) by simp
qed

theorem rented_rig_keeps_pool_witness:
  "default_pool db_up (as_sellers (fst (snd (router demo_env (Some ''Bearer s3cret'')
     (DeleteSeller ''w1'') demo_rented)))) ''w1'' = default_pool db_up (as_sellers demo_rented) ''w1''"
proof -
  obtain r where r: "os_rows (as_orders demo_rented) = [r]" "row_active r" "r_worker r = ''w1''"
      "r_until_ms r = 2000" "r_status r = ''active''"
    using demo_rented_order(1) by blast
  have "r_delivered_work r = 0"
    using r(1) by (auto simp: demo_rented_eq create_order_def create_order_check_def demo_req_def
      demo_env_def demo_app_def pool_url_def demo_url fallback_url_def trim_def rig_check_def
      get_rig_def rented_guard_def active_for_worker_def order_store_new_def aggregated_status_def
      get_all_def aggregate_def position_def swap_remove_def demo_status_def is_delivering_def Let_def
      create_order_commit_def create_def row_active_def)
  with r have "active_for_worker (ae_db demo_env) ''w1'' (ae_clk demo_env 0) (as_orders demo_rented) \<noteq> None"
    by (simp add: active_for_worker_def demo_env_def funding_exhausted_def cost_def)
  moreover obtain res s' rc where
    "router demo_env (Some ''Bearer s3cret'') (DeleteSeller ''w1'') demo_rented = (res, s', rc)"
    by (metis prod.collapse)
  ultimately show ?thesis using rented_rig_keeps_pool by simp
qed

theorem create_order_race_witness:
  "\<exists>t err s2. create_order_commit demo_env demo_req t None demo_rented = (Inl err, s2, [])"
proof -
  obtain j s' where c: "create_order demo_env demo_req demo_app = (Inr j, s', [Sv1 7])"
    using demo_create by blast
  then obtain t fb where "create_order_commit demo_env demo_req t fb demo_app = (Inr j, s', [Sv1 7])"
    by (auto simp: create_order_def split: sum.splits)
  from create_order_race [OF this refl, of demo_env t None] c show ?thesis
    by (auto simp: demo_rented_eq)
qed

end
