(* ===== verification/Sv2_Types.thy ===== *)
theory Sv2_Types
  imports Json
begin

text \<open>
  The typed messages of the two Stratum versions as the relays read and build them, and
  the functions of the Stratum libraries the relays call on them (parsing a payload,
  serializing a line, the two conversions the translation library provides). The messages
  and functions are the libraries'; the relays only use the fields below. The functions are
  a parameter of the model, the record \<open>lib\<close>.
\<close>

type_synonym bytes = "u8 list"
type_synonym f32 = rat

text \<open>A \<open>f64\<close> where the code asks whether it is finite.\<close>

datatype xf64 = Finite (finite_part: f64) | PosInf | NegInf | NaN

definition is_finite :: "xf64 \<Rightarrow> bool" where
  "is_finite d \<longleftrightarrow> (case d of Finite x \<Rightarrow> True | _ \<Rightarrow> False)"

text \<open>The comparisons are those of IEEE 754: nothing compares with a NaN.\<close>

instantiation xf64 :: "{zero, ord}"
begin

definition zero_xf64 :: xf64 where
  "zero_xf64 = Finite 0"

fun less_eq_xf64 :: "xf64 \<Rightarrow> xf64 \<Rightarrow> bool" where
  "less_eq_xf64 NaN y = False"
| "less_eq_xf64 x NaN = False"
| "less_eq_xf64 NegInf y = True"
| "less_eq_xf64 x PosInf = True"
| "less_eq_xf64 (Finite a) (Finite b) = (a \<le> b)"
| "less_eq_xf64 x y = False"

definition less_xf64 :: "xf64 \<Rightarrow> xf64 \<Rightarrow> bool" where
  "less_xf64 x y = (x \<le> y \<and> \<not> y \<le> x)"

instance ..

end

lemma is_finite_simps [simp]:
  "is_finite (Finite x)" "\<not> is_finite PosInf" "\<not> is_finite NegInf" "\<not> is_finite NaN"
  by (simp_all add: is_finite_def)

lemma finite_le_zero [simp]: "Finite x \<le> 0 \<longleftrightarrow> x \<le> 0" "0 < Finite x \<longleftrightarrow> 0 < x"
  by (auto simp: zero_xf64_def less_xf64_def)

section \<open>Stratum V1\<close>

record sv1_notify =
  n_job_id :: string
  n_prev_hash :: bytes
  n_coin_base1 :: bytes
  n_coin_base2 :: bytes
  n_merkle_branch :: "bytes list"
  n_version :: u32
  n_bits :: u32
  n_time :: u32
  n_clean_jobs :: bool

record sv1_submit =
  s_user_name :: string
  s_job_id :: string
  s_extra_nonce2 :: bytes
  s_time :: u32
  s_nonce :: u32
  s_version_bits :: "u32 option"
  s_id :: u64

section \<open>Stratum V2\<close>

record ext_job =
  ej_channel_id :: u32
  ej_job_id :: u32
  ej_min_ntime :: "u32 option"
  ej_version :: u32
  ej_version_rolling_allowed :: bool
  ej_merkle_path :: "bytes list"
  ej_coinbase_tx_prefix :: bytes
  ej_coinbase_tx_suffix :: bytes

record std_job =
  sj_channel_id :: u32
  sj_job_id :: u32
  sj_min_ntime :: "u32 option"
  sj_version :: u32
  sj_merkle_root :: bytes

record prev_hash_msg =
  ph_channel_id :: u32
  ph_job_id :: u32
  ph_prev_hash :: bytes
  ph_min_ntime :: u32
  ph_nbits :: u32

record submit_ext =
  xs_channel_id :: u32
  xs_sequence_number :: u32
  xs_job_id :: u32
  xs_nonce :: u32
  xs_ntime :: u32
  xs_version :: u32
  xs_extranonce :: bytes

record submit_std =
  ss_channel_id :: u32
  ss_sequence_number :: u32
  ss_job_id :: u32
  ss_nonce :: u32
  ss_ntime :: u32
  ss_version :: u32

text \<open>Constructor arguments in the order of the message's fields.\<close>

datatype sv2_msg =
    SetupConnection u16 u16 u32 string
  | SetupConnectionSuccess u16 u32
  | OpenStandardMiningChannel u32 string f32 bytes
  | OpenExtendedMiningChannel u32 string f32 bytes u16
  | OpenStandardMiningChannelSuccess u32 u32 bytes bytes u32
  | OpenExtendedMiningChannelSuccess u32 u32 bytes u16 bytes u32
  | OpenMiningChannelError u32 string
  | NewMiningJob std_job
  | NewExtendedMiningJob ext_job
  | SetNewPrevHash prev_hash_msg
  | SetExtranoncePrefix u32 bytes
  | SetTarget u32 bytes
  | SubmitSharesExtended submit_ext
  | SubmitSharesStandard submit_std
  | SubmitSharesSuccess u32 u32 u32 u64
  | SubmitSharesError u32 u32 string
  | CloseChannel u32 string
  | OtherMessage

text \<open>The message type of a frame header.\<close>

datatype mtype =
    MtSetupConnection | MtSetupConnectionSuccess | MtSetupConnectionError
  | MtOpenStandardMiningChannel | MtOpenStandardMiningChannelSuccess
  | MtOpenExtendedMiningChannel | MtOpenExtendedMiningChannelSuccess
  | MtOpenMiningChannelError | MtNewMiningJob | MtNewExtendedMiningJob
  | MtSetNewPrevHash | MtSetExtranoncePrefix | MtSetTarget
  | MtSubmitSharesStandard | MtSubmitSharesExtended
  | MtSubmitSharesSuccess | MtSubmitSharesError
  | MtUpdateChannel | MtUpdateChannelError | MtCloseChannel | MtOther u8

section \<open>The libraries\<close>

text \<open>
  \<open>dec\<close> parses a payload by its message type; \<open>notification\<close> is the method and the
  parameters of a JSON-RPC notification; \<open>notify_of\<close>, \<open>difficulty_of\<close>,
  \<open>submit_of\<close> parse parameters; the \<open>_line\<close> functions serialize; \<open>build_notify\<close> and
  \<open>build_submit\<close> are the two conversions of the translation library;
  \<open>difficulty_float\<close> is a target's share difficulty when it is finite; \<open>merkle_root\<close> folds
  a coinbase and a path.
\<close>

record lib =
  l_dec :: "mtype \<Rightarrow> bytes \<Rightarrow> sv2_msg option"
  l_notification :: "json \<Rightarrow> (string \<times> json) option"
  l_notify_of :: "json \<Rightarrow> sv1_notify option"
  l_difficulty_of :: "json \<Rightarrow> xf64 option"
  l_submit_of :: "u64 \<Rightarrow> json \<Rightarrow> sv1_submit option"
  l_notify_line :: "sv1_notify \<Rightarrow> line"
  l_set_difficulty_line :: "xf64 \<Rightarrow> line"
  l_submit_line :: "sv1_submit \<Rightarrow> line"
  l_build_notify :: "prev_hash_msg \<Rightarrow> ext_job \<Rightarrow> bool \<Rightarrow> sv1_notify option"
  l_build_submit :: "sv1_submit \<Rightarrow> u32 \<Rightarrow> u32 \<Rightarrow> u32 \<Rightarrow> u32 option \<Rightarrow> submit_ext option"
  l_difficulty_float :: "nat \<Rightarrow> f64 option"
  l_merkle_root :: "bytes \<Rightarrow> bytes \<Rightarrow> bytes \<Rightarrow> bytes list \<Rightarrow> bytes option"
  l_from_hex :: "string \<Rightarrow> bytes option"

text \<open>The length limits of the SV2 wire types.\<close>

definition fits_str0255 :: "string \<Rightarrow> bool" where
  "fits_str0255 s = (length s \<le> 255)"

definition fits_u256 :: "bytes \<Rightarrow> bool" where
  "fits_u256 b = (length b = 32)"

definition fits_b032 :: "bytes \<Rightarrow> bool" where
  "fits_b032 b = (length b \<le> 32)"

definition fits_b064k :: "bytes \<Rightarrow> bool" where
  "fits_b064k b = (length b \<le> 65535)"

section \<open>Little-endian bytes\<close>

fun le_nat :: "bytes \<Rightarrow> nat" where
  "le_nat [] = 0"
| "le_nat (b # bs) = unat b + 256 * le_nat bs"

fun le_bytes :: "nat \<Rightarrow> nat \<Rightarrow> bytes" where
  "le_bytes 0 v = []"
| "le_bytes (Suc n) v = of_nat (v mod 256) # le_bytes n (v div 256)"

lemma length_le_bytes [simp]: "length (le_bytes n v) = n"
  by (induction n arbitrary: v) simp_all

lemma unat_byte [simp]: "unat (of_nat (v mod 256) :: u8) = v mod 256"
  by (simp add: unat_of_nat take_bit_eq_mod)

lemma le_nat_le_bytes: "le_nat (le_bytes n v) = v mod 256 ^ n"
proof (induction n arbitrary: v)
  case 0
  show ?case by simp
next
  case (Suc n)
  have "v mod 256 + 256 * (v div 256 mod 256 ^ n) = v mod (256 * 256 ^ n)"
    by (simp add: mod_mult2_eq)
  with Suc.IH show ?case by simp
qed

lemma le_bytes_le_nat: "le_bytes (length bs) (le_nat bs) = bs"
proof (induction bs)
  case Nil
  show ?case by simp
next
  case (Cons b bs)
  have b: "unat b < 256"
    by (rule less_le_trans [OF unsigned_less]) simp
  then have "(unat b + 256 * le_nat bs) mod 256 = unat b" "(unat b + 256 * le_nat bs) div 256 = le_nat bs"
    by simp_all
  with Cons.IH show ?case by (simp only: le_nat.simps length_Cons le_bytes.simps) simp
qed

lemma le_nat_bound: "le_nat bs < 256 ^ length bs"
proof -
  have "le_nat bs = le_nat bs mod 256 ^ length bs"
    using le_nat_le_bytes [of "length bs" "le_nat bs"] by (simp add: le_bytes_le_nat)
  then show ?thesis by (metis mod_less_divisor zero_less_numeral zero_less_power)
qed

end
