(* ===== verification/Translate.thy ===== *)
theory Translate
  imports Sv2_Types
begin

text \<open>
  \<open>src/proto/translate.rs\<close>: share difficulty and target, and the conversions between
  Stratum V1 and V2 jobs and shares.
\<close>

definition version_rolling_mask :: u32 where
  "version_rolling_mask = 0x1fffe000"

section \<open>Difficulty and target\<close>

definition difficulty_from_target :: "lib \<Rightarrow> bytes \<Rightarrow> f64" where
  "difficulty_from_target l target =
     (if length target \<noteq> 32 then 0
      else case l_difficulty_float l (le_nat target) of Some d \<Rightarrow> d | None \<Rightarrow> 0)"

text \<open>The difficulty-1 target \<open>0x00000000FFFF0000...0000\<close>.\<close>

definition diff1_target :: nat where
  "diff1_target = 0xFFFF * 2 ^ 208"

definition target_scale :: nat where
  "target_scale = 2 ^ 16"

definition max_target_bytes :: bytes where
  "max_target_bytes = replicate 32 0xff"

text \<open>Rounding is half away from zero; the cast of the denominator to 128 bits saturates.\<close>

definition target_from_difficulty :: "xf64 \<Rightarrow> bytes" where
  "target_from_difficulty difficulty =
     (if \<not> is_finite difficulty \<or> difficulty \<le> 0 then max_target_bytes
      else let denom = \<lfloor>finite_part difficulty * of_nat target_scale + 1/2\<rfloor>
           in if denom < 1 then max_target_bytes
              else le_bytes 32 (diff1_target * target_scale div (nat (min denom (2 ^ 128 - 1)))))"

section \<open>SV2 to SV1\<close>

definition sv2_job_to_sv1_notify :: "lib \<Rightarrow> prev_hash_msg \<Rightarrow> ext_job \<Rightarrow> bool \<Rightarrow> sv1_notify option" where
  "sv2_job_to_sv1_notify l prev job clean = l_build_notify l prev job clean"

definition notify_to_line :: "lib \<Rightarrow> sv1_notify \<Rightarrow> line" where
  "notify_to_line l n = l_notify_line l n"

definition set_difficulty_to_line :: "lib \<Rightarrow> xf64 \<Rightarrow> line" where
  "set_difficulty_to_line l d = l_set_difficulty_line l d"

section \<open>SV1 to SV2\<close>

definition notify_from_line :: "lib \<Rightarrow> line \<Rightarrow> sv1_notify option" where
  "notify_from_line l wl = (case wl of
       Json j \<Rightarrow> (case l_notification l j of
           Some (meth, params) \<Rightarrow> if meth \<noteq> ''mining.notify'' then None else l_notify_of l params
         | None \<Rightarrow> None)
     | _ \<Rightarrow> None)"

definition set_difficulty_from_line :: "lib \<Rightarrow> line \<Rightarrow> xf64 option" where
  "set_difficulty_from_line l wl = (case wl of
       Json j \<Rightarrow> (case l_notification l j of
           Some (meth, params) \<Rightarrow>
             if meth \<noteq> ''mining.set_difficulty'' then None else l_difficulty_of l params
         | None \<Rightarrow> None)
     | _ \<Rightarrow> None)"

datatype trans_error =
    MerklePathTooLong | CoinbasePrefixTooLong | CoinbaseSuffixTooLong
  | NotATransaction | BadMerkleRoot | BadExtranonce

definition activating_prev_hash :: "sv1_notify \<Rightarrow> u32 \<Rightarrow> u32 \<Rightarrow> bool \<Rightarrow> prev_hash_msg option" where
  "activating_prev_hash n channel_id job_id as_future =
     (if as_future then Some \<lparr>ph_channel_id = channel_id, ph_job_id = job_id,
        ph_prev_hash = n_prev_hash n, ph_min_ntime = n_time n, ph_nbits = n_bits n\<rparr> else None)"

definition sv1_notify_to_sv2_job :: "sv1_notify \<Rightarrow> u32 \<Rightarrow> u32 \<Rightarrow> bool \<Rightarrow> bool
    \<Rightarrow> trans_error + ext_job \<times> prev_hash_msg option" where
  "sv1_notify_to_sv2_job n channel_id job_id as_future rolling =
     (if length (n_merkle_branch n) > 255 then Inl MerklePathTooLong
      else if \<not> fits_b064k (n_coin_base1 n) then Inl CoinbasePrefixTooLong
      else if \<not> fits_b064k (n_coin_base2 n) then Inl CoinbaseSuffixTooLong
      else Inr (\<lparr>ej_channel_id = channel_id, ej_job_id = job_id,
             ej_min_ntime = (if as_future then None else Some (n_time n)),
             ej_version = n_version n, ej_version_rolling_allowed = rolling,
             ej_merkle_path = n_merkle_branch n,
             ej_coinbase_tx_prefix = n_coin_base1 n, ej_coinbase_tx_suffix = n_coin_base2 n\<rparr>,
           activating_prev_hash n channel_id job_id as_future))"

definition sv1_notify_to_sv2_standard_job :: "lib \<Rightarrow> sv1_notify \<Rightarrow> u32 \<Rightarrow> u32 \<Rightarrow> bytes \<Rightarrow> bytes
    \<Rightarrow> bool \<Rightarrow> trans_error + std_job \<times> prev_hash_msg option" where
  "sv1_notify_to_sv2_standard_job l n channel_id job_id en1 en2 as_future =
     (let full_extranonce = en1 @ en2
      in case l_merkle_root l (n_coin_base1 n) (n_coin_base2 n) full_extranonce (n_merkle_branch n) of
           None \<Rightarrow> Inl NotATransaction
         | Some mroot \<Rightarrow>
             (if \<not> fits_u256 mroot then Inl BadMerkleRoot
              else Inr (\<lparr>sj_channel_id = channel_id, sj_job_id = job_id,
                     sj_min_ntime = (if as_future then None else Some (n_time n)),
                     sj_version = n_version n, sj_merkle_root = mroot\<rparr>,
                   activating_prev_hash n channel_id job_id as_future)))"

definition sv2_standard_submit_to_sv1 :: "submit_std \<Rightarrow> string \<Rightarrow> string \<Rightarrow> bytes \<Rightarrow> u64
    \<Rightarrow> u32 option \<Rightarrow> trans_error + sv1_submit" where
  "sv2_standard_submit_to_sv1 sub user job en2 i vmask =
     (if \<not> fits_b032 en2 then Inl BadExtranonce
      else Inr \<lparr>s_user_name = user, s_job_id = job, s_extra_nonce2 = en2,
        s_time = ss_ntime sub, s_nonce = ss_nonce sub,
        s_version_bits = map_option (\<lambda>m. and (ss_version sub) m) vmask, s_id = i\<rparr>)"

definition sv2_submit_to_sv1 :: "submit_ext \<Rightarrow> string \<Rightarrow> string \<Rightarrow> u64 \<Rightarrow> u32 option
    \<Rightarrow> trans_error + sv1_submit" where
  "sv2_submit_to_sv1 sub user job i vmask =
     (if \<not> fits_b032 (xs_extranonce sub) then Inl BadExtranonce
      else Inr \<lparr>s_user_name = user, s_job_id = job, s_extra_nonce2 = xs_extranonce sub,
        s_time = xs_ntime sub, s_nonce = xs_nonce sub,
        s_version_bits = map_option (\<lambda>m. and (xs_version sub) m) vmask, s_id = i\<rparr>)"

definition submit_to_line :: "lib \<Rightarrow> sv1_submit \<Rightarrow> line" where
  "submit_to_line l sub = l_submit_line l sub"

section \<open>Lemmas\<close>

lemma diff1_scale_lt: "diff1_target * target_scale < 256 ^ 32"
  by (simp add: diff1_target_def target_scale_def)

lemma length_target [simp]: "length (target_from_difficulty d) = 32"
  by (simp add: target_from_difficulty_def max_target_bytes_def Let_def)

lemma le_nat_target:
  assumes "0 < d" "1 \<le> \<lfloor>d * of_nat target_scale + 1/2\<rfloor>"
  shows "le_nat (target_from_difficulty (Finite d)) =
     diff1_target * target_scale div nat (min \<lfloor>d * of_nat target_scale + 1/2\<rfloor> (2 ^ 128 - 1))"
proof -
  have "diff1_target * target_scale div k < 256 ^ 32" for k
    using diff1_scale_lt div_le_dividend le_less_trans by blast
  with assms show ?thesis
    by (simp add: target_from_difficulty_def Let_def le_nat_le_bytes)
qed

lemma le_nat_ones: "le_nat (replicate n 0xff) = 256 ^ n - 1"
proof (induction n)
  case 0
  show ?case by simp
next
  case (Suc n)
  have "1 \<le> (256::nat) ^ n" by simp
  moreover have "unat (0xff :: u8) = 255" by simp
  ultimately show ?case using Suc
    by (simp only: replicate_Suc le_nat.simps power_Suc diff_mult_distrib2)
qed

lemma floor_half_nat: "\<lfloor>(of_nat m :: rat) + 1/2\<rfloor> = int m"
  by (rule floor_unique) simp_all

lemma le_nat_max_target: "le_nat max_target_bytes = 256 ^ 32 - 1"
  by (simp add: max_target_bytes_def le_nat_ones)

lemma le_nat_target_le: "le_nat (target_from_difficulty d) \<le> 256 ^ 32 - 1"
  using le_nat_bound [of "target_from_difficulty d"] by simp

lemma target_at_integer:
  assumes "0 < k" "k < 2 ^ 64"
  shows "le_nat (target_from_difficulty (Finite (of_nat k))) = diff1_target div k"
proof -
  have fl: "\<lfloor>(of_nat k :: rat) * of_nat target_scale + 1/2\<rfloor> = int (k * target_scale)"
    by (simp only: of_nat_mult [symmetric] floor_half_nat)
  have "int (k * target_scale) < 2 ^ 128 - 1"
    using assms(2) by (simp add: target_scale_def)
  then have "nat (min (int (k * target_scale)) (2 ^ 128 - 1)) = k * target_scale"
    by (simp add: min_def nat_mult_distrib del: of_nat_mult flip: of_nat_mult)
  moreover have "1 \<le> int (k * target_scale)" using assms(1) by (simp add: target_scale_def)
  ultimately have "le_nat (target_from_difficulty (Finite (of_nat k)))
      = diff1_target * target_scale div (k * target_scale)"
    using le_nat_target [of "of_nat k", unfolded fl] assms(1) by simp
  then show ?thesis by (simp add: target_scale_def)
qed

end
