(* ===== verification/Wire.thy ===== *)
theory Wire
  imports Translate
begin

text \<open>
  \<open>src/proto/sv2/wire.rs\<close> and \<open>src/proto/sv2/relay/codec.rs\<close>: frames, the in-place rewrite
  of a frame's channel id, and the typed builders and parsers of the SV2 relay.
\<close>

section \<open>Frames\<close>

text \<open>A received frame has a header (its message type, when the header is readable) and a
  payload. A frame on its way out is a received frame re-emitted or a typed message built by
  the proxy, serialized by the library when it is written.\<close>

record sv2_frame =
  fr_type :: "mtype option"
  fr_payload :: bytes

datatype transport_frame = Sv2Frame sv2_frame | HandShake

datatype out_frame = Fwd sv2_frame | Built sv2_msg

definition into_sv2 :: "transport_frame \<Rightarrow> sv2_frame option" where
  "into_sv2 f = (case f of Sv2Frame g \<Rightarrow> Some g | HandShake \<Rightarrow> None)"

definition msg_type :: "sv2_frame \<Rightarrow> mtype option" where
  "msg_type f = fr_type f"

definition rewrite_channel_id :: "u32 \<Rightarrow> sv2_frame \<Rightarrow> sv2_frame" where
  "rewrite_channel_id cid f = (if length (fr_payload f) < 4 then f
     else f\<lparr>fr_payload := le_bytes 4 (unat cid) @ drop 4 (fr_payload f)\<rparr>)"

definition read_channel_id :: "sv2_frame \<Rightarrow> u32 option" where
  "read_channel_id f = (if length (fr_payload f) < 4 then None
     else Some (of_nat (le_nat (take 4 (fr_payload f)))))"

definition is_channel_scoped :: "mtype \<Rightarrow> bool" where
  "is_channel_scoped mt = (mt \<in> set [MtNewMiningJob, MtNewExtendedMiningJob, MtSetNewPrevHash,
     MtSetExtranoncePrefix, MtSetTarget, MtSubmitSharesStandard, MtSubmitSharesExtended,
     MtSubmitSharesSuccess, MtSubmitSharesError, MtUpdateChannel, MtUpdateChannelError,
     MtCloseChannel])"

section \<open>Channel opens\<close>

datatype open_spec =
    Standard (spec_request_id: u32) (spec_hash_rate: f32) (spec_max_target: bytes)
  | Extended (spec_request_id: u32) (spec_hash_rate: f32) (spec_max_target: bytes)
      (spec_min_extranonce: u16)

definition request_id :: "open_spec \<Rightarrow> u32" where
  "request_id sp = spec_request_id sp"

fun is_extended :: "open_spec \<Rightarrow> bool" where
  "is_extended (Extended _ _ _ _) = True"
| "is_extended (Standard _ _ _) = False"

record miner_open =
  mo_spec :: open_spec
  mo_worker :: string

record channel_info =
  ci_request_id :: u32
  ci_up_channel_id :: u32
  ci_extranonce_prefix :: bytes
  ci_target :: bytes
  ci_extranonce_size :: u16
  ci_group_channel_id :: u32

section \<open>Builders\<close>

text \<open>A builder fails when a field does not fit its wire type.\<close>

definition sv2_version :: u16 where
  "sv2_version = 2"

definition setup_connection :: out_frame where
  "setup_connection = Built (SetupConnection sv2_version sv2_version 0 ''bp-proxy'')"

definition setup_success :: "u32 \<Rightarrow> out_frame" where
  "setup_success flags = Built (SetupConnectionSuccess sv2_version flags)"

definition open_channel_upstream :: "open_spec \<Rightarrow> string \<Rightarrow> u32 \<Rightarrow> out_frame option" where
  "open_channel_upstream sp account req =
     (if \<not> fits_str0255 account then None
      else case sp of
        Extended _ rate maxt minx \<Rightarrow>
          (if fits_u256 maxt then Some (Built (OpenExtendedMiningChannel req account rate maxt minx))
           else None)
      | Standard _ rate maxt \<Rightarrow>
          (if fits_u256 maxt then Some (Built (OpenStandardMiningChannel req account rate maxt))
           else None))"

definition open_success_downstream :: "open_spec \<Rightarrow> u32 \<Rightarrow> u32 \<Rightarrow> channel_info \<Rightarrow> out_frame option" where
  "open_success_downstream sp down_cid down_group info =
     (if \<not> fits_u256 (ci_target info) then None
      else if \<not> fits_b032 (ci_extranonce_prefix info) then None
      else Some (Built (if is_extended sp
        then OpenExtendedMiningChannelSuccess (request_id sp) down_cid (ci_target info)
               (ci_extranonce_size info) (ci_extranonce_prefix info) down_group
        else OpenStandardMiningChannelSuccess (request_id sp) down_cid (ci_target info)
               (ci_extranonce_prefix info) (ci_group_channel_id info))))"

definition set_extranonce_prefix :: "u32 \<Rightarrow> bytes \<Rightarrow> out_frame option" where
  "set_extranonce_prefix cid prefix =
     (if fits_b032 prefix then Some (Built (SetExtranoncePrefix cid prefix)) else None)"

definition set_target :: "u32 \<Rightarrow> bytes \<Rightarrow> out_frame option" where
  "set_target cid target =
     (if fits_u256 target then Some (Built (SetTarget cid target)) else None)"

definition open_channel_error :: "u32 \<Rightarrow> string \<Rightarrow> out_frame option" where
  "open_channel_error req reason =
     (if fits_str0255 reason then Some (Built (OpenMiningChannelError req reason)) else None)"

definition close_channel_upstream :: "u32 \<Rightarrow> out_frame option" where
  "close_channel_upstream cid =
     (if fits_str0255 ''member disconnected''
      then Some (Built (CloseChannel cid ''member disconnected'')) else None)"

section \<open>Parsers\<close>

definition parse_frame :: "lib \<Rightarrow> sv2_frame \<Rightarrow> sv2_msg option" where
  "parse_frame l f = (case msg_type f of None \<Rightarrow> None | Some mt \<Rightarrow> l_dec l mt (fr_payload f))"

definition parse_miner_open :: "lib \<Rightarrow> sv2_frame \<Rightarrow> miner_open option" where
  "parse_miner_open l f = (case parse_frame l f of
       Some (OpenStandardMiningChannel req user rate maxt) \<Rightarrow>
         Some \<lparr>mo_spec = Standard req rate maxt, mo_worker = user\<rparr>
     | Some (OpenExtendedMiningChannel req user rate maxt minx) \<Rightarrow>
         Some \<lparr>mo_spec = Extended req rate maxt minx, mo_worker = user\<rparr>
     | _ \<Rightarrow> None)"

definition parse_open_success :: "lib \<Rightarrow> sv2_frame \<Rightarrow> channel_info option" where
  "parse_open_success l f = (case parse_frame l f of
       Some (OpenExtendedMiningChannelSuccess req cid target size_ prefix grp) \<Rightarrow>
         Some \<lparr>ci_request_id = req, ci_up_channel_id = cid, ci_extranonce_prefix = prefix,
           ci_target = target, ci_extranonce_size = size_, ci_group_channel_id = grp\<rparr>
     | Some (OpenStandardMiningChannelSuccess req cid target prefix grp) \<Rightarrow>
         Some \<lparr>ci_request_id = req, ci_up_channel_id = cid, ci_extranonce_prefix = prefix,
           ci_target = target, ci_extranonce_size = 0, ci_group_channel_id = grp\<rparr>
     | _ \<Rightarrow> None)"

definition parse_open_error_request_id :: "lib \<Rightarrow> sv2_frame \<Rightarrow> u32 option" where
  "parse_open_error_request_id l f = (case parse_frame l f of
       Some (OpenMiningChannelError req _) \<Rightarrow> Some req | _ \<Rightarrow> None)"

definition parse_setup_success_flags :: "lib \<Rightarrow> sv2_frame \<Rightarrow> u32 option" where
  "parse_setup_success_flags l f = (case parse_frame l f of
       Some (SetupConnectionSuccess _ flags) \<Rightarrow> Some flags | _ \<Rightarrow> None)"

definition parse_accepted_count :: "lib \<Rightarrow> sv2_frame \<Rightarrow> u32 option" where
  "parse_accepted_count l f = (case parse_frame l f of
       Some (SubmitSharesSuccess _ _ count _) \<Rightarrow> Some count | _ \<Rightarrow> None)"

definition parse_submit_success :: "lib \<Rightarrow> sv2_frame \<Rightarrow> (u32 \<times> u32) option" where
  "parse_submit_success l f = (case parse_frame l f of
       Some (SubmitSharesSuccess _ last_seq count _) \<Rightarrow> Some (last_seq, count) | _ \<Rightarrow> None)"

definition parse_set_target :: "lib \<Rightarrow> sv2_frame \<Rightarrow> bytes option" where
  "parse_set_target l f = (case parse_frame l f of
       Some (SetTarget _ target) \<Rightarrow> Some target | _ \<Rightarrow> None)"

definition parse_new_extended_job :: "lib \<Rightarrow> sv2_frame \<Rightarrow> ext_job option" where
  "parse_new_extended_job l f = (case parse_frame l f of
       Some (NewExtendedMiningJob j) \<Rightarrow> Some j | _ \<Rightarrow> None)"

definition parse_set_new_prev_hash :: "lib \<Rightarrow> sv2_frame \<Rightarrow> prev_hash_msg option" where
  "parse_set_new_prev_hash l f = (case parse_frame l f of
       Some (SetNewPrevHash p) \<Rightarrow> Some p | _ \<Rightarrow> None)"

definition parse_submit_error_seq :: "lib \<Rightarrow> sv2_frame \<Rightarrow> u32 option" where
  "parse_submit_error_seq l f = (case parse_frame l f of
       Some (SubmitSharesError _ seq _) \<Rightarrow> Some seq | _ \<Rightarrow> None)"

section \<open>Lemmas\<close>

lemma read_rewrite [simp]:
  "4 \<le> length (fr_payload f) \<Longrightarrow> read_channel_id (rewrite_channel_id cid f) = Some cid"
proof -
  assume len: "4 \<le> length (fr_payload f)"
  have "unat cid < 256 ^ 4" by (rule less_le_trans [OF unsigned_less]) simp
  then have "le_nat (le_bytes 4 (unat cid)) = unat cid"
    by (simp add: le_nat_le_bytes)
  with len show ?thesis by (simp add: read_channel_id_def rewrite_channel_id_def)
qed

lemma rewrite_type [simp]: "fr_type (rewrite_channel_id cid f) = fr_type f"
  by (simp add: rewrite_channel_id_def)

lemma rewrite_length [simp]:
  "length (fr_payload (rewrite_channel_id cid f)) = length (fr_payload f)"
  by (simp add: rewrite_channel_id_def)

lemma rewrite_body [simp]: "drop 4 (fr_payload (rewrite_channel_id cid f)) = drop 4 (fr_payload f)"
  by (simp add: rewrite_channel_id_def)

lemma rewrite_short: "length (fr_payload f) < 4 \<Longrightarrow> rewrite_channel_id cid f = f"
  by (simp add: rewrite_channel_id_def)

lemma rewrite_read:
  assumes "read_channel_id f = Some cid"
  shows "rewrite_channel_id cid f = f"
proof -
  from assms have len: "4 \<le> length (fr_payload f)"
    and cid: "cid = of_nat (le_nat (take 4 (fr_payload f)))"
    by (auto simp: read_channel_id_def split: if_splits)
  have "le_nat (take 4 (fr_payload f)) < 2 ^ 32"
    using le_nat_bound [of "take 4 (fr_payload f)"] len by simp
  then have "unat cid = le_nat (take 4 (fr_payload f))"
    by (simp add: cid unat_of_nat take_bit_eq_mod)
  moreover have "length (take 4 (fr_payload f)) = 4" using len by simp
  ultimately have "le_bytes 4 (unat cid) = take 4 (fr_payload f)"
    using le_bytes_le_nat [of "take 4 (fr_payload f)"] by simp
  with len show ?thesis by (simp add: rewrite_channel_id_def)
qed

lemma rewrite_rewrite [simp]:
  "rewrite_channel_id c (rewrite_channel_id d f) = rewrite_channel_id c f"
  by (simp add: rewrite_channel_id_def)

end
