(* ===== verification/Upstream.thy ===== *)
theory Upstream
  imports Wire Session_Model
begin

text \<open>
  The client side of both protocols, up to the point where a pool connection is ready:
  the SV1 handshakes (\<open>src/proto/relay.rs\<close>, \<open>src/proto/sv2/relay.rs\<close>), the SV2 setup, the
  protocol probe and the synchronous channel open. A pool is what it sends: the model reads
  the lines or frames a connection delivers from the record \<open>net\<close>, and a read past their
  end is a closed connection.
\<close>

section \<open>The network\<close>

text \<open>
  For an address: whether a TCP connect succeeds (and within the probe window), the lines
  or frames the pool sends, whether the Noise handshake succeeds, whether the \<open>i\<close>-th write
  of a connection succeeds, and whether each protocol's setup ends within the probe window.
\<close>

record net =
  nt_tcp :: "string \<Rightarrow> bool"
  nt_tcp_in_time :: "string \<Rightarrow> bool"
  nt_lines :: "string \<Rightarrow> line list"
  nt_frames :: "string \<Rightarrow> transport_frame list"
  nt_noise :: "string \<Rightarrow> bool"
  nt_authority_ok :: "string \<Rightarrow> bool"
  nt_write_ok :: "string \<Rightarrow> nat \<Rightarrow> bool"
  nt_sv1_in_time :: "string \<Rightarrow> bool"
  nt_sv2_in_time :: "string \<Rightarrow> bool"

datatype net_error =
    ConnectFailed | WriteFailed | UpstreamClosed | BadSubscribe | BadHex
  | BadAuthority | NoiseFailed | UnexpectedHandshake | SetupRejected | ProbeTimeout
  | OpenRejected | MalformedSuccess | BuildFailed
  | UnreachableNoDowngrade | NoChannel | OrderNotFound | WriterGone

section \<open>The SV1 handshake\<close>

fun read_response :: "line list \<Rightarrow> line list \<Rightarrow> (net_error + rpc_message) \<times> line list \<times> line list" where
  "read_response [] prelude = (Inl UpstreamClosed, prelude, [])"
| "read_response (wl # rest) prelude =
     (if wl = Blank then read_response rest prelude
      else case rpc_parse wl of
          Some m \<Rightarrow> (if m_method m = None then (Inr m, prelude, rest)
                     else read_response rest (prelude @ [wl]))
        | None \<Rightarrow> read_response rest prelude)"

definition parse_subscribe_result :: "rpc_message \<Rightarrow> (string \<times> u32) option" where
  "parse_subscribe_result m =
     (case Option.bind (m_result m) as_array of
        None \<Rightarrow> None
      | Some arr \<Rightarrow>
          (if length arr < 3 then None
           else case as_str (arr ! 1) of
               None \<Rightarrow> None
             | Some en1 \<Rightarrow> (case as_u64 (arr ! 2) of
                   None \<Rightarrow> None | Some en2 \<Rightarrow> Some (en1, ucast en2))))"

text \<open>A handshaken SV1 pool: what the relay learns, the lines it wrote, the lines still to
  be read.\<close>

record sv1_conn =
  uc_extranonce1 :: string
  uc_extranonce2_size :: u32
  uc_prelude :: "line list"
  uc_sent :: "line list"
  uc_rest :: "line list"

definition subscribe_request :: "json \<Rightarrow> rpc_message" where
  "subscribe_request i = rpc_request i ''mining.subscribe'' (JArr [JStr ''bp-proxy''])"

definition authorize_request :: "json \<Rightarrow> string \<Rightarrow> string \<Rightarrow> rpc_message" where
  "authorize_request i user pass = rpc_request i ''mining.authorize'' (JArr [JStr user, JStr pass])"

text \<open>One request of a handshake: write it, read the response.\<close>

definition request_response :: "net \<Rightarrow> string \<Rightarrow> nat \<Rightarrow> line list \<Rightarrow> line list
    \<Rightarrow> (net_error + rpc_message) \<times> line list \<times> line list" where
  "request_response n url i rest prelude =
     (if \<not> nt_write_ok n url i then (Inl WriteFailed, prelude, rest) else read_response rest prelude)"

definition connect_upstream :: "net \<Rightarrow> upstream_target \<Rightarrow> rpc_message option \<Rightarrow> string
    \<Rightarrow> net_error + sv1_conn" where
  "connect_upstream n target configure user_identity =
     (let url = t_url target in
      if \<not> nt_tcp n url then Inl ConnectFailed
      else
       (let (r0, pre0, rest0, i0, sent0) = (case configure of
              None \<Rightarrow> (Inr (), [], nt_lines n url, 0, [])
            | Some cfg \<Rightarrow> (let (r, pre, rest) = request_response n url 0 (nt_lines n url) []
                 in (map_sum id (\<lambda>_. ()) r, pre, rest, 1, [to_line cfg])))
        in case r0 of Inl err \<Rightarrow> Inl err | Inr _ \<Rightarrow>
          (case request_response n url i0 rest0 pre0 of
             (Inl err, _, _) \<Rightarrow> Inl err
           | (Inr sub_resp, pre1, rest1) \<Rightarrow>
              (case parse_subscribe_result sub_resp of
                 None \<Rightarrow> Inl BadSubscribe
               | Some (en1, en2) \<Rightarrow>
                  (case request_response n url (Suc i0) rest1 pre1 of
                     (Inl err, _, _) \<Rightarrow> Inl err
                   | (Inr _, pre2, rest2) \<Rightarrow>
                      Inr \<lparr>uc_extranonce1 = en1, uc_extranonce2_size = en2, uc_prelude = pre2,
                        uc_sent = sent0 @ [to_line (subscribe_request (JInt 1)),
                          to_line (authorize_request (JInt 2) user_identity (t_password target))],
                        uc_rest = rest2\<rparr>)))))"

section \<open>The SV1 handshake of the SV2 relay\<close>

definition parse_version_mask :: "rpc_message \<Rightarrow> u32 option" where
  "parse_version_mask resp =
     (case m_result resp of None \<Rightarrow> None | Some r \<Rightarrow>
       (case jget ''version-rolling'' r of None \<Rightarrow> None | Some v \<Rightarrow>
          if as_bool v \<noteq> Some True then None
          else Some (case Option.bind (Option.bind (jget ''version-rolling.mask'' r) as_str)
                        parse_u32_hex of
                 None \<Rightarrow> version_rolling_mask | Some m \<Rightarrow> m)))"

definition parse_subscribe_sv1 :: "rpc_message \<Rightarrow> (string \<times> u16) option" where
  "parse_subscribe_sv1 resp =
     (case Option.bind (m_result resp) as_array of
        None \<Rightarrow> None
      | Some arr \<Rightarrow>
          (if length arr < 3 then None
           else case as_str (arr ! 1) of
               None \<Rightarrow> None
             | Some en1 \<Rightarrow> (case as_u64 (arr ! 2) of
                   None \<Rightarrow> None | Some en2 \<Rightarrow> Some (en1, ucast en2))))"

record sv1_up_conn =
  vc_extranonce1 :: bytes
  vc_extranonce2_size :: u16
  vc_version_mask :: "u32 option"
  vc_initial_diff :: xf64
  vc_prelude :: "line list"
  vc_sent :: "line list"
  vc_rest :: "line list"

definition configure_request :: rpc_message where
  "configure_request = rpc_request (JInt 1) ''mining.configure''
     (JArr [JArr [JStr ''version-rolling''],
            JObj [(''version-rolling.mask'', JStr ''1fffe000'')]])"

definition last_difficulty :: "lib \<Rightarrow> line list \<Rightarrow> xf64" where
  "last_difficulty l prelude =
     (case List.find (\<lambda>d. d \<noteq> None) (map (set_difficulty_from_line l) (rev prelude)) of
        Some (Some d) \<Rightarrow> d | _ \<Rightarrow> Finite 1)"

definition connect_sv1_upstream :: "lib \<Rightarrow> net \<Rightarrow> upstream_target \<Rightarrow> string
    \<Rightarrow> net_error + sv1_up_conn" where
  "connect_sv1_upstream l n target user_identity =
     (let url = t_url target in
      if \<not> nt_tcp n url then Inl ConnectFailed
      else case request_response n url 0 (nt_lines n url) [] of
        (Inl err, _, _) \<Rightarrow> Inl err
      | (Inr cfg_resp, pre0, rest0) \<Rightarrow>
        (case request_response n url 1 rest0 pre0 of
           (Inl err, _, _) \<Rightarrow> Inl err
         | (Inr sub_resp, pre1, rest1) \<Rightarrow>
          (case parse_subscribe_sv1 sub_resp of
             None \<Rightarrow> Inl BadSubscribe
           | Some (en1_hex, en2_size) \<Rightarrow>
            (case request_response n url 2 rest1 pre1 of
               (Inl err, _, _) \<Rightarrow> Inl err
             | (Inr _, pre2, rest2) \<Rightarrow>
              (case l_from_hex l en1_hex of
                 None \<Rightarrow> Inl BadHex
               | Some en1 \<Rightarrow> Inr \<lparr>vc_extranonce1 = en1, vc_extranonce2_size = en2_size,
                   vc_version_mask = parse_version_mask cfg_resp,
                   vc_initial_diff = last_difficulty l pre2, vc_prelude = pre2,
                   vc_sent = [to_line configure_request, to_line (subscribe_request (JInt 2)),
                     to_line (authorize_request (JInt 3) user_identity (t_password target))],
                   vc_rest = rest2\<rparr>)))))"

section \<open>The SV2 setup and the probe\<close>

fun await_setup :: "lib \<Rightarrow> transport_frame list \<Rightarrow> net_error + transport_frame list \<times> u32" where
  "await_setup l [] = Inl UpstreamClosed"
| "await_setup l (tf # tfs) =
     (case into_sv2 tf of
        None \<Rightarrow> Inl UnexpectedHandshake
      | Some f \<Rightarrow>
          (if msg_type f = Some MtSetupConnectionSuccess
           then Inr (tfs, case parse_setup_success_flags l f of None \<Rightarrow> 0 | Some x \<Rightarrow> x)
           else if msg_type f = Some MtSetupConnectionError then Inl SetupRejected
           else await_setup l tfs))"

text \<open>The pool's authority key: absent or blank means an unauthenticated link (\<open>Some None\<close>), a
  text that is no key is an error (\<open>None\<close>).\<close>

definition parse_authority :: "net \<Rightarrow> string option \<Rightarrow> string option option" where
  "parse_authority n pubkey =
     (case Option.bind (map_option trim pubkey) (\<lambda>s. if s = [] then None else Some s) of
        Some s \<Rightarrow> if nt_authority_ok n s then Some (Some s) else None
      | None \<Rightarrow> Some None)"

text \<open>The result is what the connection still delivers, and the negotiated flags.\<close>

definition setup_over :: "lib \<Rightarrow> net \<Rightarrow> upstream_target \<Rightarrow> net_error + transport_frame list \<times> u32" where
  "setup_over l n target =
     (if parse_authority n (t_authority target) = None then Inl BadAuthority
      else if \<not> nt_noise n (t_url target) then Inl NoiseFailed
      else if \<not> nt_write_ok n (t_url target) 0 then Inl WriteFailed
      else await_setup l (nt_frames n (t_url target)))"

definition connect_setup :: "lib \<Rightarrow> net \<Rightarrow> upstream_target \<Rightarrow> net_error + transport_frame list \<times> u32" where
  "connect_setup l n target =
     (if \<not> nt_tcp n (t_url target) then Inl ConnectFailed else setup_over l n target)"

datatype probe_failure = Unreachable net_error | NotSv2 net_error

fun allow_translation :: "probe_failure \<Rightarrow> net_error + unit" where
  "allow_translation (Unreachable err) = Inl UnreachableNoDowngrade"
| "allow_translation (NotSv2 err) = Inr ()"

definition probe_sv2 :: "lib \<Rightarrow> net \<Rightarrow> upstream_target
    \<Rightarrow> probe_failure + transport_frame list \<times> u32" where
  "probe_sv2 l n target =
     (if \<not> nt_tcp_in_time n (t_url target) then Inl (Unreachable ProbeTimeout)
      else if \<not> nt_tcp n (t_url target) then Inl (Unreachable ConnectFailed)
      else if \<not> nt_sv2_in_time n (t_url target) then Inl (NotSv2 ProbeTimeout)
      else case setup_over l n target of Inl err \<Rightarrow> Inl (NotSv2 err) | Inr c \<Rightarrow> Inr c)"

section \<open>The synchronous channel open\<close>

fun await_open :: "lib \<Rightarrow> transport_frame list \<Rightarrow> sv2_frame list
    \<Rightarrow> (net_error + channel_info) \<times> sv2_frame list \<times> transport_frame list" where
  "await_open l [] deferred = (Inl UpstreamClosed, deferred, [])"
| "await_open l (tf # tfs) deferred =
     (case into_sv2 tf of
        None \<Rightarrow> (Inl UnexpectedHandshake, deferred, tfs)
      | Some f \<Rightarrow>
          (if msg_type f = Some MtOpenExtendedMiningChannelSuccess
              \<or> msg_type f = Some MtOpenStandardMiningChannelSuccess
           then ((case parse_open_success l f of None \<Rightarrow> Inl MalformedSuccess | Some ci \<Rightarrow> Inr ci),
                 deferred, tfs)
           else if msg_type f = Some MtOpenMiningChannelError then (Inl OpenRejected, deferred, tfs)
           else await_open l tfs (deferred @ [f])))"

definition open_on :: "lib \<Rightarrow> net \<Rightarrow> string \<Rightarrow> nat \<Rightarrow> open_spec \<Rightarrow> string \<Rightarrow> transport_frame list
    \<Rightarrow> sv2_frame list \<Rightarrow> (net_error + channel_info) \<times> sv2_frame list \<times> transport_frame list" where
  "open_on l n url i sp account tfs deferred =
     (case open_channel_upstream sp account (request_id sp) of
        None \<Rightarrow> (Inl BuildFailed, deferred, tfs)
      | Some _ \<Rightarrow>
          (if \<not> nt_write_ok n url i then (Inl WriteFailed, deferred, tfs)
           else await_open l tfs deferred))"

section \<open>Lemmas\<close>

text \<open>A response is returned only with every notification before it kept, in order.\<close>

lemma read_response_split:
  "read_response lines pre = (Inr m, pre', rest) \<Longrightarrow>
   \<exists>before wl. lines = before @ wl # rest \<and> rpc_parse wl = Some m \<and> m_method m = None
     \<and> pre' = pre @ filter (\<lambda>x. rpc_parse x \<noteq> None) before
     \<and> (\<forall>x\<in>set before. \<forall>k. rpc_parse x = Some k \<longrightarrow> m_method k \<noteq> None)"
proof (induction lines pre rule: read_response.induct)
  case (1 prelude)
  then show ?case by simp
next
  case (2 wl rest0 prelude)
  show ?case
  proof (cases "rpc_parse wl")
    case None
    then have "read_response rest0 prelude = (Inr m, pre', rest)"
      using "2.prems" by (auto split: if_splits)
    with "2.IH"(1,2) None obtain before wl' where "rest0 = before @ wl' # rest"
      "rpc_parse wl' = Some m" "m_method m = None"
      "pre' = prelude @ filter (\<lambda>x. rpc_parse x \<noteq> None) before"
      "\<forall>x\<in>set before. \<forall>k. rpc_parse x = Some k \<longrightarrow> m_method k \<noteq> None"
      by (cases "wl = Blank") blast+
    with None show ?thesis by (intro exI [of _ "wl # before"] exI [of _ wl']) simp
  next
    case (Some k)
    then have nb: "wl \<noteq> Blank" by auto
    show ?thesis
    proof (cases "m_method k = None")
      case True
      with "2.prems" Some nb show ?thesis by (intro exI [of _ "[]"] exI [of _ wl]) simp
    next
      case False
      then have "read_response rest0 (prelude @ [wl]) = (Inr m, pre', rest)"
        using "2.prems" Some nb by (simp split: if_splits)
      from "2.IH"(3) [OF nb Some False this] obtain before wl' where "rest0 = before @ wl' # rest"
        "rpc_parse wl' = Some m" "m_method m = None"
        "pre' = (prelude @ [wl]) @ filter (\<lambda>x. rpc_parse x \<noteq> None) before"
        "\<forall>x\<in>set before. \<forall>k. rpc_parse x = Some k \<longrightarrow> m_method k \<noteq> None"
        by blast
      with Some False show ?thesis by (intro exI [of _ "wl # before"] exI [of _ wl']) simp
    qed
  qed
qed

text \<open>Whatever precedes a channel's success is deferred, in order; nothing is dropped.\<close>

lemma await_open_split:
  "await_open l tfs deferred = (Inr ci, deferred', rest) \<Longrightarrow>
   \<exists>before f. tfs = map Sv2Frame before @ Sv2Frame f # rest \<and> deferred' = deferred @ before
     \<and> parse_open_success l f = Some ci"
proof (induction l tfs deferred rule: await_open.induct)
  case (1 l deferred)
  then show ?case by simp
next
  case (2 l tf tfs deferred)
  then obtain f where f: "tf = Sv2Frame f" by (cases tf) (auto simp: into_sv2_def)
  show ?case
  proof (cases "msg_type f = Some MtOpenExtendedMiningChannelSuccess
      \<or> msg_type f = Some MtOpenStandardMiningChannelSuccess")
    case True
    with "2.prems" f show ?thesis
      by (intro exI [of _ "[]"] exI [of _ f]) (auto simp: into_sv2_def split: option.splits)
  next
    case False
    with "2.prems" f have ne: "msg_type f \<noteq> Some MtOpenMiningChannelError"
      by (auto simp: into_sv2_def)
    with False "2.prems" f have "await_open l tfs (deferred @ [f]) = (Inr ci, deferred', rest)"
      by (simp add: into_sv2_def)
    with "2.IH" False ne f obtain before f' where "tfs = map Sv2Frame before @ Sv2Frame f' # rest"
      "deferred' = (deferred @ [f]) @ before" "parse_open_success l f' = Some ci"
      by (auto simp: into_sv2_def)
    with f show ?thesis by (intro exI [of _ "f # before"] exI [of _ f']) simp
  qed
qed

end
