(* ===== verification/Sv1_Relay.thy ===== *)
theory Sv1_Relay
  imports Upstream Registry Orders_Facts
begin

text \<open>
  \<open>src/proto/relay.rs\<close>, the session: the state a live SV1 session keeps (\<open>Inner\<close> with the
  queues to the miner and to the active upstream), the messages of both sides, the swap of
  the upstream and the operations built on it. An operation returns the share accounting it
  reports to the order store as a list of events.
\<close>

definition sv1_rolling_mask :: string where
  "sv1_rolling_mask = ''1fffe000''"

section \<open>Names\<close>

definition peer_ip :: "string \<Rightarrow> string" where
  "peer_ip peer = (case rsplit_once CHR '':'' peer of Some (ip, _) \<Rightarrow> ip | None \<Rightarrow> peer)"

definition upstream_worker :: "string \<Rightarrow> string \<Rightarrow> string" where
  "upstream_worker account miner_label =
     (case (case split_once CHR ''.'' miner_label of
              None \<Rightarrow> None | Some (_, s) \<Rightarrow> if s = [] then None else Some s) of
        Some suffix \<Rightarrow> account @ ''.'' @ suffix @ ''-bp-proxy''
      | None \<Rightarrow> account @ ''.bp-proxy'')"

text \<open>The key of a pending submit is the JSON text of its id; equal texts are equal values,
  and an absent id reads like \<open>null\<close>.\<close>

definition id_key :: "json option \<Rightarrow> json" where
  "id_key i = (case i of None \<Rightarrow> JNull | Some v \<Rightarrow> v)"

section \<open>State\<close>

record sv1_session =
  s1_generation :: u64
  s1_target :: upstream_target
  s1_to_up :: "line list"
  s1_generation_counter :: u64
  s1_difficulty :: f64
  s1_pending :: "(json \<times> (u64 \<times> f64)) list"
  s1_hashrate :: hashrate_window
  s1_delivered_work :: f64
  s1_accepted :: u64
  s1_submitted :: u64
  s1_low_logged :: bool
  s1_routing :: routing
  s1_default_target :: upstream_target
  s1_configure :: "rpc_message option"
  s1_capable :: bool
  s1_label :: string
  s1_prelude :: "line list"
  s1_extranonce1 :: string
  s1_extranonce2_size :: u32
  s1_translating :: bool
  s1_subscribed :: bool
  s1_to_miner :: "line list"
  s1_reconnect :: bool

definition send_miner :: "line \<Rightarrow> sv1_session \<Rightarrow> sv1_session" where
  "send_miner wl s = s\<lparr>s1_to_miner := s1_to_miner s @ [wl]\<rparr>"

definition send_up :: "line \<Rightarrow> sv1_session \<Rightarrow> sv1_session" where
  "send_up wl s = s\<lparr>s1_to_up := s1_to_up s @ [wl]\<rparr>"

definition ten_minutes :: int where
  "ten_minutes = 600000000000"

definition new_session :: "string \<Rightarrow> upstream_target \<Rightarrow> sv1_session" where
  "new_session peer target = \<lparr>s1_generation = 0, s1_target = target, s1_to_up = [],
     s1_generation_counter = 0, s1_difficulty = 1, s1_pending = [],
     s1_hashrate = window_new ten_minutes, s1_delivered_work = 0, s1_accepted = 0,
     s1_submitted = 0, s1_low_logged = False, s1_routing = Idle, s1_default_target = target,
     s1_configure = None, s1_capable = False, s1_label = peer, s1_prelude = [],
     s1_extranonce1 = [], s1_extranonce2_size = 0, s1_translating = False,
     s1_subscribed = False, s1_to_miner = [], s1_reconnect = False\<rparr>"

section \<open>Messages\<close>

text \<open>The edge-triggered acceptance warning.\<close>

definition note_low_ratio :: "sv1_session \<Rightarrow> sv1_session" where
  "note_low_ratio s = (if \<not> s1_low_logged s \<and> accept_ratio_low (s1_accepted s) (s1_submitted s)
     then s\<lparr>s1_low_logged := True\<rparr> else s)"

definition credit_one :: "instant \<Rightarrow> f64 \<Rightarrow> sv1_session \<Rightarrow> sv1_session \<times> acct_event list" where
  "credit_one now diff s =
     (s\<lparr>s1_hashrate := window_record_at now diff (s1_hashrate s),
        s1_delivered_work := s1_delivered_work s + diff,
        s1_accepted := s1_accepted s + 1\<rparr>,
      case s1_routing s of Rented oid \<Rightarrow> [Credit oid diff 1] | Idle \<Rightarrow> [])"

definition on_upstream_response :: "instant \<Rightarrow> u64 \<Rightarrow> rpc_message \<Rightarrow> sv1_session
    \<Rightarrow> sv1_session \<times> acct_event list" where
  "on_upstream_response now gen m s =
     (let (s1, ev) = (case map_of (s1_pending s) (id_key (m_id m)) of
            None \<Rightarrow> (s, [])
          | Some (g, diff) \<Rightarrow>
              (let s0 = s\<lparr>s1_pending := AList.delete (id_key (m_id m)) (s1_pending s)\<rparr>
               in if g = gen \<and> m_result m = Some (JBool True) then credit_one now diff s0
                  else (s0, [])))
      in (note_low_ratio s1, ev))"

definition on_upstream_msg :: "instant \<Rightarrow> u64 \<Rightarrow> rpc_message \<Rightarrow> sv1_session
    \<Rightarrow> line option \<times> sv1_session \<times> acct_event list" where
  "on_upstream_msg now gen m s =
     (if gen \<noteq> s1_generation s then (None, s, [])
      else case m_method m of
        Some meth \<Rightarrow>
          (if meth = ''mining.set_difficulty''
           then (case Option.bind (jfirst (m_params m)) as_f64 of
                   Some d \<Rightarrow> (Some (to_line m), s\<lparr>s1_difficulty := d\<rparr>, [])
                 | None \<Rightarrow> (Some (to_line m), s, []))
           else (Some (to_line m), s, []))
      | None \<Rightarrow> (let (s', ev) = on_upstream_response now gen m s in (Some (to_line m), s', ev)))"

text \<open>A line of the upstream reader for \<open>gen\<close>: parsed, processed, forwarded.\<close>

definition upstream_line :: "instant \<Rightarrow> u64 \<Rightarrow> line \<Rightarrow> sv1_session \<Rightarrow> sv1_session \<times> acct_event list" where
  "upstream_line now gen wl s = (case rpc_parse wl of
       None \<Rightarrow> (s, [])
     | Some m \<Rightarrow> (case on_upstream_msg now gen m s of
           (Some out, s', ev) \<Rightarrow> (send_miner out s', ev)
         | (None, s', ev) \<Rightarrow> (s', ev)))"

definition rewrite_worker :: "string \<Rightarrow> rpc_message \<Rightarrow> rpc_message" where
  "rewrite_worker w m = (case m_params m of
       Some (JArr (x # xs)) \<Rightarrow> m\<lparr>m_params := Some (JArr (JStr w # xs))\<rparr>
     | _ \<Rightarrow> m)"

definition on_miner_msg :: "rpc_message \<Rightarrow> sv1_session \<Rightarrow> sv1_session \<times> acct_event list" where
  "on_miner_msg m s =
     (if m_method m = Some ''mining.authorize'' then (s, [])
      else if m_method m = Some ''mining.submit'' then
        (let s1 = (if \<not> s1_translating s
               then s\<lparr>s1_pending := AList.update (id_key (m_id m))
                        (s1_generation s, s1_difficulty s) (s1_pending s)\<rparr> else s);
             s2 = s1\<lparr>s1_submitted := s1_submitted s1 + 1\<rparr>;
             ev = (case s1_routing s of Rented oid \<Rightarrow> [Submit oid 1] | Idle \<Rightarrow> []);
             w = upstream_worker (t_user (s1_target s)) (s1_label s)
         in (send_up (to_line (rewrite_worker w m)) s2, ev))
      else if m_method m = Some ''mining.extranonce.subscribe''
      then (send_up (to_line m) (s\<lparr>s1_capable := True\<rparr>), [])
      else if m_method m = Some ''mining.configure''
      then (send_up (to_line m) (s\<lparr>s1_configure := Some m\<rparr>), [])
      else (send_up (to_line m) s, []))"

definition sv1_status :: "instant \<Rightarrow> sv1_session \<Rightarrow> session_status" where
  "sv1_status now s = \<lparr>st_worker = s1_label s, st_routing = routing_name (s1_routing s),
     st_order_id = routing_order (s1_routing s), st_upstream_url = t_url (s1_target s),
     st_hashrate_hs = hashes_per_second_at now (s1_hashrate s),
     st_delivered_work = s1_delivered_work s, st_accepted_shares = s1_accepted s,
     st_submitted_shares = s1_submitted s,
     st_accept_ratio = accept_ratio (s1_accepted s) (s1_submitted s),
     st_accept_ratio_low = accept_ratio_low (s1_accepted s) (s1_submitted s),
     st_protocol = ''sv1''\<rparr>"

section \<open>Connecting an upstream\<close>

record sv2_raw_upstream =
  ru_frames :: "transport_frame list"
  ru_channel_id :: u32
  ru_extranonce1 :: string
  ru_extranonce2_size :: u32
  ru_initial_diff :: f64

datatype raw_upstream = RawSv1 sv1_conn | RawSv2 sv2_raw_upstream

definition hex_digit :: "nat \<Rightarrow> char" where
  "hex_digit d = (if d < 10 then char_of (48 + d) else char_of (87 + d))"

definition to_lower_hex :: "bytes \<Rightarrow> string" where
  "to_lower_hex bs = concat (map (\<lambda>b. [hex_digit (unat b div 16), hex_digit (unat b mod 16)]) bs)"

definition sv2_up_nominal_hashrate :: f32 where
  "sv2_up_nominal_hashrate = 1000000000000"

definition sv2_up_min_extranonce :: u16 where
  "sv2_up_min_extranonce = 4"

definition connect_sv2_translate :: "lib \<Rightarrow> net \<Rightarrow> upstream_target \<Rightarrow> string
    \<Rightarrow> net_error + raw_upstream" where
  "connect_sv2_translate l n target user_identity =
     (case connect_setup l n target of
        Inl err \<Rightarrow> Inl err
      | Inr (tfs, _) \<Rightarrow>
          (let sp = Extended 1 sv2_up_nominal_hashrate (replicate 32 0xff) sv2_up_min_extranonce
           in case open_on l n (t_url target) 1 sp user_identity tfs [] of
                (Inl err, _, _) \<Rightarrow> Inl err
              | (Inr ci, _, rest) \<Rightarrow>
                  Inr (RawSv2 \<lparr>ru_frames = rest, ru_channel_id = ci_up_channel_id ci,
                    ru_extranonce1 = to_lower_hex (ci_extranonce_prefix ci),
                    ru_extranonce2_size = ucast (ci_extranonce_size ci),
                    ru_initial_diff = difficulty_from_target l (ci_target ci)\<rparr>)))"

definition connect_raw :: "lib \<Rightarrow> net \<Rightarrow> upstream_target \<Rightarrow> rpc_message option \<Rightarrow> string
    \<Rightarrow> net_error + raw_upstream" where
  "connect_raw l n target configure user_identity =
     (if nt_sv1_in_time n (t_url target) then
        (case connect_upstream n target configure user_identity of
           Inr conn \<Rightarrow> Inr (RawSv1 conn)
         | Inl _ \<Rightarrow> connect_sv2_translate l n target user_identity)
      else connect_sv2_translate l n target user_identity)"

text \<open>Install: the old upstream's queue and pending submits are gone.\<close>

definition install_raw :: "lib \<Rightarrow> raw_upstream \<Rightarrow> u64 \<Rightarrow> upstream_target \<Rightarrow> routing
    \<Rightarrow> sv1_session \<Rightarrow> (string \<times> u32) \<times> sv1_session" where
  "install_raw l raw gen target routing s =
     (let (en1, en2, prelude, translating, translate_diff) = (case raw of
            RawSv1 conn \<Rightarrow> (uc_extranonce1 conn, uc_extranonce2_size conn, uc_prelude conn, False, None)
          | RawSv2 b \<Rightarrow> (ru_extranonce1 b, ru_extranonce2_size b,
              [set_difficulty_to_line l (Finite (ru_initial_diff b))], True, Some (ru_initial_diff b)));
          s1 = s\<lparr>s1_generation := gen, s1_target := target, s1_to_up := [], s1_routing := routing,
            s1_extranonce1 := en1, s1_extranonce2_size := en2, s1_translating := translating\<rparr>;
          s2 = (case translate_diff of Some d \<Rightarrow> s1\<lparr>s1_difficulty := d\<rparr> | None \<Rightarrow> s1)
      in ((en1, en2), s2\<lparr>s1_pending := [], s1_prelude := prelude\<rparr>))"

section \<open>The swap\<close>

definition force_reconnect :: "sv1_session \<Rightarrow> sv1_session" where
  "force_reconnect s = s\<lparr>s1_reconnect := True\<rparr>"

text \<open>
  A swap takes a fresh generation and what the handshake needs (\<open>swap_begin\<close>), connects
  without holding the state, and installs (\<open>swap_finish\<close>); in between the old upstream and
  the miner go on. \<open>swap_upstream\<close> is the run of the three with nothing in between.
\<close>

definition swap_begin :: "sv1_session \<Rightarrow> (rpc_message option \<times> bool \<times> u64 \<times> string) \<times> sv1_session" where
  "swap_begin s =
     (let s' = s\<lparr>s1_generation_counter := s1_generation_counter s + 1\<rparr>
      in ((s1_configure s', s1_capable s', s1_generation_counter s', s1_label s'), s'))"

definition swap_finish :: "lib \<Rightarrow> raw_upstream \<Rightarrow> bool \<Rightarrow> u64 \<Rightarrow> upstream_target \<Rightarrow> routing
    \<Rightarrow> sv1_session \<Rightarrow> sv1_session" where
  "swap_finish l raw capable gen target routing s =
     (let ((en1, en2), s1) = install_raw l raw gen target routing s;
          s2 = (if capable then send_miner (to_line (set_extranonce en1 en2)) s1
                else force_reconnect s1);
          prelude = s1_prelude s2
      in fold send_miner prelude (s2\<lparr>s1_prelude := []\<rparr>))"

definition swap_upstream :: "lib \<Rightarrow> net \<Rightarrow> upstream_target \<Rightarrow> routing \<Rightarrow> sv1_session
    \<Rightarrow> (net_error + unit) \<times> sv1_session" where
  "swap_upstream l n target routing s =
     (let ((configure, capable, gen, label), s1) = swap_begin s;
          user_identity = upstream_worker (t_user target) label
      in case connect_raw l n target configure user_identity of
           Inl err \<Rightarrow> (Inl err, s1)
         | Inr raw \<Rightarrow> (Inr (), swap_finish l raw capable gen target routing s1))"

definition switch_to :: "lib \<Rightarrow> net \<Rightarrow> string \<Rightarrow> upstream_target \<Rightarrow> sv1_session
    \<Rightarrow> (net_error + unit) \<times> sv1_session" where
  "switch_to l n oid target s = swap_upstream l n target (Rented oid) s"

definition switch_to_order :: "lib \<Rightarrow> net \<Rightarrow> (string \<Rightarrow> order option) \<Rightarrow> string \<Rightarrow> sv1_session
    \<Rightarrow> (net_error + unit) \<times> sv1_session" where
  "switch_to_order l n orders oid s = (case orders oid of
       None \<Rightarrow> (Inl OrderNotFound, s)
     | Some o' \<Rightarrow>
         (case switch_to l n oid (o_target o') s of
            (Inr _, s') \<Rightarrow> (Inr (), s')
          | (Inl primary_err, s') \<Rightarrow>
              (case o_fallback o' of
                 Some fb \<Rightarrow> switch_to l n oid fb s'
               | None \<Rightarrow> (Inl primary_err, s'))))"

definition revert :: "lib \<Rightarrow> net \<Rightarrow> sv1_session \<Rightarrow> (net_error + unit) \<times> sv1_session" where
  "revert l n s = swap_upstream l n (s1_default_target s) Idle s"

definition set_default :: "lib \<Rightarrow> net \<Rightarrow> upstream_target \<Rightarrow> sv1_session
    \<Rightarrow> (net_error + unit) \<times> sv1_session" where
  "set_default l n target s = swap_upstream l n target Idle (s\<lparr>s1_default_target := target\<rparr>)"

definition attach_order :: "string \<Rightarrow> sv1_session \<Rightarrow> sv1_session" where
  "attach_order oid s = s\<lparr>s1_routing := Rented oid\<rparr>"

section \<open>The supervisor\<close>

definition backoff_next :: "nat \<Rightarrow> nat" where
  "backoff_next ms = min (ms * 2) 30000"

text \<open>One attempt after the reader of \<open>gen\<close> died: \<open>None\<close> when there is nothing (more)
  to do, otherwise the attempt's outcome. The network of each attempt is its own.\<close>

definition supervise_attempt :: "lib \<Rightarrow> net \<Rightarrow> (string \<Rightarrow> order option) \<Rightarrow> u64 \<Rightarrow> sv1_session
    \<Rightarrow> ((net_error + unit) \<times> sv1_session) option" where
  "supervise_attempt l n orders gen s =
     (if s1_generation s \<noteq> gen then None
      else Some (case s1_routing s of
          Rented oid \<Rightarrow> switch_to_order l n orders oid s
        | Idle \<Rightarrow> revert l n s))"

text \<open>The retry loop over the networks of successive attempts (the loop runs as long as the
  session lives; \<open>nets\<close> is the part of it that is looked at), with the back-offs it slept.\<close>

fun supervise_loop :: "lib \<Rightarrow> net list \<Rightarrow> (string \<Rightarrow> order option) \<Rightarrow> u64 \<Rightarrow> nat \<Rightarrow> sv1_session
    \<Rightarrow> nat list \<times> sv1_session" where
  "supervise_loop l [] orders gen backoff s = ([], s)"
| "supervise_loop l (n # nets) orders gen backoff s =
     (case supervise_attempt l n orders gen s of
        None \<Rightarrow> ([], s)
      | Some (Inr _, s') \<Rightarrow> ([], s')
      | Some (Inl _, s') \<Rightarrow>
          (let (slept, s'') = supervise_loop l nets orders gen (backoff_next backoff) s'
           in (backoff # slept, s'')))"

end
