(* ===== verification/Sv1_Translate.thy ===== *)
theory Sv1_Translate
  imports Sv1_Relay
begin

text \<open>
  \<open>src/proto/relay.rs\<close>, the SV2 upstream behind an SV1 miner: the writer that turns the
  miner's submits into SV2 shares, the reader that turns the pool's frames into lines, and
  the queue that matches acknowledgements to submit ids.
\<close>

record sv2_up_state =
  us_channel_id :: u32
  us_next_seq :: u32
  us_latest_version :: u32
  us_job_versions :: "(u32 \<times> u32) list"
  us_pending_submits :: "(u32 \<times> json option) list"

definition up_state_new :: "u32 \<Rightarrow> sv2_up_state" where
  "up_state_new cid = \<lparr>us_channel_id = cid, us_next_seq = 0, us_latest_version = 0,
     us_job_versions = [], us_pending_submits = []\<rparr>"

section \<open>The writer\<close>

text \<open>A line of the miner: the frame written to the pool, if the line becomes one.\<close>

definition translate_submit :: "lib \<Rightarrow> line \<Rightarrow> sv2_up_state \<Rightarrow> out_frame option \<times> sv2_up_state" where
  "translate_submit l wl st = (case rpc_parse wl of
       None \<Rightarrow> (None, st)
     | Some m \<Rightarrow>
         (if m_method m \<noteq> Some ''mining.submit'' then (None, st)
          else
            (let i = (case Option.bind (m_id m) as_u64 of Some x \<Rightarrow> x | None \<Rightarrow> 0);
                 params = (case m_params m of Some p \<Rightarrow> p | None \<Rightarrow> JNull)
             in case l_submit_of l i params of
                 None \<Rightarrow> (None, st)
               | Some sub \<Rightarrow>
                  (let seq = us_next_seq st;
                       job_version = (case Option.bind (parse_u32 (s_job_id sub))
                              (map_of (us_job_versions st)) of
                            Some v \<Rightarrow> v | None \<Rightarrow> us_latest_version st);
                       st' = st\<lparr>us_next_seq := us_next_seq st + 1,
                          us_pending_submits := us_pending_submits st @ [(seq, m_id m)]\<rparr>;
                       vmask = map_option (\<lambda>_. version_rolling_mask) (s_version_bits sub)
                   in (map_option (\<lambda>x. Built (SubmitSharesExtended x))
                         (l_build_submit l sub (us_channel_id st) seq job_version vmask), st')))))"

section \<open>Acknowledgements\<close>

fun drain_acked :: "(u32 \<times> json option) list \<Rightarrow> u32 \<Rightarrow> json option list \<times> (u32 \<times> json option) list" where
  "drain_acked [] last_seq = ([], [])"
| "drain_acked ((seq, i) # q) last_seq =
     (if seq \<le> last_seq
      then (let (ids, rest) = drain_acked q last_seq in (i # ids, rest))
      else ([], (seq, i) # q))"

definition remove_seq :: "(u32 \<times> json option) list \<Rightarrow> u32
    \<Rightarrow> json option option \<times> (u32 \<times> json option) list" where
  "remove_seq q seq = (case position (\<lambda>(k, _). k = seq) q of
       None \<Rightarrow> (None, q)
     | Some pos \<Rightarrow> (Some (snd (q ! pos)), list_remove_at pos q))"

section \<open>The session's side\<close>

definition send_or_stash :: "u64 \<Rightarrow> line \<Rightarrow> sv1_session \<Rightarrow> sv1_session" where
  "send_or_stash gen wl s =
     (if gen \<noteq> s1_generation s then s
      else if s1_subscribed s then send_miner wl s
      else s\<lparr>s1_prelude := s1_prelude s @ [wl]\<rparr>)"

definition set_translate_difficulty :: "u64 \<Rightarrow> f64 \<Rightarrow> sv1_session \<Rightarrow> bool \<times> sv1_session" where
  "set_translate_difficulty gen diff s =
     (if gen \<noteq> s1_generation s then (False, s) else (True, s\<lparr>s1_difficulty := diff\<rparr>))"

definition credit_translate_accepted :: "instant \<Rightarrow> u64 \<Rightarrow> u32 \<Rightarrow> sv1_session
    \<Rightarrow> sv1_session \<times> acct_event list" where
  "credit_translate_accepted now gen count s =
     (if gen \<noteq> s1_generation s then (s, [])
      else
       (let work = s1_difficulty s * f64_of_u32 count;
            (s1, ev) = (if work > 0
              then (s\<lparr>s1_hashrate := window_record_at now work (s1_hashrate s),
                      s1_delivered_work := s1_delivered_work s + work,
                      s1_accepted := s1_accepted s + u64_of_u32 count\<rparr>,
                    case s1_routing s of Rented oid \<Rightarrow> [Credit oid work (u64_of_u32 count)]
                      | Idle \<Rightarrow> [])
              else (s, []))
        in (note_low_ratio s1, ev)))"

definition send_submit_result :: "json option \<Rightarrow> bool \<Rightarrow> sv1_session \<Rightarrow> sv1_session" where
  "send_submit_result i ok s = send_miner (to_line (rpc_reply i (JBool ok)
     (if ok then JNull else JArr [JInt 20, JStr ''rejected'', JNull]))) s"

definition emit_translate_notify :: "lib \<Rightarrow> u64 \<Rightarrow> prev_hash_msg \<Rightarrow> ext_job \<Rightarrow> bool
    \<Rightarrow> sv1_session \<Rightarrow> sv1_session" where
  "emit_translate_notify l gen prev job clean s = (case sv2_job_to_sv1_notify l prev job clean of
       Some notify \<Rightarrow> send_or_stash gen (notify_to_line l notify) s
     | None \<Rightarrow> s)"

section \<open>The reader\<close>

record translate_reader =
  tr_prev :: "prev_hash_msg option"
  tr_job :: "ext_job option"
  tr_state :: sv2_up_state

definition remember_version :: "ext_job \<Rightarrow> sv2_up_state \<Rightarrow> sv2_up_state" where
  "remember_version j st =
     (let versions = (if length (us_job_versions st) \<ge> 64 then [] else us_job_versions st)
      in st\<lparr>us_job_versions := AList.update (ej_job_id j) (ej_version j) versions,
            us_latest_version := ej_version j\<rparr>)"

definition on_sv2_job :: "lib \<Rightarrow> u64 \<Rightarrow> ext_job \<Rightarrow> translate_reader \<times> sv1_session
    \<Rightarrow> translate_reader \<times> sv1_session" where
  "on_sv2_job l gen j rs =
     (let r = fst rs; s = snd rs;
          r1 = r\<lparr>tr_state := remember_version j (tr_state r)\<rparr>
      in if ej_min_ntime j = None then (r1\<lparr>tr_job := Some j\<rparr>, s)
         else (r1\<lparr>tr_job := Some j\<rparr>,
               case tr_prev r1 of Some p \<Rightarrow> emit_translate_notify l gen p j False s | None \<Rightarrow> s))"

definition on_sv2_prev_hash :: "lib \<Rightarrow> u64 \<Rightarrow> prev_hash_msg \<Rightarrow> translate_reader \<times> sv1_session
    \<Rightarrow> translate_reader \<times> sv1_session" where
  "on_sv2_prev_hash l gen p rs =
     (let r = fst rs; s = snd rs
      in (r\<lparr>tr_prev := Some p\<rparr>,
          case tr_job r of Some j \<Rightarrow> emit_translate_notify l gen p j True s | None \<Rightarrow> s))"

definition translate_frame :: "lib \<Rightarrow> instant \<Rightarrow> u64 \<Rightarrow> transport_frame
    \<Rightarrow> translate_reader \<times> sv1_session \<Rightarrow> (translate_reader \<times> sv1_session) \<times> acct_event list" where
  "translate_frame l now gen tf rs =
     (case into_sv2 tf of None \<Rightarrow> (rs, []) | Some f \<Rightarrow>
      (let r = fst rs; s = snd rs in
       if msg_type f = Some MtNewExtendedMiningJob then
         (case parse_new_extended_job l f of
            Some j \<Rightarrow> (on_sv2_job l gen j rs, []) | None \<Rightarrow> (rs, []))
       else if msg_type f = Some MtSetNewPrevHash then
         (case parse_set_new_prev_hash l f of
            Some p \<Rightarrow> (on_sv2_prev_hash l gen p rs, []) | None \<Rightarrow> (rs, []))
       else if msg_type f = Some MtSetTarget then
         (case parse_set_target l f of
            None \<Rightarrow> (rs, [])
          | Some t \<Rightarrow>
              (let diff = difficulty_from_target l t;
                   (current, s1) = set_translate_difficulty gen diff s
               in ((r, if current
                      then send_or_stash gen (set_difficulty_to_line l (Finite diff)) s1 else s1), [])))
       else if msg_type f = Some MtSubmitSharesSuccess then
         (case parse_submit_success l f of
            None \<Rightarrow> (rs, [])
          | Some (last_seq, count) \<Rightarrow>
              (let (s1, ev) = credit_translate_accepted now gen count s;
                   (ids, rest) = drain_acked (us_pending_submits (tr_state r)) last_seq;
                   r1 = r\<lparr>tr_state := (tr_state r)\<lparr>us_pending_submits := rest\<rparr>\<rparr>
               in ((r1, fold (\<lambda>i. send_submit_result i True) ids s1), ev)))
       else if msg_type f = Some MtSubmitSharesError then
         (case parse_submit_error_seq l f of
            None \<Rightarrow> (rs, [])
          | Some seq \<Rightarrow>
              (let (found, rest) = remove_seq (us_pending_submits (tr_state r)) seq;
                   r1 = r\<lparr>tr_state := (tr_state r)\<lparr>us_pending_submits := rest\<rparr>\<rparr>
               in ((r1, case found of Some i \<Rightarrow> send_submit_result i False s | None \<Rightarrow> s), [])))
       else (rs, [])))"

section \<open>Lemmas\<close>

lemma drain_acked_append:
  "drain_acked q k = (ids, rest) \<Longrightarrow> \<exists>acked. q = acked @ rest \<and> ids = map snd acked
     \<and> (\<forall>(seq, i)\<in>set acked. seq \<le> k) \<and> (rest = [] \<or> \<not> fst (hd rest) \<le> k)"
proof (induction q k arbitrary: ids rest rule: drain_acked.induct)
  case (1 k)
  then show ?case by simp
next
  case (2 seq i q k)
  show ?case
  proof (cases "seq \<le> k")
    case True
    obtain ids' rest' where d: "drain_acked q k = (ids', rest')" by fastforce
    from "2.IH" [OF True d] obtain acked where "q = acked @ rest'" "ids' = map snd acked"
      "\<forall>(seq, i)\<in>set acked. seq \<le> k" "rest' = [] \<or> \<not> fst (hd rest') \<le> k"
      by blast
    with "2.prems" True d show ?thesis by (intro exI [of _ "(seq, i) # acked"]) auto
  next
    case False
    with "2.prems" show ?thesis by (intro exI [of _ "[]"]) auto
  qed
qed

lemma remove_seq_spec:
  assumes "distinct (map fst q)"
  shows "remove_seq q seq = (map_of q seq, filter (\<lambda>(k, _). k \<noteq> seq) q)"
  using assms
proof (induction q)
  case Nil
  show ?case by (simp add: remove_seq_def)
next
  case (Cons e q)
  obtain k i where e: "e = (k, i)" by (cases e)
  show ?case
  proof (cases "k = seq")
    case True
    with Cons.prems e have "filter (\<lambda>(k, _). k \<noteq> seq) q = q"
      by (force simp: filter_id_conv)
    with True e show ?thesis by (simp add: remove_seq_def list_remove_at_def)
  next
    case False
    from Cons have ih: "remove_seq q seq = (map_of q seq, filter (\<lambda>(k, _). k \<noteq> seq) q)"
      by simp
    show ?thesis
    proof (cases "position (\<lambda>(k, _). k = seq) q")
      case None
      with ih False e show ?thesis by (auto simp: remove_seq_def)
    next
      case (Some pos)
      with ih False e show ?thesis by (auto simp: remove_seq_def list_remove_at_def)
    qed
  qed
qed

end
