(* ===== verification/Gen_Guard.thy ===== *)
theory Gen_Guard
  imports Accounting
begin

text \<open>
  The contract of a reader task with its session: every message it hands over carries the
  generation of the upstream it was read from; a message of another generation than the
  session's current one changes nothing and credits nothing, and no message changes the
  generation. What follows for any interleaving of the messages of any number of readers.
\<close>

locale gen_guard =
  fixes current :: "'s \<Rightarrow> u64"
    and react :: "u64 \<Rightarrow> 'm \<Rightarrow> 's \<Rightarrow> 's \<times> acct_event list"
  assumes stale: "g \<noteq> current s \<Longrightarrow> react g m s = (s, [])"
    and keeps: "current (fst (react g m s)) = current s"
begin

fun deliver :: "(u64 \<times> 'm) list \<Rightarrow> 's \<Rightarrow> 's \<times> acct_event list" where
  "deliver [] s = (s, [])"
| "deliver ((g, m) # ms) s =
     (let (s1, e1) = react g m s; (s2, e2) = deliver ms s1 in (s2, e1 @ e2))"

lemma deliver_current: "current (fst (deliver ms s)) = current s"
proof (induction ms arbitrary: s)
  case Nil
  show ?case by simp
next
  case (Cons e ms)
  obtain g m where e: "e = (g, m)" by (cases e)
  from Cons.IH [of "fst (react g m s)"] show ?case
    by (simp add: e keeps split_def Let_def)
qed

lemma deliver_only_current:
  "deliver ms s = deliver (filter (\<lambda>(g, _). g = current s) ms) s"
proof (induction ms arbitrary: s)
  case Nil
  show ?case by simp
next
  case (Cons e ms)
  obtain g m where e: "e = (g, m)" by (cases e)
  show ?case
  proof (cases "g = current s")
    case True
    have "current (fst (react g m s)) = current s" by (rule keeps)
    with Cons.IH [of "fst (react g m s)"] True show ?thesis
      by (simp add: e split_def Let_def)
  next
    case False
    with Cons.IH [of s] stale [OF False] show ?thesis by (simp add: e)
  qed
qed

lemma deliver_all_stale:
  assumes "\<forall>(g, m)\<in>set ms. g \<noteq> current s"
  shows "deliver ms s = (s, [])"
proof -
  from assms have "filter (\<lambda>(g, _). g = current s) ms = []"
    by (auto simp: filter_empty_conv)
  then show ?thesis using deliver_only_current [of ms s] by simp
qed

end

end
