(* ===== verification/Sv1_Conn.thy ===== *)
theory Sv1_Conn
  imports Sv1_Translate Sellers Gen_Guard
begin

text \<open>
  \<open>src/proto/relay.rs\<close>, \<open>handle_seller_miner\<close>: one SV1 miner connection from accept to
  teardown. The connection is a state machine over three phases: the main loop, the grace
  window after an authorize that needs a switch (waiting for the miner's
  \<open>mining.extranonce.subscribe\<close>), and closed.
\<close>

section \<open>State and environment\<close>

datatype phase =
    Serving
  | Grace string "order option" upstream_target
  | Closed

record sv1_world =
  w_session :: sv1_session
  w_handle :: any_session
  w_ip :: string
  w_phase :: phase
  w_registry :: registry
  w_hints :: "(string \<times> (upstream_target \<times> instant)) list"

record sv1_env =
  e_lib :: lib
  e_net :: net
  e_db :: db_oracle
  e_now_ms :: i64
  e_now :: instant
  e_orders :: order_store
  e_sellers :: seller_store

datatype miner_event = MinerLine line | MinerEof | MinerError | GraceDeadline

definition reconnect_hint_ttl :: int where
  "reconnect_hint_ttl = 120000000000"

definition with_session :: "(sv1_session \<Rightarrow> sv1_session) \<Rightarrow> sv1_world \<Rightarrow> sv1_world" where
  "with_session f w = w\<lparr>w_session := f (w_session w)\<rparr>"

definition reply_miner :: "rpc_message \<Rightarrow> sv1_world \<Rightarrow> sv1_world" where
  "reply_miner m w = with_session (send_miner (to_line m)) w"

section \<open>Accept\<close>

datatype start_error = NoBootstrap | StartFailed net_error

definition take_hint :: "instant \<Rightarrow> string \<Rightarrow> (string \<times> (upstream_target \<times> instant)) list
    \<Rightarrow> upstream_target option \<times> (string \<times> (upstream_target \<times> instant)) list" where
  "take_hint now ip hints =
     ((case map_of hints ip of
         Some (t, seen) \<Rightarrow> if duration_since now seen < reconnect_hint_ttl then Some t else None
       | None \<Rightarrow> None),
      AList.delete ip hints)"

definition accept_miner :: "sv1_env \<Rightarrow> string \<Rightarrow> nat \<Rightarrow> upstream_target option \<Rightarrow> registry
    \<Rightarrow> (string \<times> (upstream_target \<times> instant)) list \<Rightarrow> start_error + sv1_world" where
  "accept_miner e peer handle default_target reg hints =
     (let ip = peer_ip peer;
          (resolved, hints') = take_hint (e_now e) ip hints
      in case (case resolved of Some t \<Rightarrow> Some t | None \<Rightarrow> default_target) of
           None \<Rightarrow> Inl NoBootstrap
         | Some target \<Rightarrow>
             (case connect_raw (e_lib e) (e_net e) target None (t_user target) of
                Inl err \<Rightarrow> Inl (StartFailed err)
              | Inr raw \<Rightarrow>
                  (let s0 = (new_session peer target)\<lparr>s1_generation_counter := 1\<rparr>
                   in Inr \<lparr>w_session = snd (install_raw (e_lib e) raw 1 target Idle s0),
                        w_handle = Sv1 handle, w_ip = ip, w_phase = Serving,
                        w_registry = reg, w_hints = hints'\<rparr>)))"

section \<open>Handshake messages\<close>

definition on_configure :: "rpc_message \<Rightarrow> sv1_world \<Rightarrow> sv1_world" where
  "on_configure m w =
     reply_miner (rpc_reply (m_id m)
         (JObj [(''version-rolling'', JBool True), (''version-rolling.mask'', JStr sv1_rolling_mask)]) JNull)
       (with_session (\<lambda>s. s\<lparr>s1_configure := Some m\<rparr>) w)"

definition on_subscribe :: "rpc_message \<Rightarrow> sv1_world \<Rightarrow> sv1_world" where
  "on_subscribe m w =
     (let s = w_session w;
          s1 = send_miner (to_line (rpc_reply (m_id m)
             (JArr [JArr [JArr [JStr ''mining.set_difficulty'', JStr ''1''],
                          JArr [JStr ''mining.notify'', JStr ''1'']],
                    JStr (s1_extranonce1 s), JInt (uint (s1_extranonce2_size s))]) JNull)) s;
          prelude = s1_prelude s1;
          s2 = s1\<lparr>s1_subscribed := True, s1_prelude := []\<rparr>
      in w\<lparr>w_session := fold send_miner prelude s2\<rparr>)"

definition on_extranonce_subscribe :: "rpc_message \<Rightarrow> sv1_world \<Rightarrow> sv1_world" where
  "on_extranonce_subscribe m w =
     reply_miner (rpc_reply (m_id m) (JBool True) JNull)
       (with_session (\<lambda>s. s\<lparr>s1_capable := True\<rparr>) w)"

section \<open>Authorize\<close>

definition live_switch :: "sv1_env \<Rightarrow> order option \<Rightarrow> upstream_target \<Rightarrow> sv1_session \<Rightarrow> sv1_session" where
  "live_switch e ord want s = (case ord of
       Some o' \<Rightarrow> snd (switch_to (e_lib e) (e_net e) (o_id o') (o_target o') s)
     | None \<Rightarrow> snd (set_default (e_lib e) (e_net e) want s))"

definition finish_grace :: "sv1_env \<Rightarrow> order option \<Rightarrow> upstream_target \<Rightarrow> sv1_world \<Rightarrow> sv1_world" where
  "finish_grace e ord want w =
     (if s1_capable (w_session w)
      then (with_session (live_switch e ord want) w)\<lparr>w_phase := Serving\<rparr>
      else (reply_miner (client_reconnect [] 0 1)
              (w\<lparr>w_hints := AList.update (w_ip w) (want, e_now e) (w_hints w)\<rparr>))
           \<lparr>w_phase := Closed\<rparr>)"

text \<open>An admitted worker: the session's label, its registry entry, the reply. (The dash in the
  rejection text below is an em dash in the source; strings here are ASCII.)\<close>

definition admit :: "rpc_message \<Rightarrow> string \<Rightarrow> sv1_world \<Rightarrow> sv1_world" where
  "admit m worker w =
     (let w1 = with_session (\<lambda>s. s\<lparr>s1_label := worker\<rparr>) w;
          w2 = w1\<lparr>w_registry := insert_session worker (w_handle w1) (w_registry w1)\<rparr>
      in reply_miner (rpc_reply (m_id m) (JBool True) JNull) w2)"

text \<open>Where an admitted worker is routed: nowhere else when it is on its pool already, to its
  pool when it can be re-pointed, into the grace window otherwise.\<close>

definition route_admitted :: "sv1_env \<Rightarrow> string \<Rightarrow> order option \<Rightarrow> upstream_target \<Rightarrow> sv1_world
    \<Rightarrow> sv1_world" where
  "route_admitted e worker ord want w =
     (if s1_target (w_session w) = want
      then (case ord of
              Some o' \<Rightarrow> with_session (attach_order (o_id o')) w
            | None \<Rightarrow> w)
      else if s1_capable (w_session w) then finish_grace e ord want w
      else w\<lparr>w_phase := Grace worker ord want\<rparr>)"

text \<open>What becomes of an authorize, given the worker's order and rig as they were looked up.\<close>

definition authorize_resolved :: "sv1_env \<Rightarrow> rpc_message \<Rightarrow> string \<Rightarrow> order option \<Rightarrow> upstream_target option
    \<Rightarrow> sv1_world \<Rightarrow> sv1_world" where
  "authorize_resolved e m worker ord rig w =
     (if ord = None \<and> rig = None then
        (reply_miner (rpc_reply (m_id m) (JBool False)
           (JArr [JInt 24, JStr ''unregistered worker - register the rig first'', JNull])) w)
        \<lparr>w_phase := Closed\<rparr>
      else
       (let w' = admit m worker w
        in case (case ord of Some o' \<Rightarrow> Some (o_target o') | None \<Rightarrow> rig) of
             None \<Rightarrow> w'
           | Some want \<Rightarrow> route_admitted e worker ord want w'))"

definition on_authorize :: "sv1_env \<Rightarrow> rpc_message \<Rightarrow> string \<Rightarrow> sv1_world \<Rightarrow> sv1_world" where
  "on_authorize e m worker w =
     (let ord = active_for_worker (e_db e) worker (e_now_ms e) (e_orders e);
          rig = default_pool (e_db e) (e_sellers e) worker
      in authorize_resolved e m worker ord rig w)"

definition auth_worker :: "rpc_message \<Rightarrow> string option" where
  "auth_worker m = (if m_method m = Some ''mining.authorize''
     then Option.bind (jfirst (m_params m)) as_str else None)"

section \<open>The loop\<close>

text \<open>A message of the miner. Share accounting goes to the order store.\<close>

definition forward_miner :: "rpc_message \<Rightarrow> sv1_world \<Rightarrow> sv1_world \<times> acct_event list" where
  "forward_miner m w = (let (s', ev) = on_miner_msg m (w_session w) in (w\<lparr>w_session := s'\<rparr>, ev))"

definition serve_msg :: "sv1_env \<Rightarrow> rpc_message \<Rightarrow> sv1_world \<Rightarrow> sv1_world \<times> acct_event list" where
  "serve_msg e m w =
     (if m_method m = Some ''mining.configure'' then (on_configure m w, [])
      else if m_method m = Some ''mining.subscribe'' then (on_subscribe m w, [])
      else if m_method m = Some ''mining.extranonce.subscribe'' then (on_extranonce_subscribe m w, [])
      else case auth_worker m of
          Some worker \<Rightarrow> (on_authorize e m worker w, [])
        | None \<Rightarrow> forward_miner m w)"

definition grace_msg :: "sv1_env \<Rightarrow> order option \<Rightarrow> upstream_target \<Rightarrow> rpc_message \<Rightarrow> sv1_world
    \<Rightarrow> sv1_world \<times> acct_event list" where
  "grace_msg e ord want m w =
     (if m_method m = Some ''mining.extranonce.subscribe''
      then (finish_grace e ord want (on_extranonce_subscribe m w), [])
      else forward_miner m w)"

text \<open>
  One step of the connection's task. In the main loop the reconnect signal is polled first
  and ends the connection; a blank or unparseable line is skipped; the end of the stream or
  a read error ends it. In the grace window only the miner's lines and the deadline count,
  and anything but a line ends the window.
\<close>

definition sv1_step :: "sv1_env \<Rightarrow> miner_event \<Rightarrow> sv1_world \<Rightarrow> sv1_world \<times> acct_event list" where
  "sv1_step e ev w = (case w_phase w of
       Closed \<Rightarrow> (w, [])
     | Serving \<Rightarrow>
         (if s1_reconnect (w_session w)
          then ((with_session (\<lambda>s. s\<lparr>s1_reconnect := False\<rparr>) w)\<lparr>w_phase := Closed\<rparr>, [])
          else case ev of
              MinerLine wl \<Rightarrow> (case rpc_parse wl of None \<Rightarrow> (w, []) | Some m \<Rightarrow> serve_msg e m w)
            | GraceDeadline \<Rightarrow> (w, [])
            | _ \<Rightarrow> (w\<lparr>w_phase := Closed\<rparr>, []))
     | Grace worker ord want \<Rightarrow>
         (case ev of
            MinerLine wl \<Rightarrow> (case rpc_parse wl of None \<Rightarrow> (w, [])
              | Some m \<Rightarrow> grace_msg e ord want m w)
          | _ \<Rightarrow> (finish_grace e ord want w, [])))"

section \<open>Teardown\<close>

definition teardown :: "sv1_world \<Rightarrow> sv1_world" where
  "teardown w = w\<lparr>w_registry := remove_if (s1_label (w_session w)) (w_handle w) (w_registry w)\<rparr>"

section \<open>Reader guard\<close>

lemma on_upstream_msg_stale: "gen \<noteq> s1_generation s \<Longrightarrow> on_upstream_msg now gen m s = (None, s, [])"
  by (simp add: on_upstream_msg_def)

lemma upstream_line_stale: "gen \<noteq> s1_generation s \<Longrightarrow> upstream_line now gen wl s = (s, [])"
  by (simp add: upstream_line_def on_upstream_msg_stale split: option.split)

lemma note_low_ratio_generation [simp]: "s1_generation (note_low_ratio s) = s1_generation s"
  by (simp add: note_low_ratio_def)

lemma send_miner_generation [simp]: "s1_generation (send_miner wl s) = s1_generation s"
  by (simp add: send_miner_def)

lemma on_upstream_response_generation [simp]:
  "s1_generation (fst (on_upstream_response now gen m s)) = s1_generation s"
  by (auto simp: on_upstream_response_def credit_one_def Let_def split: option.split prod.split)

lemma on_upstream_msg_generation [simp]:
  "s1_generation (fst (snd (on_upstream_msg now gen m s))) = s1_generation s"
  using on_upstream_response_generation [of now gen m s]
  by (auto simp: on_upstream_msg_def Let_def split: option.split prod.split)

lemma upstream_line_generation: "s1_generation (fst (upstream_line now gen wl s)) = s1_generation s"
proof (cases "rpc_parse wl")
  case None
  then show ?thesis by (simp add: upstream_line_def)
next
  case (Some m)
  obtain out s' ev where u: "on_upstream_msg now gen m s = (out, s', ev)"
    by (cases "on_upstream_msg now gen m s")
  then have "s1_generation s' = s1_generation s"
    using on_upstream_msg_generation [of now gen m s] by simp
  with Some u show ?thesis by (cases out) (simp_all add: upstream_line_def)
qed

text \<open>What a reader of generation \<open>g\<close> does with a line read at time \<open>now\<close>.\<close>

definition sv1_react :: "u64 \<Rightarrow> instant \<times> line \<Rightarrow> sv1_session \<Rightarrow> sv1_session \<times> acct_event list" where
  "sv1_react g e s = upstream_line (fst e) g (snd e) s"

lemma sv1_react_pair [simp]: "sv1_react g (now, wl) s = upstream_line now g wl s"
  by (simp add: sv1_react_def)

interpretation sv1_reader: gen_guard s1_generation sv1_react
  by unfold_locales (simp_all add: sv1_react_def upstream_line_stale upstream_line_generation)

end
