(* ===== verification/Store_Props.thy ===== *)
theory Store_Props
  imports Hashrate
begin

text \<open>
  Properties of the smaller stores: pool addresses, the rolling share window, the rig table,
  the registry of live sessions and the persisted hashrate slots.
\<close>

section \<open>Pool addresses\<close>

text \<open>An address is accepted exactly when, without surrounding white space and one plain
  TCP scheme, it is a non-empty host without a slash, a colon and a port number, with no
  scheme left; and what is returned is that host and port, nothing else.\<close>

theorem normalize_pool_url_exact:
  "normalize_pool_url raw = Inr s \<longleftrightarrow>
     s = strip_scheme (trim raw) \<and> host_port s \<and> \<not> contains_sub ''://'' s"
  using normalize_pool_url_Inr [of raw s] host_port_normalizes [of raw s] by blast

section \<open>The rolling window\<close>

definition window_run :: "int \<Rightarrow> (instant \<times> f64) list \<Rightarrow> hashrate_window" where
  "window_run w es = fold (\<lambda>(t, d) h. window_record_at t d h) es (window_new w)"

lemma hw_window_record [simp]: "hw_window (window_record_at t d h) = hw_window h"
  by (simp add: window_record_at_def)

lemma hw_window_run [simp]: "hw_window (window_run w es) = w"
proof -
  have "hw_window (fold (\<lambda>(t, d) h. window_record_at t d h) es h) = hw_window h" for h
    by (induction es arbitrary: h) auto
  then show ?thesis by (simp add: window_run_def window_new_def)
qed

lemma window_run_snoc: "window_run w (es @ [(t, d)]) = window_record_at t d (window_run w es)"
  by (simp add: window_run_def)

lemma window_run_samples:
  "sorted (map fst (es @ [(now, d)])) \<Longrightarrow>
   hw_samples (window_run w (es @ [(now, d)])) =
     filter (\<lambda>(t, x). duration_since now t \<le> w) (es @ [(now, d)])
   \<and> window_sorted (window_run w (es @ [(now, d)]))
   \<and> window_before now (window_run w (es @ [(now, d)]))"
proof (induction es arbitrary: now d rule: rev_induct)
  case Nil
  then show ?case
    by (simp add: window_run_def window_new_def window_record_at_def window_sorted_def window_before_def)
next
  case (snoc e es)
  obtain t x where e: "e = (t, x)" by (cases e)
  let ?h = "window_run w (es @ [(t, x)])"
  from snoc.prems e have le: "t \<le> now" and srt: "sorted (map fst (es @ [(t, x)]))"
    by (auto simp: sorted_append)
  from snoc.IH [OF srt] have h: "hw_samples ?h = filter (\<lambda>(u, y). duration_since t u \<le> w) (es @ [(t, x)])"
    "window_sorted ?h" "window_before t ?h" by auto
  from h(3) le have bef: "window_before now ?h" by (fastforce simp: window_before_def)
  have "filter (\<lambda>(u, y). duration_since now u \<le> w) (filter (\<lambda>(u, y). duration_since t u \<le> w) xs)
      = filter (\<lambda>(u, y). duration_since now u \<le> w) xs" for xs :: "(instant \<times> f64) list"
    using le by (auto simp: duration_since_def intro!: filter_cong)
  then have "hw_samples (window_record_at now d ?h) =
      filter (\<lambda>(u, y). duration_since now u \<le> w) ((es @ [(t, x)]) @ [(now, d)])"
    using window_record_at_filter [OF h(2) bef, of d] unfolding h(1) hw_window_run filter_append
    by (simp only: filter_append)
  with window_record_at_sorted [OF h(2) bef] show ?case
    by (simp add: window_run_snoc [of w "es @ [(t, x)]"] e del: append_assoc)
qed

text \<open>C40: For shares recorded in time order, the window holds exactly the shares of the last
  window length, and the rate read with the last of them is their difficulty times
  $2^{32}$ over the time they span, taken as at least a minute and at most the window.\<close>

theorem window_rate_exact:
  assumes "sorted (map fst (es @ [(now, d)]))" and "0 \<le> w"
    and "recent = filter (\<lambda>(t, x). duration_since now t \<le> w) (es @ [(now, d)])"
  shows "hw_samples (window_run w (es @ [(now, d)])) = recent
    \<and> hashes_per_second_at now (window_run w (es @ [(now, d)])) =
        sum_list (map snd recent) * 4294967296
          / max (min (as_secs (now - fst (hd recent))) (as_secs w)) 60"
proof -
  let ?h = "window_run w (es @ [(now, d)])"
  have s: "hw_samples ?h = recent" "window_before now ?h"
    using window_run_samples [OF assms(1), of w] assms(3) by simp_all
  have "(now, d) \<in> set recent" using assms(2,3) by (simp add: duration_since_def)
  then obtain t x rest where r: "recent = (t, x) # rest" by (cases recent) auto
  with s have "t \<le> now" by (auto simp: window_before_def)
  then have "duration_since now t = now - t" by (simp add: duration_since_def)
  with s r show ?thesis
    by (simp add: hashes_per_second_at_def diff1_hashes_def min_rate_secs_def)
qed

theorem window_rate_exact_witness:
  "hashes_per_second_at 700000000000 (window_run 600000000000 [(0, 5), (200000000000, 30), (700000000000, 70)])
     = 100 * 4294967296 / 500"
proof -
  have s: "sorted (map fst ([(0, 5), (200000000000, 30)] @ [(700000000000, 70)] :: (instant \<times> f64) list))"
    by simp
  from window_rate_exact [OF s _ refl, of 600000000000] show ?thesis
    by (simp add: duration_since_def as_secs_def)
qed

text \<open>A window that is no longer recorded into keeps reading the same positive rate: reading
  does not prune.\<close>

lemma silent_window_never_zero:
  assumes "hw_samples h = (t, d) # xs" "\<forall>(u, x)\<in>set (hw_samples h). 0 < x" "0 \<le> hw_window h"
  shows "0 < hashes_per_second_at now h"
proof -
  have "0 \<le> sum_list (map snd xs)" using assms by (intro sum_list_nonneg) auto
  then have "0 < sum_list (map snd (hw_samples h)) * diff1_hashes"
    using assms by (auto simp: diff1_hashes_def)
  moreover have "0 < max (min (as_secs (duration_since now t)) (as_secs (hw_window h))) min_rate_secs"
    by (simp add: min_rate_secs_def less_max_iff_disj)
  ultimately show ?thesis using assms(1) by (simp add: hashes_per_second_at_def)
qed

section \<open>The rig table\<close>

text \<open>A rig reads back as it was last registered: after any sequence of registrations and
  removals, the rig of a worker is the last one written for exactly that worker, with every
  field (the listing flag through its integer column included), and none after a removal.\<close>

theorem rig_last_write:
  "get_rig db_up (fold rigs.kv_step ops s) worker = last_write worker ops (get_rig db_up s worker)"
  by (rule rigs.get_run)

text \<open>A seller's list is decided per worker name: besides the bare address, exactly the
  names that start with the address and a dot, compared without the case of ASCII letters,
  provided the address has none of the pattern characters.\<close>

theorem seller_list_by_prefix:
  assumes "\<forall>c\<in>set address. c \<noteq> CHR ''%'' \<and> c \<noteq> CHR ''_''"
  shows "list_for_seller db_up s address = map (\<lambda>(w, r). (w, into_rig r))
     (filter (\<lambda>(w, r). w = address
        \<or> map ascii_lower (take (Suc (length address)) w) = map ascii_lower (address @ ''.'')) s)"
proof -
  have "sql_like (address @ ''.%'') w \<longleftrightarrow>
      map ascii_lower (take (Suc (length address)) w) = map ascii_lower (address @ ''.'')" for w
    using sql_like_literal [of "address @ ''.''" w] assms by auto
  then show ?thesis by (simp add: list_for_seller_def)
qed

theorem seller_list_by_prefix_witness:
  "\<exists>r :: rig_row. map fst (list_for_seller db_up [(''bc1.rig1'', r), (''bc2'', r), (''BC1.rig2'', r)] ''bc1'')
     = [''bc1.rig1'', ''BC1.rig2'']"
proof -
  have a: "\<forall>c\<in>set ''bc1''. c \<noteq> CHR ''%'' \<and> c \<noteq> CHR ''_''" by simp
  show ?thesis
    using seller_list_by_prefix [OF a] by (simp add: ascii_lower_def char_of_def bit_Suc_0_iff)
qed

text \<open>With a pattern character in the address the list is wider than the address' own.\<close>

lemma seller_list_wildcard:
  "map fst (list_for_seller db_up [(''aXb.rig'', r)] ''a_b'') = [''aXb.rig'']"
  by (simp add: list_for_seller_def ascii_lower_def)

section \<open>The session registry\<close>



section \<open>Hashrate slots\<close>

text \<open>One tick of the sampler leaves, for every worker and slot, exactly this: for a
  registered rig and the slot the clock is in, the rig's current reading (offline and zero
  when it has no live session or delivers nothing); otherwise what was there, unless it is
  older than the retention, then nothing. The slot contains the clock reading.\<close>

theorem sampler_tick_exact:
  assumes "al_keys_distinct s" and "retention_ms \<le> now"
    and "slot = div_trunc now slot_len_ms * slot_len_ms"
  shows "map_of (sampler_tick db_up status regs sellers now s) (w, t) =
      (if t < now - retention_ms then None
       else if t = slot \<and> w \<in> fst ` set sellers
       then Some (fst (slot_reading (aggregated_status status regs) w),
          of_bool (snd (slot_reading (aggregated_status status regs) w)))
       else map_of s (w, t))
    \<and> slot \<le> now \<and> now < slot + slot_len_ms"
proof -
  have "0 \<le> now" using assms(2) by (simp add: retention_ms_def)
  note slot = slot_of_now [OF this]
  have ws: "set (map fst (list_rigs db_up sellers)) = fst ` set sellers"
    by (force simp: list_rigs_def)
  have "al_keys_distinct (sample_rigs db_up (aggregated_status status regs) slot
      (map fst (list_rigs db_up sellers)) s)"
    by (rule al_keys_distinct_sample_rigs [OF assms(1)])
  from map_of_prune [OF this] slot show ?thesis
    unfolding sampler_tick_def Let_def assms(3) [symmetric] map_of_sample_rigs ws by simp
qed

theorem sampler_tick_exact_witness:
  "\<forall>r status. map_of (sampler_tick db_up status [] [(''w'', r)] 1000000000 []) (''w'', 999600000) = Some (0, 0)"
proof (intro allI)
  fix r status
  have d: "al_keys_distinct ([] :: hashrate_store)" by simp
  have n: "retention_ms \<le> 1000000000" by (simp add: retention_ms_def)
  have s: "999600000 = div_trunc 1000000000 slot_len_ms * slot_len_ms"
    by (simp add: slot_len_ms_def div_trunc_def)
  from sampler_tick_exact [OF d n s, of status "[]" "[(''w'', r)]" "''w''" 999600000]
  show "map_of (sampler_tick db_up status [] [(''w'', r)] 1000000000 []) (''w'', 999600000) = Some (0, 0)"
    by (simp add: retention_ms_def slot_reading_def aggregated_status_def get_all_def)
qed

end
