(* ===== verification/Boot.thy ===== *)
theory Boot
  imports Config_Detect Api_Reach Sv1_Conn Store_Props
begin

text \<open>
  The start of the process (\<open>src/main.rs\<close>, \<open>src/db.rs\<close>): configuration, state database, the tasks it
  spawns (as the shared state they work on), the two listeners, and the accept loop. What the
  database file holds and which addresses can be bound are arguments.
\<close>

section \<open>The database\<close>

record db_options =
  do_create_if_missing :: bool
  do_foreign_keys :: bool
  do_wal :: bool
  do_max_connections :: nat

definition db_connect_options :: "string \<Rightarrow> db_options" where
  "db_connect_options url =
     (let memory = contains_sub '':memory:'' url;
          opts = \<lparr>do_create_if_missing = True, do_foreign_keys = True, do_wal = False, do_max_connections = 0\<rparr>;
          opts' = (if \<not> memory then opts\<lparr>do_wal := True\<rparr> else opts)
      in opts'\<lparr>do_max_connections := (if memory then 1 else 5)\<rparr>)"

text \<open>The tables of the file after the migrations; \<open>None\<close> when it cannot be opened.\<close>

record tables =
  tb_orders :: "order_row list"
  tb_sellers :: seller_store
  tb_hashrate :: hashrate_store

section \<open>Start-up\<close>

definition unwrap_or :: "'a \<Rightarrow> 'a option \<Rightarrow> 'a" where
  "unwrap_or d x = (case x of Some v \<Rightarrow> v | None \<Rightarrow> d)"

datatype boot_error = OpenStateDb string | BindFailed string

text \<open>What runs once the process is up: the state the API and the tasks share, the address of the
  API, and what the accept loop gives each connection (\<open>ProxyContext\<close>).\<close>

record running =
  rn_app :: app_state
  rn_api_addr :: string
  rn_protocol :: protocol
  rn_default_target :: "upstream_target option"

definition main_start :: "(string \<Rightarrow> string option) \<Rightarrow> (string \<Rightarrow> db_options \<Rightarrow> tables option)
    \<Rightarrow> (string \<Rightarrow> bool) \<Rightarrow> boot_error + running" where
  "main_start env open_db bind =
     (let cfg = from_env env;
          db_url = unwrap_or ''sqlite://rental-proxy.db'' (env ''RENTAL_PROXY_DB'')
      in case open_db db_url (db_connect_options db_url) of
           None \<Rightarrow> Inl (OpenStateDb db_url)
         | Some t \<Rightarrow>
             (let api_token = unwrap_or [] (env ''RENTAL_PROXY_API_TOKEN'');
                  api_addr = unwrap_or ''127.0.0.1:8080'' (env ''RENTAL_PROXY_API'');
                  state = \<lparr>as_registry = registry_new, as_sellers = tb_sellers t,
                    as_orders = order_store_new (tb_orders t) 0, as_hashrate = tb_hashrate t,
                    as_token = api_token\<rparr>
              in if \<not> bind (cfg_listen cfg) then Inl (BindFailed (cfg_listen cfg))
                 else Inr \<lparr>rn_app = state, rn_api_addr = api_addr, rn_protocol = cfg_protocol cfg,
                   rn_default_target = cfg_default_upstream cfg\<rparr>))"

section \<open>The accept loop\<close>

text \<open>One outcome of \<open>accept\<close>: an error, or a connection with the outcome of its peek. A failed
  accept is skipped; a connection's own failure ends its task only, so the loop serves all.\<close>

datatype accepted = AcceptFailed | Connection string "unit + u8 option"

fun accept_all :: "protocol \<Rightarrow> accepted list \<Rightarrow> (string \<times> adapter) list" where
  "accept_all p [] = []"
| "accept_all p (AcceptFailed # xs) = accept_all p xs"
| "accept_all p (Connection peer peek # xs) =
     (case accept_dispatch p peek of
        None \<Rightarrow> accept_all p xs
      | Some a \<Rightarrow> (peer, a) # accept_all p xs)"

text \<open>Every connection that can be classified is served, whatever fails before it.\<close>

lemma accept_all_serves:
  "(peer, a) \<in> set (accept_all p xs) \<longleftrightarrow>
     (\<exists>peek. Connection peer peek \<in> set xs \<and> accept_dispatch p peek = Some a)"
  by (induction p xs rule: accept_all.induct) (auto split: option.split)

section \<open>An unconfigured proxy is closed\<close>

text \<open>A token a bearer header can present: trimmed, as the header's value is.\<close>

lemma untrimmed_token_rejects:
  assumes "req \<noteq> Health" and "as_token s = [] \<or> trim (as_token s) \<noteq> as_token s"
  shows "\<exists>err. router e hdr req s = (Inl err, s, [])"
proof -
  have "require_bearer hdr s \<noteq> Inr ()"
  proof
    assume ok: "require_bearer hdr s = Inr ()"
    then have "as_token s \<noteq> []" by (auto simp: require_bearer_def split: if_splits)
    with ok have "(case Option.bind hdr (strip_prefix ''Bearer '') of None \<Rightarrow> [] | Some v \<Rightarrow> trim v)
        = as_token s"
      by (auto simp: require_bearer_def Let_def ct_eq_def ct_loop_zero as_bytes_inj split: if_splits)
    with \<open>as_token s \<noteq> []\<close> have "trim (as_token s) = as_token s"
      by (metis (no_types, lifting) option.case_eq_if trim_trim)
    with assms(2) \<open>as_token s \<noteq> []\<close> show False by blast
  qed
  then obtain err where "require_bearer hdr s = Inl err" by (cases "require_bearer hdr s") auto
  with assms(1) show ?thesis by (simp add: router_def)
qed

lemma main_start_Inr:
  assumes "main_start env open_db bind = Inr rn"
  shows "as_token (rn_app rn) = unwrap_or [] (env ''RENTAL_PROXY_API_TOKEN'')"
    "rn_protocol rn = cfg_protocol (from_env env)"
    "rn_default_target rn = cfg_default_upstream (from_env env)"
    "as_registry (rn_app rn) = registry_new"
    "\<exists>rows. as_orders (rn_app rn) = order_store_new rows 0"
    "rn_api_addr rn = unwrap_or ''127.0.0.1:8080'' (env ''RENTAL_PROXY_API'')"
  using assms by (auto simp: main_start_def Let_def split: option.splits if_splits)

lemma no_bootstrap: "env ''RENTAL_PROXY_POOL_URL'' = None \<Longrightarrow> cfg_default_upstream (from_env env) = None"
  by (simp add: from_env_def config_default_def Let_def split: option.split)

text \<open>C29: A proxy nobody configured is closed. Without an API token (unset or empty), or with one
  that has blanks around it, every request but the health check is refused and changes nothing,
  whatever it presents; without \<open>RENTAL_PROXY_API\<close> the API listens on the loopback address
  only. Without a pool URL, an SV1 miner that is not back within the lifetime of a reconnect
  hint is not served, and no pool is contacted for it.\<close>

theorem unconfigured_proxy_is_closed:
  assumes "main_start env open_db bind = Inr rn"
  shows "(env ''RENTAL_PROXY_API_TOKEN'' = None \<or> env ''RENTAL_PROXY_API_TOKEN'' = Some []
        \<or> (\<exists>tok. env ''RENTAL_PROXY_API_TOKEN'' = Some tok \<and> trim tok \<noteq> tok)
      \<longrightarrow> (\<forall>e hdr req. req \<noteq> Health \<longrightarrow> (\<exists>err. router e hdr req (rn_app rn) = (Inl err, rn_app rn, []))))
    \<and> (env ''RENTAL_PROXY_API'' = None \<longrightarrow> rn_api_addr rn = ''127.0.0.1:8080'')
    \<and> (env ''RENTAL_PROXY_POOL_URL'' = None \<longrightarrow>
        (\<forall>(e :: sv1_env) peer h reg hints. fst (take_hint (e_now e) (peer_ip peer) hints) = None \<longrightarrow>
           accept_miner e peer h (rn_default_target rn) reg hints = Inl NoBootstrap))"
proof (intro conjI impI allI)
  note m = main_start_Inr [OF assms]
  fix e hdr req
  assume "env ''RENTAL_PROXY_API_TOKEN'' = None \<or> env ''RENTAL_PROXY_API_TOKEN'' = Some []
      \<or> (\<exists>tok. env ''RENTAL_PROXY_API_TOKEN'' = Some tok \<and> trim tok \<noteq> tok)" "req \<noteq> Health"
  then show "\<exists>err. router e hdr req (rn_app rn) = (Inl err, rn_app rn, [])"
    by (intro untrimmed_token_rejects) (auto simp: m unwrap_or_def)
next
  show "rn_api_addr rn = ''127.0.0.1:8080''" if "env ''RENTAL_PROXY_API'' = None"
    using main_start_Inr(6) [OF assms] that by (simp add: unwrap_or_def)
next
  fix e :: sv1_env and peer h reg hints
  assume "env ''RENTAL_PROXY_POOL_URL'' = None" "fst (take_hint (e_now e) (peer_ip peer) hints) = None"
  then show "accept_miner e peer h (rn_default_target rn) reg hints = Inl NoBootstrap"
    using main_start_Inr(3) [OF assms] no_bootstrap by (simp add: accept_miner_def split_def Let_def)
qed

definition bare_env :: "string \<Rightarrow> string option" where
  "bare_env v = None"

definition empty_file :: "string \<Rightarrow> db_options \<Rightarrow> tables option" where
  "empty_file url opts = Some \<lparr>tb_orders = [], tb_sellers = [], tb_hashrate = []\<rparr>"

theorem unconfigured_proxy_is_closed_witness:
  "\<exists>rn. main_start bare_env empty_file (\<lambda>a. a = ''0.0.0.0:3333'') = Inr rn
     \<and> rn_protocol rn = ProtoSv1 \<and> rn_api_addr rn = ''127.0.0.1:8080''
     \<and> (\<exists>err. router demo_env (Some ''Bearer '') ListOrders (rn_app rn) = (Inl err, rn_app rn, []))"
proof -
  obtain rn where rn: "main_start bare_env empty_file (\<lambda>a. a = ''0.0.0.0:3333'') = Inr rn"
    "rn_protocol rn = ProtoSv1"
    by (simp add: main_start_def bare_env_def empty_file_def from_env_def config_default_def Let_def)
  from unconfigured_proxy_is_closed [OF rn(1)] rn show ?thesis
    by (auto simp: bare_env_def)
qed

text \<open>The started state is one of those every invariant of the control plane covers.\<close>

lemma started_reach:
  assumes "main_start env empty_file bind = Inr rn"
  shows "api_reach (rn_app rn)"
  using assms api_reach.boot [of 0 "unwrap_or [] (env ''RENTAL_PROXY_API_TOKEN'')"]
  by (auto simp: main_start_def empty_file_def Let_def split: option.splits if_splits)

end
