(* ===== verification/Lean_Build.thy ===== *)
theory Lean_Build
  imports Boot Sv1_Relay
begin

text \<open>
  The build without the \<open>sv2\<close> feature (\<open>src/proto/sv2.rs\<close>, the stub, and \<open>connect_raw\<close> of
  \<open>src/proto/relay.rs\<close>). Every other theory is about the build with it. Without it an SV2 miner is
  refused with an error and an SV1 session only ever mines on SV1 pools, unchanged otherwise.
\<close>

definition stub_error :: "string \<Rightarrow> string" where
  "stub_error peer = ''SV2 selected but this binary was built without the `sv2` feature (peer '' @ peer
     @ ''); rebuild with `--features sv2`, or run with RENTAL_PROXY_PROTOCOL=sv1.''"

text \<open>What becomes of an accepted connection: the error that is logged, or the relay that serves it.\<close>

definition serve_lean :: "adapter \<Rightarrow> string \<Rightarrow> string + adapter" where
  "serve_lean a peer = (case a of Sv1Adapter \<Rightarrow> Inr Sv1Adapter | Sv2Adapter \<Rightarrow> Inl (stub_error peer))"

text \<open>No probe, hence no time limit on it, and no fallback to a translated SV2 pool.\<close>

definition connect_raw_lean :: "net \<Rightarrow> upstream_target \<Rightarrow> rpc_message option \<Rightarrow> string
    \<Rightarrow> net_error + raw_upstream" where
  "connect_raw_lean n target configure user_identity =
     (case connect_upstream n target configure user_identity of
        Inl err \<Rightarrow> Inl err
      | Inr conn \<Rightarrow> Inr (RawSv1 conn))"

text \<open>On the shared port exactly the connections that do not start like a JSON line are refused; with
  the protocol fixed to SV2 all of them are, with it fixed to SV1 none.\<close>

lemma lean_refuses:
  assumes "accept_dispatch p peek = Some a"
  shows "isl (serve_lean a peer) \<longleftrightarrow> p = ProtoSv2
    \<or> (\<exists>b. p = ProtoBoth \<and> peek = Inr (Some b) \<and> b \<notin> {0x7B, 0x20, 0x0A, 0x0D})"
  using assms by (auto simp: accept_dispatch_def serve_lean_def detect_def split: protocol.splits sum.splits option.splits if_splits)

text \<open>A pool that answers as SV1 in time is connected alike by both builds; the lean one never
  translates.\<close>

lemma lean_connects:
  assumes "connect_raw_lean n target configure ident = Inr raw"
  shows "nt_sv1_in_time n (t_url target) \<Longrightarrow> connect_raw l n target configure ident = Inr raw"
    "\<not> s1_translating (snd (install_raw l raw gen t r s))"
  using assms
  by (auto simp: connect_raw_lean_def connect_raw_def install_raw_def split: sum.splits)

end
