(* ===== verification/Sv2_Core.thy ===== *)
theory Sv2_Core
  imports Sv1_Relay
begin

text \<open>
  \<open>src/proto/sv2/relay.rs\<close>, the state of a live SV2 rig (\<open>Inner\<close>): the channels of its
  member connections, the id maps between the miners and the shared upstream, the opens in
  flight, and the small operations on them. A member's sink is the list of frames it has been
  sent.
\<close>

section \<open>State\<close>

record sv2_channel =
  ch_down :: u32
  ch_up :: u32
  ch_spec :: open_spec
  ch_difficulty :: xf64
  ch_owner :: u32
  ch_up_group :: u32
  ch_down_group :: u32

record sv2_session =
  v2_generation :: u64
  v2_target :: upstream_target
  v2_to_up :: "out_frame list"
  v2_generation_counter :: u64
  v2_channels :: "sv2_channel list"
  v2_up_to_down :: "(u32 \<times> u32) list"
  v2_group_down :: "(u32 \<times> u32) list"
  v2_pending :: "(u32 \<times> (u32 \<times> open_spec)) list"
  v2_next_down_cid :: u32
  v2_next_up_req :: u32
  v2_members :: "(u32 \<times> out_frame list) list"
  v2_next_member_id :: u32
  v2_routing :: routing
  v2_default_target :: "upstream_target option"
  v2_hashrate :: hashrate_window
  v2_delivered_work :: f64
  v2_accepted :: u64
  v2_submitted :: u64
  v2_low_logged :: bool
  v2_label :: string
  v2_translating :: bool
  v2_supervised :: bool
  v2_idle_token :: u64
  v2_epoch :: u64
  v2_retrying :: bool

definition sv2_new :: "string \<Rightarrow> upstream_target \<Rightarrow> routing \<Rightarrow> upstream_target option \<Rightarrow> sv2_session" where
  "sv2_new worker target r default_target = \<lparr>v2_generation = 0, v2_target = target, v2_to_up = [],
     v2_generation_counter = 0, v2_channels = [], v2_up_to_down = [], v2_group_down = [],
     v2_pending = [], v2_next_down_cid = 1, v2_next_up_req = 1, v2_members = [],
     v2_next_member_id = 1, v2_routing = r, v2_default_target = default_target,
     v2_hashrate = window_new 600000000000, v2_delivered_work = 0, v2_accepted = 0,
     v2_submitted = 0, v2_low_logged = False, v2_label = worker, v2_translating = False,
     v2_supervised = False, v2_idle_token = 0, v2_epoch = 0, v2_retrying = False\<rparr>"

section \<open>Sending\<close>

definition send_member :: "u32 \<Rightarrow> out_frame \<Rightarrow> sv2_session \<Rightarrow> sv2_session" where
  "send_member member f s = (case map_of (v2_members s) member of
       None \<Rightarrow> s
     | Some sent \<Rightarrow> s\<lparr>v2_members := AList.update member (sent @ [f]) (v2_members s)\<rparr>)"

definition send_upstream :: "out_frame \<Rightarrow> sv2_session \<Rightarrow> sv2_session" where
  "send_upstream f s = s\<lparr>v2_to_up := v2_to_up s @ [f]\<rparr>"

text \<open>A frame whose builder may fail is sent when it was built.\<close>

definition send_built :: "u32 \<Rightarrow> out_frame option \<Rightarrow> sv2_session \<Rightarrow> sv2_session" where
  "send_built member f s = (case f of None \<Rightarrow> s | Some g \<Rightarrow> send_member member g s)"

section \<open>Channels and groups\<close>

definition find_up :: "u32 \<Rightarrow> sv2_session \<Rightarrow> sv2_channel option" where
  "find_up up s = List.find (\<lambda>c. ch_up c = up) (v2_channels s)"

definition up_for_down :: "u32 \<Rightarrow> sv2_session \<Rightarrow> u32 option" where
  "up_for_down down s = map_option ch_up (List.find (\<lambda>c. ch_down c = down) (v2_channels s))"

definition register_channel :: "sv2_channel \<Rightarrow> sv2_session \<Rightarrow> sv2_session" where
  "register_channel c s = s\<lparr>v2_up_to_down := AList.update (ch_up c) (ch_down c) (v2_up_to_down s),
     v2_channels := v2_channels s @ [c]\<rparr>"

fun add_new_pairs :: "('a \<times> 'b) list \<Rightarrow> ('a \<times> 'b) list \<Rightarrow> ('a \<times> 'b) list" where
  "add_new_pairs [] out = out"
| "add_new_pairs (p # ps) out = add_new_pairs ps (if p \<in> set out then out else out @ [p])"

definition group_recipients :: "u32 \<Rightarrow> sv2_session \<Rightarrow> (u32 \<times> u32) list" where
  "group_recipients up s = (if up = 0 then []
     else add_new_pairs (map (\<lambda>c. (ch_down_group c, ch_owner c))
            (filter (\<lambda>c. ch_up_group c = up \<and> is_extended (ch_spec c)) (v2_channels s))) [])"

definition add_member :: "sv2_session \<Rightarrow> u32 \<times> sv2_session" where
  "add_member s = (v2_next_member_id s,
     s\<lparr>v2_next_member_id := v2_next_member_id s + 1,
       v2_members := AList.update (v2_next_member_id s) [] (v2_members s)\<rparr>)"

definition member_for_up :: "u32 \<Rightarrow> sv2_session \<Rightarrow> u32 option" where
  "member_for_up up s = (case find_up up s of
       None \<Rightarrow> None
     | Some c \<Rightarrow> if map_of (v2_members s) (ch_owner c) = None then None else Some (ch_owner c))"

definition map_group :: "u32 \<Rightarrow> bool \<Rightarrow> sv2_session \<Rightarrow> u32 \<times> sv2_session" where
  "map_group up ext s =
     (if \<not> ext \<or> up = 0 then (up, s)
      else case map_of (v2_group_down s) up of
          Some down \<Rightarrow> (down, s)
        | None \<Rightarrow> (v2_next_down_cid s,
            s\<lparr>v2_next_down_cid := v2_next_down_cid s + 1,
              v2_group_down := AList.update up (v2_next_down_cid s) (v2_group_down s)\<rparr>))"

section \<open>Accounting\<close>

text \<open>The difficulty-weighted work of accepted shares. A Stratum V1 difficulty is a JSON number
  and a V2 one is computed from a target; neither is infinite or undefined.\<close>

definition share_work :: "xf64 \<Rightarrow> u32 \<Rightarrow> f64" where
  "share_work d count = (case d of Finite x \<Rightarrow> x * f64_of_u32 count | _ \<Rightarrow> 0)"

definition note_low_ratio2 :: "sv2_session \<Rightarrow> sv2_session" where
  "note_low_ratio2 s = (if \<not> v2_low_logged s \<and> accept_ratio_low (v2_accepted s) (v2_submitted s)
     then s\<lparr>v2_low_logged := True\<rparr> else s)"

definition credit_shares :: "instant \<Rightarrow> xf64 \<Rightarrow> u32 \<Rightarrow> sv2_session \<Rightarrow> sv2_session \<times> acct_event list" where
  "credit_shares now d count s =
     (let work = share_work d count;
          (s1, ev) = (if work > 0
            then (s\<lparr>v2_hashrate := window_record_at now work (v2_hashrate s),
                    v2_delivered_work := v2_delivered_work s + work,
                    v2_accepted := v2_accepted s + u64_of_u32 count\<rparr>,
                  case v2_routing s of Rented oid \<Rightarrow> [Credit oid work (u64_of_u32 count)] | Idle \<Rightarrow> [])
            else (s, []))
      in (note_low_ratio2 s1, ev))"

definition sv2_status :: "instant \<Rightarrow> sv2_session \<Rightarrow> session_status" where
  "sv2_status now s = \<lparr>st_worker = v2_label s, st_routing = routing_name (v2_routing s),
     st_order_id = routing_order (v2_routing s), st_upstream_url = t_url (v2_target s),
     st_hashrate_hs = hashes_per_second_at now (v2_hashrate s),
     st_delivered_work = v2_delivered_work s, st_accepted_shares = v2_accepted s,
     st_submitted_shares = v2_submitted s,
     st_accept_ratio = accept_ratio (v2_accepted s) (v2_submitted s),
     st_accept_ratio_low = accept_ratio_low (v2_accepted s) (v2_submitted s),
     st_protocol = ''sv2''\<rparr>"

section \<open>A frame of the shared upstream\<close>

definition is_open_success :: "mtype \<Rightarrow> bool" where
  "is_open_success mt = (mt = MtOpenExtendedMiningChannelSuccess
     \<or> mt = MtOpenStandardMiningChannelSuccess)"

text \<open>A pending open succeeded: a downstream id, the group, the channel, the miner's reply.\<close>

definition finish_open :: "lib \<Rightarrow> channel_info \<Rightarrow> u32 \<Rightarrow> open_spec \<Rightarrow> sv2_session \<Rightarrow> sv2_session" where
  "finish_open l info member sp s =
     (let down = v2_next_down_cid s;
          s1 = s\<lparr>v2_next_down_cid := v2_next_down_cid s + 1\<rparr>;
          (down_group, s2) = map_group (ci_group_channel_id info) (is_extended sp) s1;
          up_group = (if is_extended sp then ci_group_channel_id info else 0);
          s3 = register_channel \<lparr>ch_down = down, ch_up = ci_up_channel_id info, ch_spec = sp,
             ch_difficulty = Finite (difficulty_from_target l (ci_target info)), ch_owner = member,
             ch_up_group = up_group, ch_down_group = down_group\<rparr> s2
      in send_built member (open_success_downstream sp down down_group info) s3)"

definition on_open_success :: "lib \<Rightarrow> sv2_frame \<Rightarrow> sv2_session \<Rightarrow> sv2_session" where
  "on_open_success l f s = (case parse_open_success l f of
       None \<Rightarrow> s
     | Some info \<Rightarrow> (case map_of (v2_pending s) (ci_request_id info) of
           None \<Rightarrow> s
         | Some (member, sp) \<Rightarrow> finish_open l info member sp
             (s\<lparr>v2_pending := AList.delete (ci_request_id info) (v2_pending s)\<rparr>)))"

definition on_open_error :: "lib \<Rightarrow> sv2_frame \<Rightarrow> sv2_session \<Rightarrow> sv2_session" where
  "on_open_error l f s =
     (case Option.bind (parse_open_error_request_id l f)
             (\<lambda>req. map_option (Pair req) (map_of (v2_pending s) req)) of
        Some (req, member, sp) \<Rightarrow>
          send_built member (open_channel_error (request_id sp) ''upstream rejected channel open'')
            (s\<lparr>v2_pending := AList.delete req (v2_pending s)\<rparr>)
      | None \<Rightarrow> fold (\<lambda>m. send_member m (Fwd f)) (map fst (v2_members s)) s)"

text \<open>Vardiff: a new target changes the channel's share difficulty.\<close>

definition on_set_target :: "lib \<Rightarrow> sv2_frame \<Rightarrow> u32 \<Rightarrow> sv2_session \<Rightarrow> sv2_session" where
  "on_set_target l f up s = (case parse_set_target l f of
       None \<Rightarrow> s
     | Some t \<Rightarrow> s\<lparr>v2_channels := update_first (\<lambda>c. ch_up c = up)
          (\<lambda>c. c\<lparr>ch_difficulty := Finite (difficulty_from_target l t)\<rparr>) (v2_channels s)\<rparr>)"

definition on_submit_success :: "lib \<Rightarrow> instant \<Rightarrow> sv2_frame \<Rightarrow> u32 \<Rightarrow> sv2_session
    \<Rightarrow> sv2_session \<times> acct_event list" where
  "on_submit_success l now f up s =
     (let count = (case parse_accepted_count l f of Some n \<Rightarrow> n | None \<Rightarrow> 0);
          diff = (case find_up up s of Some c \<Rightarrow> ch_difficulty c | None \<Rightarrow> Finite 0)
      in credit_shares now diff count s)"

text \<open>Routing of a channel-scoped frame: to the group's members, each under its own downstream
  group id, or to the channel's owner under the channel's downstream id.\<close>

definition forward_down :: "sv2_frame \<Rightarrow> u32 \<Rightarrow> sv2_session \<Rightarrow> sv2_session" where
  "forward_down f up s =
     (let recipients = group_recipients up s
      in if recipients \<noteq> []
         then fold (\<lambda>(g, m). send_member m (Fwd (rewrite_channel_id g f))) recipients s
         else case map_of (v2_up_to_down s) up of
             None \<Rightarrow> s
           | Some down \<Rightarrow> (case member_for_up up s of
                 None \<Rightarrow> s
               | Some m \<Rightarrow> send_member m (Fwd (rewrite_channel_id down f)) s))"

definition on_upstream_frame :: "lib \<Rightarrow> instant \<Rightarrow> u64 \<Rightarrow> sv2_frame \<Rightarrow> sv2_session
    \<Rightarrow> sv2_session \<times> acct_event list" where
  "on_upstream_frame l now gen f s = (case msg_type f of
       None \<Rightarrow> (s, [])
     | Some mt \<Rightarrow>
         (if gen \<noteq> v2_generation s then (s, [])
          else if is_open_success mt then (on_open_success l f s, [])
          else if mt = MtOpenMiningChannelError then (on_open_error l f s, [])
          else if \<not> is_channel_scoped mt then (s, [])
          else case read_channel_id f of
              None \<Rightarrow> (s, [])
            | Some up \<Rightarrow>
                (let s1 = (if mt = MtSetTarget then on_set_target l f up s else s);
                     (s2, ev) = (if mt = MtSubmitSharesSuccess then on_submit_success l now f up s1
                       else (s1, []))
                 in (forward_down f up s2, ev))))"

section \<open>Members\<close>

text \<open>The open of a miner's channel, with the upstream's account and a request id of its own.\<close>

definition request_open :: "u32 \<Rightarrow> open_spec \<Rightarrow> sv2_session \<Rightarrow> sv2_session" where
  "request_open member sp s =
     (let account = upstream_worker (t_user (v2_target s)) (v2_label s);
          req = v2_next_up_req s;
          s1 = s\<lparr>v2_next_up_req := v2_next_up_req s + 1\<rparr>
      in case open_channel_upstream sp account req of
           None \<Rightarrow> s1
         | Some f \<Rightarrow> send_upstream f (s1\<lparr>v2_pending := AList.update req (member, sp) (v2_pending s1)\<rparr>))"

definition attach_member :: "open_spec \<Rightarrow> sv2_session \<Rightarrow> u32 option \<times> sv2_session" where
  "attach_member sp s =
     (if v2_translating s then (None, s)
      else let (member, s1) = add_member s in (Some member, request_open member sp s1))"

definition detach_member :: "u32 \<Rightarrow> sv2_session \<Rightarrow> bool \<times> sv2_session" where
  "detach_member member s =
     (let s1 = s\<lparr>v2_members := AList.delete member (v2_members s)\<rparr>;
          ups = map ch_up (filter (\<lambda>c. ch_owner c = member) (v2_channels s1));
          s2 = fold (\<lambda>up x. (case (if \<not> v2_translating s1 then close_channel_upstream up else None) of
                   None \<Rightarrow> x | Some f \<Rightarrow> send_upstream f x)
                 \<lparr>v2_up_to_down := AList.delete up (v2_up_to_down x)\<rparr>) ups s1;
          s3 = s2\<lparr>v2_channels := filter (\<lambda>c. ch_owner c \<noteq> member) (v2_channels s2),
                  v2_pending := filter (\<lambda>(req, m, sp). m \<noteq> member) (v2_pending s2)\<rparr>
      in (v2_members s3 = [], s3))"

text \<open>A frame of the miner behind \<open>member\<close>: an additional channel, or channel traffic under the
  upstream's id of the channel it names.\<close>

definition is_open_request :: "mtype \<Rightarrow> bool" where
  "is_open_request mt = (mt = MtOpenStandardMiningChannel \<or> mt = MtOpenExtendedMiningChannel)"

definition is_submit :: "mtype \<Rightarrow> bool" where
  "is_submit mt = (mt = MtSubmitSharesStandard \<or> mt = MtSubmitSharesExtended)"

definition on_miner_frame :: "lib \<Rightarrow> u32 \<Rightarrow> sv2_frame \<Rightarrow> sv2_session \<Rightarrow> sv2_session \<times> acct_event list" where
  "on_miner_frame l member f s = (case msg_type f of
       None \<Rightarrow> (s, [])
     | Some mt \<Rightarrow>
         (if is_open_request mt then
            (case parse_miner_open l f of
               None \<Rightarrow> (s, [])
             | Some mo \<Rightarrow>
                 (if v2_translating s
                  then (send_built member (open_channel_error (request_id (mo_spec mo))
                          ''additional channels are not supported on an SV1 upstream'') s, [])
                  else (request_open member (mo_spec mo) s, [])))
          else if is_channel_scoped mt then
            (case read_channel_id f of
               None \<Rightarrow> (s, [])
             | Some down \<Rightarrow> (case up_for_down down s of
                   None \<Rightarrow> (s, [])
                 | Some up \<Rightarrow>
                     (let s1 = (if is_submit mt then s\<lparr>v2_submitted := v2_submitted s + 1\<rparr> else s);
                          ev = (if is_submit mt
                            then (case v2_routing s of Rented oid \<Rightarrow> [Submit oid 1] | Idle \<Rightarrow> [])
                            else [])
                      in (send_upstream (Fwd (rewrite_channel_id up f)) s1, ev))))
          else (s, [])))"

end
