(* ===== verification/Sv2_Translate.thy ===== *)
theory Sv2_Translate
  imports Sv2_Core
begin

text \<open>
  \<open>src/proto/sv2/relay.rs\<close>, the SV2 miner on an SV1 pool: the state the two driver tasks
  share (\<open>Sv1UpState\<close>), the writer that turns shares into \<open>mining.submit\<close> lines and the reader
  that turns the pool's lines into frames for the miner.
\<close>

section \<open>State\<close>

record sv1_job_info =
  ji_sv1_job_id :: string
  ji_extranonce2 :: "bytes option"

record sv1_up_state =
  su_version_mask :: "u32 option"
  su_user_name :: string
  su_extended :: bool
  su_extranonce1 :: bytes
  su_extranonce2_size :: u16
  su_next_extranonce2 :: u64
  su_next_job_id :: u32
  su_job_map :: "(u32 \<times> sv1_job_info) list"
  su_next_submit_id :: u64
  su_submit_seq :: "(u64 \<times> u32) list"
  su_first_job_sent :: bool

definition sv1_up_state_new :: "sv1_up_conn \<Rightarrow> string \<Rightarrow> bool \<Rightarrow> sv1_up_state" where
  "sv1_up_state_new conn user ext = \<lparr>su_version_mask = vc_version_mask conn, su_user_name = user,
     su_extended = ext, su_extranonce1 = vc_extranonce1 conn,
     su_extranonce2_size = vc_extranonce2_size conn, su_next_extranonce2 = 0, su_next_job_id = 1,
     su_job_map = [], su_next_submit_id = 1, su_submit_seq = [], su_first_job_sent = False\<rparr>"

section \<open>The writer\<close>

text \<open>A share takes the next submit id and remembers which sequence number it answers.\<close>

definition take_submit_id :: "u32 \<Rightarrow> sv1_up_state \<Rightarrow> u64 \<times> sv1_up_state" where
  "take_submit_id seq st = (su_next_submit_id st,
     st\<lparr>su_next_submit_id := su_next_submit_id st + 1,
        su_submit_seq := AList.update (su_next_submit_id st) seq (su_submit_seq st)\<rparr>)"

definition result_line :: "lib \<Rightarrow> trans_error + sv1_submit \<Rightarrow> line option" where
  "result_line l r = (case r of Inl e \<Rightarrow> None | Inr sub \<Rightarrow> Some (submit_to_line l sub))"

definition write_extended :: "lib \<Rightarrow> submit_ext \<Rightarrow> sv1_up_state \<Rightarrow> line option \<times> sv1_up_state" where
  "write_extended l sub st = (case map_of (su_job_map st) (xs_job_id sub) of
       None \<Rightarrow> (None, st)
     | Some info \<Rightarrow>
         (let (i, st') = take_submit_id (xs_sequence_number sub) st
          in (result_line l (sv2_submit_to_sv1 sub (su_user_name st) (ji_sv1_job_id info) i
                (su_version_mask st)), st')))"

definition write_standard :: "lib \<Rightarrow> submit_std \<Rightarrow> sv1_up_state \<Rightarrow> line option \<times> sv1_up_state" where
  "write_standard l sub st = (case map_of (su_job_map st) (ss_job_id sub) of
       None \<Rightarrow> (None, st)
     | Some info \<Rightarrow> (case ji_extranonce2 info of
           None \<Rightarrow> (None, st)
         | Some en2 \<Rightarrow>
             (let (i, st') = take_submit_id (ss_sequence_number sub) st
              in (result_line l (sv2_standard_submit_to_sv1 sub (su_user_name st) (ji_sv1_job_id info)
                    en2 i (su_version_mask st)), st'))))"

text \<open>A frame of the miner's queue; only shares cross to the pool.\<close>

definition translate_share :: "lib \<Rightarrow> sv2_frame \<Rightarrow> sv1_up_state \<Rightarrow> line option \<times> sv1_up_state" where
  "translate_share l f st = (case parse_frame l f of
       Some (SubmitSharesExtended sub) \<Rightarrow> write_extended l sub st
     | Some (SubmitSharesStandard sub) \<Rightarrow> write_standard l sub st
     | _ \<Rightarrow> (None, st))"

section \<open>The session's side\<close>

text \<open>A frame for the miner goes to one member, the first of the map.\<close>

definition send_translate_frame :: "u64 \<Rightarrow> out_frame \<Rightarrow> sv2_session \<Rightarrow> sv2_session" where
  "send_translate_frame gen f s =
     (if gen \<noteq> v2_generation s then s
      else case v2_members s of [] \<Rightarrow> s | (m, _) # _ \<Rightarrow> send_member m f s)"

definition set_translate_diff :: "u64 \<Rightarrow> u32 \<Rightarrow> xf64 \<Rightarrow> sv2_session \<Rightarrow> sv2_session" where
  "set_translate_diff gen down d s =
     (if gen \<noteq> v2_generation s then s
      else s\<lparr>v2_channels := update_first (\<lambda>c. ch_down c = down) (\<lambda>c. c\<lparr>ch_difficulty := d\<rparr>)
             (v2_channels s)\<rparr>)"

definition credit_translate :: "instant \<Rightarrow> u64 \<Rightarrow> u32 \<Rightarrow> sv2_session \<Rightarrow> sv2_session \<times> acct_event list" where
  "credit_translate now gen down s =
     (if gen \<noteq> v2_generation s then (s, [])
      else credit_shares now (case List.find (\<lambda>c. ch_down c = down) (v2_channels s) of
             Some c \<Rightarrow> ch_difficulty c | None \<Rightarrow> Finite 0) 1 s)"

section \<open>The reader\<close>

text \<open>A standard job rolls the extranonce2: the counter's little-endian bytes, cut or padded to
  the size the pool allows.\<close>

definition counter_extranonce2 :: "u16 \<Rightarrow> u64 \<Rightarrow> bytes" where
  "counter_extranonce2 bound counter =
     (let n = min (unat bound) 8
      in take n (le_bytes 8 (unat counter)) @ replicate (unat bound - n) 0)"

definition next_job :: "sv1_notify \<Rightarrow> sv1_up_state \<Rightarrow> (u32 \<times> bool \<times> bytes) \<times> sv1_up_state" where
  "next_job n st =
     (let jid = su_next_job_id st;
          jobs = (if length (su_job_map st) \<ge> 64 then [] else su_job_map st);
          as_future = (n_clean_jobs n \<or> \<not> su_first_job_sent st);
          st1 = st\<lparr>su_next_job_id := jid + 1, su_first_job_sent := True\<rparr>
      in if su_extended st
         then ((jid, as_future, []),
               st1\<lparr>su_job_map := AList.update jid \<lparr>ji_sv1_job_id = n_job_id n, ji_extranonce2 = None\<rparr> jobs\<rparr>)
         else let en2 = counter_extranonce2 (su_extranonce2_size st) (su_next_extranonce2 st)
              in ((jid, as_future, en2),
                  st1\<lparr>su_next_extranonce2 := su_next_extranonce2 st + 1,
                      su_job_map := AList.update jid
                        \<lparr>ji_sv1_job_id = n_job_id n, ji_extranonce2 = Some en2\<rparr> jobs\<rparr>))"

definition send_job :: "u64 \<Rightarrow> sv2_msg \<Rightarrow> prev_hash_msg option \<Rightarrow> sv2_session \<Rightarrow> sv2_session" where
  "send_job gen job prev s =
     (let s1 = send_translate_frame gen (Built job) s
      in case prev of None \<Rightarrow> s1
         | Some p \<Rightarrow> send_translate_frame gen (Built (SetNewPrevHash p)) s1)"

definition on_sv1_notify :: "lib \<Rightarrow> u64 \<Rightarrow> u32 \<Rightarrow> sv1_notify \<Rightarrow> sv1_up_state \<times> sv2_session
    \<Rightarrow> sv1_up_state \<times> sv2_session" where
  "on_sv1_notify l gen down n ss =
     (let st = fst ss; s = snd ss;
          ((jid, as_future, en2), st') = next_job n st;
          rolling = (su_version_mask st \<noteq> None)
      in if su_extended st
         then (case sv1_notify_to_sv2_job n down jid as_future rolling of
                 Inl e \<Rightarrow> (st', s)
               | Inr (j, prev) \<Rightarrow> (st', send_job gen (NewExtendedMiningJob j) prev s))
         else (case sv1_notify_to_sv2_standard_job l n down jid (su_extranonce1 st) en2 as_future of
                 Inl e \<Rightarrow> (st', s)
               | Inr (j, prev) \<Rightarrow> (st', send_job gen (NewMiningJob j) prev s)))"

definition on_sv1_difficulty :: "u64 \<Rightarrow> u32 \<Rightarrow> xf64 \<Rightarrow> sv2_session \<Rightarrow> sv2_session" where
  "on_sv1_difficulty gen down d s =
     (let s1 = set_translate_diff gen down d s
      in case set_target down (target_from_difficulty d) of
           None \<Rightarrow> s1 | Some f \<Rightarrow> send_translate_frame gen f s1)"

definition on_sv1_result :: "instant \<Rightarrow> u64 \<Rightarrow> u32 \<Rightarrow> rpc_message \<Rightarrow> sv1_up_state \<times> sv2_session
    \<Rightarrow> (sv1_up_state \<times> sv2_session) \<times> acct_event list" where
  "on_sv1_result now gen down m ss =
     (let st = fst ss; s = snd ss
      in if m_method m \<noteq> None then (ss, [])
         else case Option.bind (m_id m) as_u64 of
             None \<Rightarrow> (ss, [])
           | Some i \<Rightarrow> (case map_of (su_submit_seq st) i of
                 None \<Rightarrow> (ss, [])
               | Some seq \<Rightarrow>
                   (let st' = st\<lparr>su_submit_seq := AList.delete i (su_submit_seq st)\<rparr>
                    in if m_result m = Some (JBool True)
                       then (let (s1, ev) = credit_translate now gen down s
                             in ((st', send_translate_frame gen
                                    (Built (SubmitSharesSuccess down seq 1 1)) s1), ev))
                       else ((st', send_translate_frame gen
                                (Built (SubmitSharesError down seq ''rejected'')) s), []))))"

definition handle_sv1_line :: "lib \<Rightarrow> instant \<Rightarrow> u64 \<Rightarrow> u32 \<Rightarrow> line \<Rightarrow> sv1_up_state \<times> sv2_session
    \<Rightarrow> (sv1_up_state \<times> sv2_session) \<times> acct_event list" where
  "handle_sv1_line l now gen down wl ss = (case notify_from_line l wl of
       Some n \<Rightarrow> (on_sv1_notify l gen down n ss, [])
     | None \<Rightarrow> (case set_difficulty_from_line l wl of
           Some d \<Rightarrow> ((fst ss, on_sv1_difficulty gen down d (snd ss)), [])
         | None \<Rightarrow> (case rpc_parse wl of
               None \<Rightarrow> (ss, [])
             | Some m \<Rightarrow> on_sv1_result now gen down m ss)))"

end
