(* ===== verification/Sv2_Relay.thy ===== *)
theory Sv2_Relay
  imports Sv2_Translate
begin

text \<open>
  \<open>src/proto/sv2/relay.rs\<close>, the rig's upstream: the swap of all channels onto another pool
  (native, or through translation), the operations built on it, the supervisor and the
  background retry. A swap is three parts, with the rig going on in between: the snapshot, the
  connection (no session state involved) and the install.
\<close>

section \<open>The snapshot and the re-open\<close>

record swap_snapshot =
  sn_specs :: "(u32 \<times> u32 \<times> open_spec \<times> u32) list"
  sn_generation :: u64
  sn_label :: string
  sn_members :: "u32 list"

definition swap_snapshot_of :: "sv2_session \<Rightarrow> swap_snapshot \<times> sv2_session" where
  "swap_snapshot_of s =
     (let s' = s\<lparr>v2_generation_counter := v2_generation_counter s + 1\<rparr>
      in (\<lparr>sn_specs = map (\<lambda>c. (ch_down c, ch_owner c, ch_spec c, ch_down_group c)) (v2_channels s'),
           sn_generation = v2_generation_counter s', sn_label = v2_label s',
           sn_members = map fst (v2_members s')\<rparr>, s'))"

record reopened =
  ro_channels :: "sv2_channel list"
  ro_up_to_down :: "(u32 \<times> u32) list"
  ro_group_down :: "(u32 \<times> u32) list"
  ro_repoint :: "(u32 \<times> u32 \<times> bytes \<times> bytes) list"

definition reopen_one :: "lib \<Rightarrow> u32 \<times> u32 \<times> open_spec \<times> u32 \<Rightarrow> channel_info \<Rightarrow> reopened \<Rightarrow> reopened" where
  "reopen_one l spc info r =
     (let (down, owner, sp, down_group) = spc;
          up_group = (if is_extended sp then ci_group_channel_id info else 0)
      in \<lparr>ro_channels = ro_channels r @ [\<lparr>ch_down = down, ch_up = ci_up_channel_id info, ch_spec = sp,
            ch_difficulty = Finite (difficulty_from_target l (ci_target info)), ch_owner = owner,
            ch_up_group = up_group, ch_down_group = down_group\<rparr>],
          ro_up_to_down = AList.update (ci_up_channel_id info) down (ro_up_to_down r),
          ro_group_down = (if up_group \<noteq> 0 \<and> down_group \<noteq> 0
            then AList.update up_group down_group (ro_group_down r) else ro_group_down r),
          ro_repoint = ro_repoint r @ [(down, owner, ci_extranonce_prefix info, ci_target info)]\<rparr>)"

text \<open>The channels one after the other on the new connection: \<open>i\<close> counts its writes, \<open>tfs\<close> is
  what it still delivers, \<open>deferred\<close> the frames that arrived for channels opened before.\<close>

fun reopen_all :: "lib \<Rightarrow> net \<Rightarrow> string \<Rightarrow> nat \<Rightarrow> string \<Rightarrow> (u32 \<times> u32 \<times> open_spec \<times> u32) list
    \<Rightarrow> transport_frame list \<Rightarrow> sv2_frame list \<Rightarrow> reopened
    \<Rightarrow> net_error + reopened \<times> sv2_frame list \<times> transport_frame list" where
  "reopen_all l n url i ident [] tfs deferred r = Inr (r, deferred, tfs)"
| "reopen_all l n url i ident (spc # specs) tfs deferred r =
     (case open_on l n url i (fst (snd (snd spc))) ident tfs deferred of
        (Inl err, _, _) \<Rightarrow> Inl err
      | (Inr info, deferred', tfs') \<Rightarrow>
          reopen_all l n url (Suc i) ident specs tfs' deferred' (reopen_one l spc info r))"

definition reopened_none :: reopened where
  "reopened_none = \<lparr>ro_channels = [], ro_up_to_down = [], ro_group_down = [], ro_repoint = []\<rparr>"

section \<open>The install\<close>

text \<open>A frame to a member of the snapshot: a member that joined later is not among them, one
  that left meanwhile has no sink any more.\<close>

definition send_snapshot :: "u32 list \<Rightarrow> u32 \<Rightarrow> out_frame \<Rightarrow> sv2_session \<Rightarrow> sv2_session" where
  "send_snapshot members m f s = (if m \<in> set members then send_member m f s else s)"

text \<open>A channel that cannot be re-pointed ends the swap with an error, after the install.\<close>

fun repoint_all :: "u32 list \<Rightarrow> (u32 \<times> u32 \<times> bytes \<times> bytes) list \<Rightarrow> sv2_session
    \<Rightarrow> (net_error + unit) \<times> sv2_session" where
  "repoint_all members [] s = (Inr (), s)"
| "repoint_all members ((down, owner, prefix, target) # rest) s =
     (if owner \<in> set members then
        (case set_extranonce_prefix down prefix of
           None \<Rightarrow> (Inl BuildFailed, s)
         | Some f \<Rightarrow>
             (let s1 = send_snapshot members owner f s
              in case set_target down target of
                   None \<Rightarrow> (Inl BuildFailed, s1)
                 | Some g \<Rightarrow> repoint_all members rest (send_snapshot members owner g s1)))
      else repoint_all members rest s)"

definition notify_abandoned :: "u32 list \<Rightarrow> (u32 \<times> u32) list \<Rightarrow> sv2_session \<Rightarrow> sv2_session" where
  "notify_abandoned members abandoned s =
     fold (\<lambda>(m, req) x. case open_channel_error req ''upstream switched; please reopen'' of
         None \<Rightarrow> x | Some f \<Rightarrow> send_snapshot members m f x) abandoned s"

definition abandoned_of :: "sv2_session \<Rightarrow> (u32 \<times> u32) list" where
  "abandoned_of s = map (\<lambda>(req, m, sp). (m, req)) (v2_pending s)"

definition finish_repoint :: "u32 list \<Rightarrow> (u32 \<times> u32 \<times> bytes \<times> bytes) list \<Rightarrow> (u32 \<times> u32) list
    \<Rightarrow> sv2_session \<Rightarrow> (net_error + unit) \<times> sv2_session" where
  "finish_repoint members rp abandoned s = (case repoint_all members rp s of
       (Inl err, s1) \<Rightarrow> (Inl err, s1)
     | (Inr _, s1) \<Rightarrow> (Inr (), notify_abandoned members abandoned s1))"

definition install_active :: "u64 \<Rightarrow> upstream_target \<Rightarrow> sv2_session \<Rightarrow> sv2_session" where
  "install_active gen target s = s\<lparr>v2_generation := gen, v2_target := target, v2_to_up := []\<rparr>"

definition install_native :: "swap_snapshot \<Rightarrow> upstream_target \<Rightarrow> routing \<Rightarrow> reopened \<Rightarrow> sv2_session
    \<Rightarrow> (net_error + unit) \<times> sv2_session" where
  "install_native sn target r ro s =
     (let s1 = (install_active (sn_generation sn) target s)\<lparr>v2_channels := ro_channels ro,
            v2_up_to_down := ro_up_to_down ro, v2_group_down := ro_group_down ro,
            v2_pending := [], v2_routing := r, v2_translating := False\<rparr>
      in finish_repoint (sn_members sn) (ro_repoint ro) (abandoned_of s) s1)"

text \<open>The first channel is the one that is carried over to a translated upstream.\<close>

definition translated_channel :: "u32 \<Rightarrow> u32 \<Rightarrow> open_spec \<Rightarrow> sv1_up_conn \<Rightarrow> sv2_channel" where
  "translated_channel down owner sp conn = \<lparr>ch_down = down, ch_up = down, ch_spec = sp,
     ch_difficulty = vc_initial_diff conn, ch_owner = owner, ch_up_group = 0, ch_down_group = 0\<rparr>"

definition install_translate :: "u64 \<Rightarrow> upstream_target \<Rightarrow> routing \<Rightarrow> u32 list \<Rightarrow> u32 \<times> u32 \<times> open_spec
    \<Rightarrow> sv1_up_conn \<Rightarrow> sv2_session \<Rightarrow> (net_error + unit) \<times> sv2_session" where
  "install_translate gen target r members first conn s =
     (let (down, owner, sp) = first;
          s1 = (install_active gen target s)\<lparr>
            v2_channels := [translated_channel down owner sp conn],
            v2_up_to_down := [(down, down)], v2_group_down := [], v2_pending := [],
            v2_routing := r, v2_translating := True\<rparr>
      in finish_repoint members
           [(down, owner, vc_extranonce1 conn, target_from_difficulty (vc_initial_diff conn))]
           (abandoned_of s) s1)"

definition swap_to_sv1_translate :: "lib \<Rightarrow> net \<Rightarrow> upstream_target \<Rightarrow> routing \<Rightarrow> u64 \<Rightarrow> string
    \<Rightarrow> sv2_session \<Rightarrow> (net_error + unit) \<times> sv2_session" where
  "swap_to_sv1_translate l n target r gen ident s = (case v2_channels s of
       [] \<Rightarrow> (Inl NoChannel, s)
     | c # _ \<Rightarrow> (case connect_sv1_upstream l n target ident of
           Inl err \<Rightarrow> (Inl err, s)
         | Inr conn \<Rightarrow> install_translate gen target r (map fst (v2_members s))
             (ch_down c, ch_owner c, ch_spec c) conn s))"

definition swap_upstream2 :: "lib \<Rightarrow> net \<Rightarrow> upstream_target \<Rightarrow> routing \<Rightarrow> sv2_session
    \<Rightarrow> (net_error + unit) \<times> sv2_session" where
  "swap_upstream2 l n target r s =
     (let (sn, s1) = swap_snapshot_of s;
          ident = upstream_worker (t_user target) (sn_label sn)
      in case probe_sv2 l n target of
           Inl f \<Rightarrow> (case allow_translation f of
               Inl err \<Rightarrow> (Inl err, s1)
             | Inr _ \<Rightarrow> swap_to_sv1_translate l n target r (sn_generation sn) ident s1)
         | Inr (tfs, _) \<Rightarrow>
             (case reopen_all l n (t_url target) 1 ident (sn_specs sn) tfs [] reopened_none of
                Inl err \<Rightarrow> (Inl err, s1)
              | Inr (ro, deferred, rest) \<Rightarrow> install_native sn target r ro s1))"

section \<open>Operations\<close>

definition switch_to2 :: "lib \<Rightarrow> net \<Rightarrow> string \<Rightarrow> upstream_target \<Rightarrow> sv2_session
    \<Rightarrow> (net_error + unit) \<times> sv2_session" where
  "switch_to2 l n oid target s = swap_upstream2 l n target (Rented oid) s"

definition switch_to_order2 :: "lib \<Rightarrow> net \<Rightarrow> (string \<Rightarrow> order option) \<Rightarrow> string \<Rightarrow> sv2_session
    \<Rightarrow> (net_error + unit) \<times> sv2_session" where
  "switch_to_order2 l n orders oid s = (case orders oid of
       None \<Rightarrow> (Inl OrderNotFound, s)
     | Some o' \<Rightarrow> (case switch_to2 l n oid (o_target o') s of
           (Inr _, s') \<Rightarrow> (Inr (), s')
         | (Inl primary_err, s') \<Rightarrow> (case o_fallback o' of
               Some fb \<Rightarrow> switch_to2 l n oid fb s'
             | None \<Rightarrow> (Inl primary_err, s'))))"

definition force_reconnect2 :: "sv2_session \<Rightarrow> sv2_session" where
  "force_reconnect2 s = s\<lparr>v2_epoch := v2_epoch s + 1\<rparr>"

definition revert2 :: "lib \<Rightarrow> net \<Rightarrow> sv2_session \<Rightarrow> (net_error + unit) \<times> sv2_session" where
  "revert2 l n s = (case v2_default_target s of
       Some target \<Rightarrow> swap_upstream2 l n target Idle s
     | None \<Rightarrow> (Inr (), force_reconnect2 s))"

definition spawn_switch_retry :: "sv2_session \<Rightarrow> sv2_session" where
  "spawn_switch_retry s = s\<lparr>v2_retrying := True\<rparr>"

definition reconcile_routing :: "lib \<Rightarrow> net \<Rightarrow> (string \<Rightarrow> order option) \<Rightarrow> order option \<Rightarrow> sv2_session
    \<Rightarrow> sv2_session" where
  "reconcile_routing l n orders desired s =
     (let current = routing_order (v2_routing s)
      in case desired of
           Some o' \<Rightarrow>
             (if current \<noteq> Some (o_id o')
              then (case switch_to_order2 l n orders (o_id o') s of
                      (Inl _, s') \<Rightarrow> spawn_switch_retry s'
                    | (Inr _, s') \<Rightarrow> s')
              else s)
         | None \<Rightarrow> (if current \<noteq> None then snd (revert2 l n s) else s))"

section \<open>The supervisor and the retry\<close>

definition supervise_attempt2 :: "lib \<Rightarrow> net \<Rightarrow> (string \<Rightarrow> order option) \<Rightarrow> u64 \<Rightarrow> sv2_session
    \<Rightarrow> ((net_error + unit) \<times> sv2_session) option" where
  "supervise_attempt2 l n orders gen s =
     (if v2_generation s \<noteq> gen then None
      else Some (case v2_routing s of
          Rented oid \<Rightarrow> switch_to_order2 l n orders oid s
        | Idle \<Rightarrow> revert2 l n s))"

fun supervise_loop2 :: "lib \<Rightarrow> net list \<Rightarrow> (string \<Rightarrow> order option) \<Rightarrow> u64 \<Rightarrow> nat \<Rightarrow> sv2_session
    \<Rightarrow> nat list \<times> sv2_session" where
  "supervise_loop2 l [] orders gen backoff s = ([], s)"
| "supervise_loop2 l (n # nets) orders gen backoff s =
     (case supervise_attempt2 l n orders gen s of
        None \<Rightarrow> ([], s)
      | Some (Inr _, s') \<Rightarrow> ([], force_reconnect2 s')
      | Some (Inl _, s') \<Rightarrow>
          (let (slept, s'') = supervise_loop2 l nets orders gen (backoff_next backoff) s'
           in (backoff # slept, s'')))"

text \<open>One round of the retry: the order the worker has now, the network and the store of that
  moment. \<open>Some True\<close> ends it converged or switched, \<open>Some False\<close> with nothing left to switch to.\<close>

definition retry_round :: "lib \<Rightarrow> net \<Rightarrow> (string \<Rightarrow> order option) \<Rightarrow> order option \<Rightarrow> sv2_session
    \<Rightarrow> bool option \<times> sv2_session" where
  "retry_round l n orders active s = (case active of
       None \<Rightarrow> (Some False, s)
     | Some o' \<Rightarrow>
         (if routing_order (v2_routing s) = Some (o_id o') then (Some True, s)
          else case switch_to_order2 l n orders (o_id o') s of
              (Inr _, s') \<Rightarrow> (Some True, force_reconnect2 s')
            | (Inl _, s') \<Rightarrow> (None, s')))"

fun retry_loop :: "lib \<Rightarrow> (net \<times> (string \<Rightarrow> order option) \<times> order option) list \<Rightarrow> nat \<Rightarrow> sv2_session
    \<Rightarrow> nat list \<times> sv2_session" where
  "retry_loop l [] backoff s = ([], s)"
| "retry_loop l ((n, orders, active) # rounds) backoff s =
     (case retry_round l n orders active s of
        (Some _, s') \<Rightarrow> ([backoff], s'\<lparr>v2_retrying := False\<rparr>)
      | (None, s') \<Rightarrow>
          (let (slept, s'') = retry_loop l rounds (backoff_next backoff) s'
           in (backoff # slept, s'')))"

end
