(* ===== verification/Sv2_Rigs.thy ===== *)
theory Sv2_Rigs
  imports Sv2_Relay Sv1_Conn
begin

text \<open>
  \<open>src/proto/sv2/relay/registry.rs\<close> and the connection side of \<open>src/proto/sv2/relay.rs\<close>: the
  rigs of the proxy (which session is the bundle target of a worker), a miner's connection
  from its first frames to teardown, and the idle reaper. The per-worker gate makes the
  create-or-attach and the reap single steps.
\<close>

section \<open>State\<close>

record sv2_world =
  x_sessions :: "(nat \<times> sv2_session) list"
  x_rigs :: "(string \<times> nat) list"
  x_registry :: registry
  x_next :: nat

definition sv2_world_new :: sv2_world where
  "sv2_world_new = \<lparr>x_sessions = [], x_rigs = [], x_registry = [], x_next = 0\<rparr>"

definition put_session :: "nat \<Rightarrow> sv2_session \<Rightarrow> sv2_world \<Rightarrow> sv2_world" where
  "put_session h s w = w\<lparr>x_sessions := AList.update h s (x_sessions w)\<rparr>"

section \<open>The rig registry\<close>

definition rig_get :: "string \<Rightarrow> sv2_world \<Rightarrow> nat option" where
  "rig_get worker w = map_of (x_rigs w) worker"

definition is_target :: "string \<Rightarrow> nat \<Rightarrow> sv2_world \<Rightarrow> bool" where
  "is_target worker h w = (map_of (x_rigs w) worker = Some h)"

definition insert_if_absent :: "string \<Rightarrow> nat \<Rightarrow> sv2_world \<Rightarrow> bool \<times> sv2_world" where
  "insert_if_absent worker h w =
     (if map_of (x_rigs w) worker \<noteq> None then (False, w)
      else (True, w\<lparr>x_rigs := AList.update worker h (x_rigs w)\<rparr>))"

definition remove_target :: "string \<Rightarrow> nat \<Rightarrow> sv2_world \<Rightarrow> sv2_world" where
  "remove_target worker h w =
     (if map_of (x_rigs w) worker = Some h
      then w\<lparr>x_rigs := AList.delete worker (x_rigs w)\<rparr> else w)"

section \<open>The initial upstream of a fresh session\<close>

definition install_sv2_initial :: "open_spec \<Rightarrow> string \<Rightarrow> upstream_target \<Rightarrow> routing \<Rightarrow> u32
    \<Rightarrow> sv2_session \<Rightarrow> (net_error + unit) \<times> sv2_session" where
  "install_sv2_initial sp ident target r member s =
     (let s1 = (install_active 0 target s)\<lparr>v2_routing := r, v2_translating := False\<rparr>;
          req = v2_next_up_req s1;
          s2 = s1\<lparr>v2_next_up_req := req + 1, v2_pending := AList.update req (member, sp) (v2_pending s1)\<rparr>
      in case open_channel_upstream sp ident req of
           None \<Rightarrow> (Inl BuildFailed, s2)
         | Some f \<Rightarrow> (Inr (), send_upstream f s2))"

definition install_sv1_translate_initial :: "sv1_up_conn \<Rightarrow> open_spec \<Rightarrow> string \<Rightarrow> upstream_target
    \<Rightarrow> routing \<Rightarrow> u32 \<Rightarrow> sv2_session \<Rightarrow> (net_error + unit) \<times> sv2_session" where
  "install_sv1_translate_initial conn sp ident target r member s =
     (let down = v2_next_down_cid s;
          s1 = s\<lparr>v2_next_down_cid := down + 1\<rparr>;
          info = \<lparr>ci_request_id = request_id sp, ci_up_channel_id = down,
            ci_extranonce_prefix = vc_extranonce1 conn,
            ci_target = target_from_difficulty (vc_initial_diff conn),
            ci_extranonce_size = vc_extranonce2_size conn, ci_group_channel_id = 0\<rparr>;
          install = (\<lambda>x. (install_active (v2_generation x) target x)\<lparr>
            v2_channels := [translated_channel down member sp conn],
            v2_up_to_down := [(down, down)], v2_group_down := [], v2_pending := [],
            v2_routing := r, v2_translating := True\<rparr>)
      in if map_of (v2_members s1) member = None then (Inr (), install s1)
         else case open_success_downstream sp down 0 info of
             None \<Rightarrow> (Inl BuildFailed, s1)
           | Some f \<Rightarrow> (Inr (), install (send_member member f s1)))"

definition connect_and_install_initial :: "lib \<Rightarrow> net \<Rightarrow> upstream_target \<Rightarrow> open_spec \<Rightarrow> string
    \<Rightarrow> routing \<Rightarrow> u32 \<Rightarrow> sv2_session \<Rightarrow> (net_error + unit) \<times> sv2_session" where
  "connect_and_install_initial l n target sp worker r member s =
     (let ident = upstream_worker (t_user target) worker
      in case probe_sv2 l n target of
           Inr _ \<Rightarrow> install_sv2_initial sp ident target r member s
         | Inl f \<Rightarrow> (case allow_translation f of
               Inl err \<Rightarrow> (Inl err, s)
             | Inr _ \<Rightarrow> (case connect_sv1_upstream l n target ident of
                   Inl err \<Rightarrow> (Inl err, s)
                 | Inr conn \<Rightarrow> install_sv1_translate_initial conn sp ident target r member s)))"

text \<open>The order's fallback is tried when its pool fails.\<close>

definition first_upstream :: "lib \<Rightarrow> net \<Rightarrow> order option \<Rightarrow> upstream_target \<Rightarrow> open_spec \<Rightarrow> string
    \<Rightarrow> routing \<Rightarrow> u32 \<Rightarrow> sv2_session \<Rightarrow> (net_error + unit) \<times> sv2_session" where
  "first_upstream l n active target sp worker r member s =
     (case connect_and_install_initial l n target sp worker r member s of
        (Inr _, s') \<Rightarrow> (Inr (), s')
      | (Inl err, s') \<Rightarrow> (case Option.bind active o_fallback of
            Some fb \<Rightarrow> connect_and_install_initial l n fb sp worker r member s'
          | None \<Rightarrow> (Inl err, s')))"

section \<open>Connecting a miner\<close>

record sv2_conn =
  cn_handle :: nat
  cn_member :: u32
  cn_seen :: u64

datatype connect_error = NotSetup | NotAnOpen | Unregistered | UpstreamFailed net_error

text \<open>The miner's first two frames.\<close>

definition miner_opening :: "lib \<Rightarrow> sv2_frame \<Rightarrow> sv2_frame \<Rightarrow> connect_error + miner_open" where
  "miner_opening l setup open_frame =
     (if msg_type setup \<noteq> Some MtSetupConnection then Inl NotSetup
      else case parse_miner_open l open_frame of None \<Rightarrow> Inl NotAnOpen | Some mo \<Rightarrow> Inr mo)"

definition orders_of :: "sv1_env \<Rightarrow> string \<Rightarrow> order option" where
  "orders_of e oid = get_order (e_db e) oid (e_orders e)"

definition active_order :: "sv1_env \<Rightarrow> string \<Rightarrow> order option" where
  "active_order e worker = active_for_worker (e_db e) worker (e_now_ms e) (e_orders e)"

definition attach_to_rig :: "sv1_env \<Rightarrow> string \<Rightarrow> open_spec \<Rightarrow> nat \<Rightarrow> sv2_world
    \<Rightarrow> sv2_conn option \<times> sv2_world" where
  "attach_to_rig e worker sp h w = (case map_of (x_sessions w) h of
       None \<Rightarrow> (None, w)
     | Some s \<Rightarrow>
         (let s1 = reconcile_routing (e_lib e) (e_net e) (orders_of e) (active_order e worker) s;
              (m, s2) = attach_member sp s1
          in (map_option (\<lambda>member. \<lparr>cn_handle = h, cn_member = member, cn_seen = v2_epoch s\<rparr>) m,
              put_session h s2 w)))"

definition fresh_rig :: "sv1_env \<Rightarrow> string \<Rightarrow> open_spec \<Rightarrow> order option \<Rightarrow> upstream_target option
    \<Rightarrow> upstream_target \<Rightarrow> routing \<Rightarrow> sv2_world \<Rightarrow> (connect_error + sv2_conn) \<times> sv2_world" where
  "fresh_rig e worker sp active idle target r w =
     (let (member, s0) = add_member (sv2_new worker target r idle)
      in case first_upstream (e_lib e) (e_net e) active target sp worker r member s0 of
           (Inl err, _) \<Rightarrow> (Inl (UpstreamFailed err), w)
         | (Inr _, s1) \<Rightarrow>
             (let h = x_next w;
                  w1 = (put_session h (s1\<lparr>v2_supervised := True\<rparr>) w)\<lparr>x_next := h + 1,
                    x_registry := insert_session worker (Sv2 h) (x_registry w)\<rparr>;
                  w2 = (if v2_translating s1 then w1 else snd (insert_if_absent worker h w1))
              in (Inr \<lparr>cn_handle = h, cn_member = member, cn_seen = v2_epoch s0\<rparr>, w2)))"

text \<open>\<open>e\<close> is the environment when the worker is resolved, \<open>e2\<close> the one when the gate is held.\<close>

definition connect_miner2 :: "sv1_env \<Rightarrow> sv1_env \<Rightarrow> miner_open \<Rightarrow> sv2_world
    \<Rightarrow> (connect_error + sv2_conn) \<times> sv2_world" where
  "connect_miner2 e e2 mo w =
     (let worker = mo_worker mo; sp = mo_spec mo;
          idle = default_pool (e_db e) (e_sellers e) worker;
          active = active_order e worker
      in case (case active of
                Some o' \<Rightarrow> Some (o_target o', Rented (o_id o'))
              | None \<Rightarrow> map_option (\<lambda>t. (t, Idle)) idle) of
           None \<Rightarrow> (Inl Unregistered, w)
         | Some (target, r) \<Rightarrow>
             (case (case rig_get worker w of
                      None \<Rightarrow> (None, w) | Some h \<Rightarrow> attach_to_rig e2 worker sp h w) of
                (Some c, w1) \<Rightarrow> (Inr c, w1)
              | (None, w1) \<Rightarrow> fresh_rig e2 worker sp active idle target r w1))"

section \<open>Teardown and the reaper\<close>

definition close_session :: "nat \<Rightarrow> sv2_world \<Rightarrow> sv2_world" where
  "close_session h w = w\<lparr>x_sessions := AList.delete h (x_sessions w)\<rparr>"

definition leave :: "sv2_conn \<Rightarrow> sv2_world \<Rightarrow> sv2_world" where
  "leave c w = (case map_of (x_sessions w) (cn_handle c) of
       None \<Rightarrow> w
     | Some s \<Rightarrow>
         (let (was_last, s1) = detach_member (cn_member c) s; h = cn_handle c
          in if \<not> was_last then put_session h s1 w
             else if is_target (v2_label s1) h w
             then put_session h (s1\<lparr>v2_idle_token := v2_idle_token s1 + 1\<rparr>) w
             else close_session h (w\<lparr>x_registry := remove_if (v2_label s1) (Sv2 h) (x_registry w)\<rparr>)))"

definition reap_idle_rig :: "nat \<Rightarrow> string \<Rightarrow> u64 \<Rightarrow> sv2_world \<Rightarrow> sv2_world" where
  "reap_idle_rig h worker token w = (case map_of (x_sessions w) h of
       None \<Rightarrow> w
     | Some s \<Rightarrow>
         (if v2_members s \<noteq> [] \<or> v2_idle_token s \<noteq> token then w
          else let w1 = remove_target worker h w
               in close_session h (w1\<lparr>x_registry := remove_if worker (Sv2 h) (x_registry w1)\<rparr>)))"

section \<open>The connection's loop\<close>

datatype sv2_event = MinerFrame transport_frame | MinerLost

definition sv2_step :: "sv1_env \<Rightarrow> sv2_conn \<Rightarrow> sv2_event \<Rightarrow> sv2_world
    \<Rightarrow> bool \<times> sv2_world \<times> acct_event list" where
  "sv2_step e c ev w = (case map_of (x_sessions w) (cn_handle c) of
       None \<Rightarrow> (False, w, [])
     | Some s \<Rightarrow>
         (if v2_epoch s \<noteq> cn_seen c then (False, leave c w, [])
          else case ev of
              MinerLost \<Rightarrow> (False, leave c w, [])
            | MinerFrame tf \<Rightarrow> (case into_sv2 tf of
                  None \<Rightarrow> (True, w, [])
                | Some f \<Rightarrow>
                    (let (s1, acct) = on_miner_frame (e_lib e) (cn_member c) f s
                     in (True, put_session (cn_handle c) s1 w, acct)))))"

end
