(* ===== verification/Sample_Lib.thy ===== *)
theory Sample_Lib
  imports Wire
begin

text \<open>
  A concrete instance of the libraries' functions, for the examples: payloads are read field
  by field at the offsets of the SV2 wire format, so that the parameter \<open>lib\<close> is seen to be
  satisfiable. No property is about it.
\<close>

definition field32 :: "nat \<Rightarrow> bytes \<Rightarrow> u32" where
  "field32 i p = of_nat (le_nat (take 4 (drop (4 * i) p)))"

definition sample_dec :: "mtype \<Rightarrow> bytes \<Rightarrow> sv2_msg option" where
  "sample_dec mt p = (case mt of
       MtSubmitSharesSuccess \<Rightarrow> Some (SubmitSharesSuccess (field32 0 p) (field32 1 p) (field32 2 p) 0)
     | MtSubmitSharesError \<Rightarrow> Some (SubmitSharesError (field32 0 p) (field32 1 p) [])
     | MtOpenMiningChannelError \<Rightarrow> Some (OpenMiningChannelError (field32 0 p) [])
     | MtSetupConnectionSuccess \<Rightarrow> Some (SetupConnectionSuccess 2 (field32 1 p))
     | MtSetTarget \<Rightarrow> Some (SetTarget (field32 0 p) (drop 4 p))
     | MtOpenStandardMiningChannelSuccess \<Rightarrow>
         Some (OpenStandardMiningChannelSuccess (field32 0 p) (field32 1 p) (take 32 (drop 8 p))
           (drop 44 p) (field32 10 p))
     | MtOpenExtendedMiningChannelSuccess \<Rightarrow>
         Some (OpenExtendedMiningChannelSuccess (field32 0 p) (field32 1 p) (take 32 (drop 8 p)) 8
           (drop 44 p) (field32 10 p))
     | _ \<Rightarrow> None)"

definition sample_lib :: lib where
  "sample_lib = \<lparr>l_dec = sample_dec, l_notification = (\<lambda>j. None), l_notify_of = (\<lambda>j. None),
     l_difficulty_of = (\<lambda>j. None), l_submit_of = (\<lambda>i j. None), l_notify_line = (\<lambda>n. Json JNull),
     l_set_difficulty_line = (\<lambda>d. Json JNull), l_submit_line = (\<lambda>x. Json JNull),
     l_build_notify = (\<lambda>p j c. None), l_build_submit = (\<lambda>x c q v k. None),
     l_difficulty_float = (\<lambda>t. if t = 0 then None else Some (of_nat diff1_target / of_nat t)),
     l_merkle_root = (\<lambda>a b c d. None), l_from_hex = (\<lambda>h. None)\<rparr>"

definition frame_of :: "mtype \<Rightarrow> u32 list \<Rightarrow> sv2_frame" where
  "frame_of mt fs = \<lparr>fr_type = Some mt, fr_payload = concat (map (\<lambda>w. le_bytes 4 (unat w)) fs)\<rparr>"

lemma le_word32 [simp]: "of_nat (le_nat (le_bytes 4 (unat w))) = (w :: u32)"
proof -
  have "unat w < 256 ^ 4" by (rule less_le_trans [OF unsigned_less]) simp
  then show ?thesis by (simp add: le_nat_le_bytes)
qed

end
