(* ===== verification/Sv2_Props.thy ===== *)
theory Sv2_Props
  imports Sv2_Rigs Gen_Guard Sample_Lib
begin

text \<open>
  Properties of the SV2 rig: what a delivery to a member is, and whom a frame of the shared
  upstream reaches, under which channel id.
\<close>

section \<open>What a member has been sent\<close>

lemma send_member_sent:
  "map_of (v2_members (send_member m f s)) m' =
     map_option (\<lambda>q. if m' = m then q @ [f] else q) (map_of (v2_members s) m')"
  by (auto simp: send_member_def map_option_case split: option.split)

lemma send_member_fields [relay_simps]:
  "v2_generation (send_member m f s) = v2_generation s" "v2_channels (send_member m f s) = v2_channels s"
  "v2_up_to_down (send_member m f s) = v2_up_to_down s" "v2_group_down (send_member m f s) = v2_group_down s"
  "v2_pending (send_member m f s) = v2_pending s" "v2_routing (send_member m f s) = v2_routing s"
  "v2_target (send_member m f s) = v2_target s" "v2_to_up (send_member m f s) = v2_to_up s"
  "v2_next_down_cid (send_member m f s) = v2_next_down_cid s"
  "v2_next_up_req (send_member m f s) = v2_next_up_req s"
  "v2_next_member_id (send_member m f s) = v2_next_member_id s"
  "v2_translating (send_member m f s) = v2_translating s" "v2_label (send_member m f s) = v2_label s"
  "v2_generation_counter (send_member m f s) = v2_generation_counter s"
  "v2_delivered_work (send_member m f s) = v2_delivered_work s"
  "v2_accepted (send_member m f s) = v2_accepted s" "v2_submitted (send_member m f s) = v2_submitted s"
  "v2_default_target (send_member m f s) = v2_default_target s" "v2_epoch (send_member m f s) = v2_epoch s"
  "map fst (v2_members (send_member m f s)) = map fst (v2_members s)"
  by (auto simp: send_member_def update_keys map_of_eq_None_iff split: option.split)

lemma fold_send_sent:
  "map_of (v2_members (fold (\<lambda>(x, m). send_member m (F x)) ps s)) m' =
     map_option (\<lambda>q. q @ map (\<lambda>(x, m). F x) (filter (\<lambda>(x, m). m = m') ps)) (map_of (v2_members s) m')"
proof (induction ps arbitrary: s)
  case Nil
  show ?case by (simp add: option.map_id [unfolded id_def])
next
  case (Cons p ps)
  obtain x m where p: "p = (x, m)" by (cases p)
  show ?case
    by (simp only: fold_simps p prod.case Cons.IH send_member_sent)
      (auto simp: option.map_comp comp_def intro!: option.map_cong)
qed

lemma fold_send_generation [relay_simps]:
  "v2_generation (fold (\<lambda>(x, m). send_member m (F x)) ps s) = v2_generation s"
  by (induction ps arbitrary: s) (auto simp: relay_simps)

section \<open>Routing of upstream frames\<close>

text \<open>What accounting and a new target leave alone.\<close>

definition same_routes :: "sv2_session \<Rightarrow> sv2_session \<Rightarrow> bool" where
  "same_routes s s' \<longleftrightarrow> v2_members s' = v2_members s \<and> v2_up_to_down s' = v2_up_to_down s
     \<and> v2_generation s' = v2_generation s
     \<and> map (\<lambda>c. c\<lparr>ch_difficulty := Finite 0\<rparr>) (v2_channels s')
       = map (\<lambda>c. c\<lparr>ch_difficulty := Finite 0\<rparr>) (v2_channels s)"

lemma same_routes_credit: "same_routes s (fst (credit_shares now d n s))"
  by (simp add: same_routes_def credit_shares_def note_low_ratio2_def Let_def)

lemma same_routes_target: "same_routes s (on_set_target l f up s)"
  by (simp add: same_routes_def on_set_target_def map_update_first split: option.split)

lemma same_routes_trans: "same_routes s s1 \<Longrightarrow> same_routes s1 s2 \<Longrightarrow> same_routes s s2"
  by (simp add: same_routes_def)

lemma same_routes_refl: "same_routes s s"
  by (simp add: same_routes_def)

lemma routes_forget:
  "map (\<lambda>c. c\<lparr>ch_difficulty := Finite 0\<rparr>) cs' = map (\<lambda>c. c\<lparr>ch_difficulty := Finite 0\<rparr>) cs \<Longrightarrow>
   map (\<lambda>c. (ch_down_group c, ch_owner c)) (filter (\<lambda>c. ch_up_group c = up \<and> is_extended (ch_spec c)) cs')
     = map (\<lambda>c. (ch_down_group c, ch_owner c)) (filter (\<lambda>c. ch_up_group c = up \<and> is_extended (ch_spec c)) cs)
   \<and> map_option ch_owner (List.find (\<lambda>c. ch_up c = up) cs')
     = map_option ch_owner (List.find (\<lambda>c. ch_up c = up) cs)"
proof (induction cs arbitrary: cs')
  case Nil
  then show ?case by simp
next
  case (Cons c cs)
  then obtain c' ds where d: "cs' = c' # ds" by (cases cs') auto
  with Cons.prems have eq: "c'\<lparr>ch_difficulty := Finite 0\<rparr> = c\<lparr>ch_difficulty := Finite 0\<rparr>"
    and rest: "map (\<lambda>c. c\<lparr>ch_difficulty := Finite 0\<rparr>) ds = map (\<lambda>c. c\<lparr>ch_difficulty := Finite 0\<rparr>) cs"
    by auto
  from eq have "ch_up_group c' = ch_up_group c" "ch_spec c' = ch_spec c" "ch_up c' = ch_up c"
    "ch_owner c' = ch_owner c" "ch_down_group c' = ch_down_group c"
    by (cases c; cases c'; simp)+
  with Cons.IH [OF rest] d show ?case by auto
qed

lemma member_for_up_owner:
  "member_for_up up s = (case map_option ch_owner (find_up up s) of None \<Rightarrow> None
     | Some m \<Rightarrow> if map_of (v2_members s) m = None then None else Some m)"
  by (simp add: member_for_up_def split: option.split)

lemma same_routes_recipients:
  assumes "same_routes s s'"
  shows "group_recipients up s' = group_recipients up s" "member_for_up up s' = member_for_up up s"
  using routes_forget [of "v2_channels s'" "v2_channels s" up] assms
  by (simp_all add: same_routes_def group_recipients_def member_for_up_owner find_up_def comp_def
      split: option.split)

text \<open>The downstream ids under which a member gets a frame addressed to \<open>up\<close>.\<close>

definition ids_for :: "u32 \<Rightarrow> u32 \<Rightarrow> sv2_session \<Rightarrow> u32 list" where
  "ids_for member up s =
     (if group_recipients up s \<noteq> []
      then map fst (filter (\<lambda>(g, m). m = member) (group_recipients up s))
      else case map_of (v2_up_to_down s) up of
          Some down \<Rightarrow> if member_for_up up s = Some member then [down] else []
        | None \<Rightarrow> [])"

lemma forward_down_sent:
  "map_of (v2_members (forward_down f up s)) m =
     map_option (\<lambda>q. q @ map (\<lambda>i. Fwd (rewrite_channel_id i f)) (ids_for m up s)) (map_of (v2_members s) m)"
proof (cases "group_recipients up s = []")
  case False
  then show ?thesis
    using fold_send_sent [where F = "\<lambda>g. Fwd (rewrite_channel_id g f)", of "group_recipients up s" s m]
    by (simp add: forward_down_def ids_for_def Let_def comp_def split_def)
next
  case True
  then show ?thesis
    by (auto simp: forward_down_def ids_for_def send_member_sent option.map_id [unfolded id_def]
        intro!: option.map_cong split: option.split)
qed

lemma add_new_pairs_set: "set (add_new_pairs ps out) = set ps \<union> set out"
  by (induction ps out rule: add_new_pairs.induct) auto

lemma add_new_pairs_distinct: "distinct out \<Longrightarrow> distinct (add_new_pairs ps out)"
  by (induction ps out rule: add_new_pairs.induct) auto

lemma group_recipients_set:
  "set (group_recipients up s) = (if up = 0 then {} else
     {(ch_down_group c, ch_owner c) | c. c \<in> set (v2_channels s) \<and> ch_up_group c = up \<and> is_extended (ch_spec c)})"
  by (auto simp: group_recipients_def add_new_pairs_set)

lemma group_recipients_distinct: "distinct (group_recipients up s)"
  by (simp add: group_recipients_def add_new_pairs_distinct)

lemma ids_for_set:
  "set (ids_for m up s) = (if group_recipients up s \<noteq> []
     then ch_down_group ` {c \<in> set (v2_channels s). ch_owner c = m \<and> up \<noteq> 0 \<and> ch_up_group c = up
       \<and> is_extended (ch_spec c)}
     else {down. map_of (v2_up_to_down s) up = Some down \<and> member_for_up up s = Some m})"
proof (cases "group_recipients up s = []")
  case True
  then show ?thesis by (auto simp: ids_for_def split: option.split)
next
  case False
  then have "up \<noteq> 0" by (auto simp: group_recipients_def)
  with False show ?thesis
    using group_recipients_set [of up s] by (auto simp: ids_for_def image_iff)
qed

lemma scoped_not_open:
  "is_channel_scoped mt \<Longrightarrow> \<not> is_open_success mt \<and> mt \<noteq> MtOpenMiningChannelError"
  by (auto simp: is_channel_scoped_def is_open_success_def)

lemma scoped_frame:
  assumes "msg_type f = Some mt" "is_channel_scoped mt" "read_channel_id f = Some up"
  shows "\<exists>s2. same_routes s s2 \<and> fst (on_upstream_frame l now (v2_generation s) f s) = forward_down f up s2"
proof -
  let ?s1 = "if mt = MtSetTarget then on_set_target l f up s else s"
  let ?s2 = "fst (if mt = MtSubmitSharesSuccess then on_submit_success l now f up ?s1 else (?s1, []))"
  have "same_routes s ?s1" by (simp add: same_routes_target same_routes_refl)
  moreover have "same_routes ?s1 ?s2"
    by (simp add: on_submit_success_def Let_def same_routes_credit same_routes_refl)
  ultimately have "same_routes s ?s2" by (rule same_routes_trans)
  moreover have "fst (on_upstream_frame l now (v2_generation s) f s) = forward_down f up ?s2"
    using assms scoped_not_open [OF assms(2)] by (simp add: on_upstream_frame_def Let_def split_def)
  ultimately show ?thesis by blast
qed

text \<open>C7: A channel-scoped frame of the shared upstream reaches exactly its addressees, each
  under its own id. A member gets it once per downstream group among its own Extended
  channels of the addressed group, with that group's downstream id; when no channel is in
  such a group, the owner of the addressed channel gets it once under the id the channel map
  holds; every other member gets nothing, so no miner ever sees another miner's work.\<close>

theorem upstream_frame_routing:
  assumes "msg_type f = Some mt" "is_channel_scoped mt" "read_channel_id f = Some up"
    and "map_of (v2_members s) m = Some sent"
    and "on_upstream_frame l now (v2_generation s) f s = (s', ev)"
  shows "\<exists>ids. map_of (v2_members s') m = Some (sent @ map (\<lambda>i. Fwd (rewrite_channel_id i f)) ids)
    \<and> distinct ids
    \<and> (let mine = {c \<in> set (v2_channels s). ch_owner c = m};
           grouped = {c \<in> set (v2_channels s). up \<noteq> 0 \<and> ch_up_group c = up \<and> is_extended (ch_spec c)}
       in set ids = (if grouped \<noteq> {} then ch_down_group ` (mine \<inter> grouped)
            else {down. map_of (v2_up_to_down s) up = Some down
                    \<and> (\<exists>c. find_up up s = Some c \<and> ch_owner c = m)}))"
proof -
  obtain s2 where s2: "same_routes s s2" "s' = forward_down f up s2"
    using scoped_frame [OF assms(1-3), of s l now] assms(5) by auto
  have ids: "ids_for m up s2 = ids_for m up s"
    using s2(1) same_routes_recipients [OF s2(1)]
    by (simp add: ids_for_def same_routes_def split: option.split)
  have "map_of (v2_members s') m = Some (sent @ map (\<lambda>i. Fwd (rewrite_channel_id i f)) (ids_for m up s))"
    using forward_down_sent [of f up s2 m] s2 assms(4) by (simp add: ids same_routes_def)
  moreover have "distinct (ids_for m up s)"
  proof -
    have "distinct (filter (\<lambda>(g, x). x = m) (group_recipients up s))"
      by (simp add: group_recipients_distinct)
    moreover have "inj_on fst (set (filter (\<lambda>(g, x). x = m) (group_recipients up s)))"
      by (auto simp: inj_on_def)
    ultimately have "distinct (map fst (filter (\<lambda>(g, x). x = m) (group_recipients up s)))"
      by (simp add: distinct_map)
    then show ?thesis by (simp add: ids_for_def split: option.split)
  qed
  moreover have "(let mine = {c \<in> set (v2_channels s). ch_owner c = m};
      grouped = {c \<in> set (v2_channels s). up \<noteq> 0 \<and> ch_up_group c = up \<and> is_extended (ch_spec c)}
    in set (ids_for m up s) = (if grouped \<noteq> {} then ch_down_group ` (mine \<inter> grouped)
       else {down. map_of (v2_up_to_down s) up = Some down \<and> (\<exists>c. find_up up s = Some c \<and> ch_owner c = m)}))"
  proof -
    have grp: "group_recipients up s \<noteq> [] \<longleftrightarrow>
        {c \<in> set (v2_channels s). up \<noteq> 0 \<and> ch_up_group c = up \<and> is_extended (ch_spec c)} \<noteq> {}"
      using group_recipients_set [of up s] by (auto simp: set_empty [symmetric] simp del: set_empty)
    have own: "member_for_up up s = Some m \<longleftrightarrow> (\<exists>c. find_up up s = Some c \<and> ch_owner c = m)"
      using assms(4) by (auto simp: member_for_up_def split: option.splits)
    have both: "{c \<in> set (v2_channels s). ch_owner c = m}
        \<inter> {c \<in> set (v2_channels s). up \<noteq> 0 \<and> ch_up_group c = up \<and> is_extended (ch_spec c)}
      = {c \<in> set (v2_channels s). ch_owner c = m \<and> up \<noteq> 0 \<and> ch_up_group c = up \<and> is_extended (ch_spec c)}"
      by blast
    show ?thesis unfolding ids_for_set Let_def grp own both by (rule refl)
  qed
  ultimately show ?thesis by blast
qed

text \<open>A rig of two machines behind one upstream group, and a job for the group.\<close>

definition sample_spec :: open_spec where
  "sample_spec = Extended 7 1 [] 8"

definition two_machines :: "upstream_target \<Rightarrow> sv2_session" where
  "two_machines pool = (sv2_new ''rig'' pool Idle None)\<lparr>v2_members := [(1, []), (2, [])],
     v2_channels := [\<lparr>ch_down = 1, ch_up = 11, ch_spec = sample_spec, ch_difficulty = Finite 8,
         ch_owner = 1, ch_up_group = 9, ch_down_group = 5\<rparr>,
       \<lparr>ch_down = 2, ch_up = 12, ch_spec = sample_spec, ch_difficulty = Finite 8,
         ch_owner = 2, ch_up_group = 0, ch_down_group = 0\<rparr>],
     v2_up_to_down := [(11, 1), (12, 2)]\<rparr>"

theorem upstream_frame_routing_witness:
  "\<forall>l now pool. \<exists>ids s' ev. on_upstream_frame l now (v2_generation (two_machines pool))
        (frame_of MtNewExtendedMiningJob [9, 77]) (two_machines pool) = (s', ev)
     \<and> map_of (v2_members s') 1 = Some (map (\<lambda>i. Fwd (rewrite_channel_id i (frame_of MtNewExtendedMiningJob [9, 77]))) ids)
     \<and> set ids = {5}"
proof (intro allI)
  fix l now pool
  obtain s' ev where e: "on_upstream_frame l now (v2_generation (two_machines pool))
      (frame_of MtNewExtendedMiningJob [9, 77]) (two_machines pool) = (s', ev)"
    by (cases "on_upstream_frame l now (v2_generation (two_machines pool))
      (frame_of MtNewExtendedMiningJob [9, 77]) (two_machines pool)") blast
  have group: "{c \<in> set (v2_channels (two_machines pool)). (9::u32) \<noteq> 0 \<and> ch_up_group c = 9 \<and> is_extended (ch_spec c)}
      = {hd (v2_channels (two_machines pool))}"
    by (auto simp: two_machines_def sample_spec_def)
  have "\<exists>ids. map_of (v2_members s') 1 = Some ([] @ map (\<lambda>i. Fwd (rewrite_channel_id i (frame_of MtNewExtendedMiningJob [9, 77]))) ids)
    \<and> distinct ids
    \<and> (let mine = {c \<in> set (v2_channels (two_machines pool)). ch_owner c = 1};
           grouped = {c \<in> set (v2_channels (two_machines pool)). (9::u32) \<noteq> 0 \<and> ch_up_group c = 9 \<and> is_extended (ch_spec c)}
       in set ids = (if grouped \<noteq> {} then ch_down_group ` (mine \<inter> grouped)
            else {down. map_of (v2_up_to_down (two_machines pool)) 9 = Some down
                    \<and> (\<exists>c. find_up 9 (two_machines pool) = Some c \<and> ch_owner c = 1)}))"
    using le_word32 [of 9]
    by (intro upstream_frame_routing [OF _ _ _ _ e, where mt = MtNewExtendedMiningJob])
      (simp_all add: msg_type_def frame_of_def is_channel_scoped_def read_channel_id_def two_machines_def)
  then show "\<exists>ids s' ev. on_upstream_frame l now (v2_generation (two_machines pool))
        (frame_of MtNewExtendedMiningJob [9, 77]) (two_machines pool) = (s', ev)
     \<and> map_of (v2_members s') 1 = Some (map (\<lambda>i. Fwd (rewrite_channel_id i (frame_of MtNewExtendedMiningJob [9, 77]))) ids)
     \<and> set ids = {5}" unfolding group e Let_def by (auto simp: two_machines_def)
qed

end
