(* ===== verification/Sv2_Readers.thy ===== *)
theory Sv2_Readers
  imports Sv2_Props
begin

text \<open>
  The reader tasks of an SV2 rig (\<open>src/proto/sv2/relay.rs\<close>): what the steady reader of a pool
  connection hands to the session, in which order, and that every reader obeys the contract of
  \<open>Gen_Guard\<close>, the native one and the one that translates an SV1 pool.
\<close>

section \<open>What a reader hands over\<close>

text \<open>The frames deferred while the channels were re-opened come first, then the connection's.\<close>

definition reader_frames :: "sv2_frame list \<Rightarrow> transport_frame list \<Rightarrow> sv2_frame list" where
  "reader_frames deferred rest = deferred @ List.map_filter into_sv2 rest"

text \<open>The lines of the handshake, then the connection's, blank ones skipped.\<close>

definition sv1_reader_lines :: "line list \<Rightarrow> line list \<Rightarrow> line list" where
  "sv1_reader_lines prelude rest = prelude @ filter (\<lambda>wl. wl \<noteq> Blank) rest"

text \<open>The input of the reader a native swap starts.\<close>

definition swap_reader_frames :: "lib \<Rightarrow> net \<Rightarrow> upstream_target \<Rightarrow> sv2_session \<Rightarrow> sv2_frame list" where
  "swap_reader_frames l n target s =
     (let (sn, s1) = swap_snapshot_of s; ident = upstream_worker (t_user target) (sn_label sn)
      in case probe_sv2 l n target of
           Inl f \<Rightarrow> []
         | Inr (tfs, _) \<Rightarrow>
             (case reopen_all l n (t_url target) 1 ident (sn_specs sn) tfs [] reopened_none of
                Inl err \<Rightarrow> []
              | Inr (ro, deferred, rest) \<Rightarrow> reader_frames deferred rest))"

section \<open>The contract with the session\<close>

text \<open>A translating reader has a state of its own, shared with its writer: whatever it is when
  the line arrives, it is part of the message.\<close>

datatype sv2_input =
    NativeFrame instant sv2_frame
  | TranslatedLine instant u32 line sv1_up_state

fun v2_react :: "lib \<Rightarrow> u64 \<Rightarrow> sv2_input \<Rightarrow> sv2_session \<Rightarrow> sv2_session \<times> acct_event list" where
  "v2_react l g (NativeFrame now f) s = on_upstream_frame l now g f s"
| "v2_react l g (TranslatedLine now down wl st) s =
     (let ((st', s'), ev) = handle_sv1_line l now g down wl (st, s) in (s', ev))"

lemma send_translate_stale: "g \<noteq> v2_generation s \<Longrightarrow> send_translate_frame g f s = s"
  by (simp add: send_translate_frame_def)

lemma send_built_generation [relay_simps]: "v2_generation (send_built m f s) = v2_generation s"
  by (simp add: send_built_def send_member_fields(1) split: option.split)

lemma send_translate_generation [relay_simps]: "v2_generation (send_translate_frame g f s) = v2_generation s"
  by (simp add: send_translate_frame_def send_member_fields(1) split: list.split)

lemma set_translate_diff_generation [relay_simps]:
  "v2_generation (set_translate_diff g down d s) = v2_generation s"
  by (simp add: set_translate_diff_def)

lemma credit_shares_generation [relay_simps]:
  "v2_generation (fst (credit_shares now d n s)) = v2_generation s"
  by (simp add: credit_shares_def note_low_ratio2_def Let_def)

lemma credit_translate_generation [relay_simps]:
  "v2_generation (fst (credit_translate now g down s)) = v2_generation s"
  by (simp add: credit_translate_def credit_shares_generation)

text \<open>A line in three steps: a job, a difficulty, a result.\<close>

lemma notify_keeps:
  "v2_generation (snd (on_sv1_notify l g down n ss)) = v2_generation (snd ss)"
  "g \<noteq> v2_generation (snd ss) \<Longrightarrow> snd (on_sv1_notify l g down n ss) = snd ss"
  by (auto simp: on_sv1_notify_def Let_def send_job_def send_translate_generation send_translate_stale
      split: prod.split sum.split option.split)

lemma difficulty_keeps:
  "v2_generation (on_sv1_difficulty g down d s) = v2_generation s"
  "g \<noteq> v2_generation s \<Longrightarrow> on_sv1_difficulty g down d s = s"
  by (auto simp: on_sv1_difficulty_def Let_def send_translate_generation set_translate_diff_generation
      send_translate_stale set_translate_diff_def split: option.split)

lemma credit_translate_stale: "g \<noteq> v2_generation s \<Longrightarrow> credit_translate now g down s = (s, [])"
  by (simp add: credit_translate_def)

lemma result_keeps:
  "v2_generation (snd (fst (on_sv1_result now g down m ss))) = v2_generation (snd ss)"
  "g \<noteq> v2_generation (snd ss) \<Longrightarrow> snd (fst (on_sv1_result now g down m ss)) = snd ss"
  "g \<noteq> v2_generation (snd ss) \<Longrightarrow> snd (on_sv1_result now g down m ss) = []"
  using credit_translate_generation [of now g down "snd ss"] credit_translate_stale [of g "snd ss" now down]
  by (auto simp: on_sv1_result_def Let_def send_translate_generation send_translate_stale
      split: option.split prod.split)

lemma translated_line_keeps:
  "v2_generation (snd (fst (handle_sv1_line l now g down wl ss))) = v2_generation (snd ss)"
  "g \<noteq> v2_generation (snd ss) \<Longrightarrow> snd (fst (handle_sv1_line l now g down wl ss)) = snd ss"
  "g \<noteq> v2_generation (snd ss) \<Longrightarrow> snd (handle_sv1_line l now g down wl ss) = []"
  by (auto simp: handle_sv1_line_def notify_keeps difficulty_keeps result_keeps split: option.split)

lemma open_keeps_generation:
  "v2_generation (on_open_success l f s) = v2_generation s"
  "v2_generation (on_open_error l f s) = v2_generation s"
proof -
  have m: "v2_generation (snd (map_group up e x)) = v2_generation x" for up e x
    by (simp add: map_group_def split: option.split)
  have o: "v2_generation (finish_open l info member sp x) = v2_generation x" for info member sp x
    by (simp add: finish_open_def split_def Let_def register_channel_def send_built_generation m)
  show "v2_generation (on_open_success l f s) = v2_generation s"
    by (simp add: on_open_success_def o split: option.split)
  have "v2_generation (fold (\<lambda>m. send_member m (Fwd f)) ms x) = v2_generation x" for ms x
    by (induction ms arbitrary: x) (simp_all add: send_member_fields(1))
  then show "v2_generation (on_open_error l f s) = v2_generation s"
    by (simp add: on_open_error_def send_built_generation split: option.split)
qed

lemma forward_down_generation: "v2_generation (forward_down f up s) = v2_generation s"
  using fold_send_generation [of "\<lambda>g. Fwd (rewrite_channel_id g f)" "group_recipients up s" s]
  by (simp add: forward_down_def Let_def send_member_fields(1) split: option.split)

lemma submit_keeps_generation: "v2_generation (fst (on_submit_success l now f up s)) = v2_generation s"
  by (simp add: on_submit_success_def Let_def credit_shares_generation)

lemma set_target_generation: "v2_generation (on_set_target l f up s) = v2_generation s"
  by (simp add: on_set_target_def split: option.split)

lemma upstream_frame_keeps:
  "v2_generation (fst (on_upstream_frame l now g f s)) = v2_generation s"
  "g \<noteq> v2_generation s \<Longrightarrow> on_upstream_frame l now g f s = (s, [])"
proof -
  have "v2_generation (fst (let (s2, ev) = (if b then on_submit_success l now f up x else (x, []))
      in (forward_down f up s2, ev))) = v2_generation x" for b up x
    using submit_keeps_generation [of l now f up x]
    by (auto simp: forward_down_generation Let_def split: prod.split)
  then show "v2_generation (fst (on_upstream_frame l now g f s)) = v2_generation s"
    unfolding on_upstream_frame_def Let_def [of "if _ then on_set_target _ _ _ _ else _"]
    by (simp add: open_keeps_generation set_target_generation split: option.split)
  show "g \<noteq> v2_generation s \<Longrightarrow> on_upstream_frame l now g f s = (s, [])"
    by (simp add: on_upstream_frame_def split: option.split)
qed

interpretation sv2_reader: gen_guard v2_generation "v2_react l" for l
proof unfold_locales
  fix g m and s :: sv2_session
  show "v2_react l g m s = (s, [])" if "g \<noteq> v2_generation s"
  proof (cases m)
    case (NativeFrame now f)
    with that show ?thesis by (simp add: upstream_frame_keeps)
  next
    case (TranslatedLine now down wl st)
    with that show ?thesis
      using translated_line_keeps(2,3) [of g "(st, s)" l now down wl] by (auto simp: split_def Let_def)
  qed
  show "v2_generation (fst (v2_react l g m s)) = v2_generation s"
  proof (cases m)
    case (NativeFrame now f)
    then show ?thesis by (simp add: upstream_frame_keeps)
  next
    case (TranslatedLine now down wl st)
    then show ?thesis
      using translated_line_keeps(1) [of l now g down wl "(st, s)"] by (simp add: split_def Let_def)
  qed
qed

end
