(* ===== verification/Sv2_Swap.thy ===== *)
theory Sv2_Swap
  imports Sv2_Readers
begin

text \<open>
  Properties of the swap of a rig's upstream (\<open>Sv2Session::swap_upstream\<close>) and of what is built
  on it: what the miners keep and are told, which frames of the new pool survive the re-open,
  that an outage never turns into a downgrade, and that the supervisor recovers from one.
\<close>

section \<open>Re-opening\<close>

definition reopened_channel :: "lib \<Rightarrow> u32 \<times> u32 \<times> open_spec \<times> u32 \<Rightarrow> channel_info \<Rightarrow> sv2_channel" where
  "reopened_channel l spc info = (case spc of (down, owner, sp, down_group) \<Rightarrow>
     \<lparr>ch_down = down, ch_up = ci_up_channel_id info, ch_spec = sp,
      ch_difficulty = Finite (difficulty_from_target l (ci_target info)), ch_owner = owner,
      ch_up_group = (if is_extended sp then ci_group_channel_id info else 0),
      ch_down_group = down_group\<rparr>)"

definition repoint_entry :: "u32 \<times> u32 \<times> open_spec \<times> u32 \<Rightarrow> channel_info \<Rightarrow> u32 \<times> u32 \<times> bytes \<times> bytes" where
  "repoint_entry spc info = (case spc of (down, owner, sp, down_group) \<Rightarrow>
     (down, owner, ci_extranonce_prefix info, ci_target info))"

lemma reopen_one_fields:
  "ro_channels (reopen_one l spc info r) = ro_channels r @ [reopened_channel l spc info]"
  "ro_repoint (reopen_one l spc info r) = ro_repoint r @ [repoint_entry spc info]"
  by (simp_all add: reopen_one_def reopened_channel_def repoint_entry_def Let_def split: prod.split)

text \<open>The i-th channel is opened by the i-th success the connection delivers; every other frame
  on the way is deferred, in order.\<close>

lemma reopen_all_split:
  assumes "reopen_all l n url i ident specs tfs deferred r = Inr (r', deferred', rest)"
  shows "\<exists>infos segs fs. length infos = length specs \<and> length segs = length specs
     \<and> length fs = length specs
     \<and> ro_channels r' = ro_channels r @ map2 (reopened_channel l) specs infos
     \<and> ro_repoint r' = ro_repoint r @ map2 repoint_entry specs infos
     \<and> tfs = concat (map2 (\<lambda>seg f. map Sv2Frame (seg @ [f])) segs fs) @ rest
     \<and> deferred' = deferred @ concat segs \<and> map (parse_open_success l) fs = map Some infos"
  using assms
proof (induction specs arbitrary: i tfs deferred r)
  case Nil
  then show ?case by (intro exI [of _ "[]"]) simp
next
  case (Cons spc specs)
  obtain info d' t' where o: "open_on l n url i (fst (snd (snd spc))) ident tfs deferred = (Inr info, d', t')"
    and r: "reopen_all l n url (Suc i) ident specs t' d' (reopen_one l spc info r) = Inr (r', deferred', rest)"
    using Cons.prems by (auto split: prod.splits sum.splits)
  from o have "await_open l tfs deferred = (Inr info, d', t')"
    by (auto simp: open_on_def split: option.splits if_splits)
  from await_open_split [OF this] obtain seg f where s: "tfs = map Sv2Frame seg @ Sv2Frame f # t'"
    "d' = deferred @ seg" "parse_open_success l f = Some info" by blast
  from Cons.IH [OF r] obtain infos segs fs where h: "length infos = length specs"
    "length segs = length specs" "length fs = length specs"
    "ro_channels r' = ro_channels (reopen_one l spc info r) @ map2 (reopened_channel l) specs infos"
    "ro_repoint r' = ro_repoint (reopen_one l spc info r) @ map2 repoint_entry specs infos"
    "t' = concat (map2 (\<lambda>seg f. map Sv2Frame (seg @ [f])) segs fs) @ rest"
    "deferred' = d' @ concat segs" "map (parse_open_success l) fs = map Some infos" by blast
  show ?case
    by (intro exI [of _ "info # infos"] exI [of _ "seg # segs"] exI [of _ "f # fs"])
      (use h s in \<open>simp add: reopen_one_fields\<close>)
qed

section \<open>What the members are told\<close>

definition repoint_frames :: "u32 \<Rightarrow> u32 \<times> u32 \<times> bytes \<times> bytes \<Rightarrow> out_frame list" where
  "repoint_frames m e = (case e of (down, owner, prefix, target) \<Rightarrow>
     (if owner = m then [Built (SetExtranoncePrefix down prefix), Built (SetTarget down target)] else []))"

text \<open>Telling members something changes only what they have been sent.\<close>

definition told :: "sv2_session \<Rightarrow> sv2_session \<Rightarrow> bool" where
  "told s s' \<longleftrightarrow> s' = s\<lparr>v2_members := v2_members s'\<rparr> \<and> map fst (v2_members s') = map fst (v2_members s)"

lemma told_refl [simp]: "told s s"
  by (simp add: told_def)

lemma told_trans: "told s s1 \<Longrightarrow> told s1 s2 \<Longrightarrow> told s s2"
  unfolding told_def
proof (elim conjE, intro conjI)
  assume 1: "s1 = s\<lparr>v2_members := v2_members s1\<rparr>" and 2: "s2 = s1\<lparr>v2_members := v2_members s2\<rparr>"
  show "s2 = s\<lparr>v2_members := v2_members s2\<rparr>" by (subst 2, subst 1) simp
qed simp

lemma told_send [simp]: "told s (send_member m f s)"
  by (simp add: told_def send_member_fields(20)) (simp add: send_member_def split: option.split)

lemma told_snapshot [simp]: "told s (send_snapshot members m f s)"
  by (simp add: send_snapshot_def)

lemma told_repoint: "told s (snd (repoint_all members rp s))"
proof (induction members rp s rule: repoint_all.induct)
  case (1 members s)
  show ?case by simp
next
  case (2 members down owner prefix target rest s)
  show ?case
  proof (cases "owner \<in> set members \<and> set_extranonce_prefix down prefix \<noteq> None")
    case False
    with 2 show ?thesis by auto
  next
    case True
    then obtain f where o: "owner \<in> set members" and f: "set_extranonce_prefix down prefix = Some f" by blast
    show ?thesis
    proof (cases "set_target down target")
      case None
      with o f show ?thesis by (simp add: Let_def)
    next
      case (Some g)
      have "told s (snd (repoint_all members rest (send_snapshot members owner g (send_snapshot members owner f s))))"
        by (rule told_trans [OF told_trans [OF told_snapshot told_snapshot] 2(1) [OF o f refl Some]])
      with o f Some show ?thesis by (simp add: Let_def)
    qed
  qed
qed

lemma told_notify: "told s (notify_abandoned members ab s)"
  unfolding notify_abandoned_def
proof (induction ab arbitrary: s)
  case Nil
  show ?case by simp
next
  case (Cons a ab)
  show ?case by (cases a) (auto intro: told_trans [OF told_snapshot Cons.IH] Cons.IH split: option.split)
qed

lemma told_finish: "told s (snd (finish_repoint members rp ab s))"
  using told_repoint [of s members rp] told_trans [OF _ told_notify]
  by (auto simp: finish_repoint_def split: prod.split sum.split)

text \<open>And exactly this has been sent, to members of the snapshot that are still there.\<close>

lemma snapshot_sent:
  "map_of (v2_members (send_snapshot members m f s)) m' =
     map_option (\<lambda>q. if m' = m \<and> m \<in> set members then q @ [f] else q) (map_of (v2_members s) m')"
  by (auto simp: send_snapshot_def send_member_sent option.map_id [unfolded id_def] intro!: option.map_cong)

lemma repoint_all_sent:
  assumes "repoint_all members rp s = (Inr (), s')" "m \<in> set members"
  shows "map_of (v2_members s') m =
     map_option (\<lambda>q. q @ concat (map (repoint_frames m) rp)) (map_of (v2_members s) m)"
  using assms
proof (induction members rp s rule: repoint_all.induct)
  case (1 members s)
  then show ?case by (simp add: option.map_id [unfolded id_def])
next
  case (2 members down owner prefix target rest s)
  show ?case
  proof (cases "owner \<in> set members")
    case False
    with 2 have "owner \<noteq> m" by auto
    with 2 False show ?thesis by (simp add: repoint_frames_def)
  next
    case True
    then obtain f g where f: "set_extranonce_prefix down prefix = Some f" "set_target down target = Some g"
      and r: "repoint_all members rest (send_snapshot members owner g (send_snapshot members owner f s)) = (Inr (), s')"
      using "2.prems" by (auto simp: Let_def split: option.splits)
    from f have fg: "f = Built (SetExtranoncePrefix down prefix)" "g = Built (SetTarget down target)"
      by (auto simp: set_extranonce_prefix_def set_target_def split: if_splits)
    from "2.IH"(1) [OF True f(1) refl f(2) r "2.prems"(2)] show ?thesis
      by (cases "map_of (v2_members s) m") (auto simp: snapshot_sent True repoint_frames_def fg)
  qed
qed

lemma notify_abandoned_sent:
  assumes "m \<in> set members"
  shows "map_of (v2_members (notify_abandoned members ab s)) m =
     map_option (\<lambda>q. q @ map (\<lambda>(m', req). Built (OpenMiningChannelError req ''upstream switched; please reopen''))
       (filter (\<lambda>(m', req). m' = m) ab)) (map_of (v2_members s) m)"
  unfolding notify_abandoned_def
proof (induction ab arbitrary: s)
  case Nil
  show ?case by (simp add: option.map_id [unfolded id_def])
next
  case (Cons a ab)
  obtain m' req where a: "a = (m', req)" by (cases a)
  have e: "open_channel_error req ''upstream switched; please reopen''
      = Some (Built (OpenMiningChannelError req ''upstream switched; please reopen''))"
    by (simp add: open_channel_error_def fits_str0255_def)
  show ?case
    using Cons.IH [of "send_snapshot members m' (Built (OpenMiningChannelError req ''upstream switched; please reopen'')) s"] assms
    by (cases "map_of (v2_members s) m") (auto simp: a e snapshot_sent)
qed

section \<open>The install\<close>

text \<open>The state a native install leaves, before anyone is told.\<close>

definition native_state :: "u64 \<Rightarrow> upstream_target \<Rightarrow> routing \<Rightarrow> reopened \<Rightarrow> sv2_session \<Rightarrow> sv2_session" where
  "native_state gen target r ro s = (install_active gen target s)\<lparr>v2_channels := ro_channels ro,
     v2_up_to_down := ro_up_to_down ro, v2_group_down := ro_group_down ro,
     v2_pending := [], v2_routing := r, v2_translating := False\<rparr>"

lemma install_native_state:
  "install_native sn target r ro s = finish_repoint (sn_members sn) (ro_repoint ro) (abandoned_of s)
     (native_state (sn_generation sn) target r ro s)"
  by (simp add: install_native_def native_state_def Let_def)

lemma native_state_fields [relay_simps]:
  "v2_generation (native_state gen target r ro s) = gen" "v2_target (native_state gen target r ro s) = target"
  "v2_channels (native_state gen target r ro s) = ro_channels ro"
  "v2_pending (native_state gen target r ro s) = []" "v2_routing (native_state gen target r ro s) = r"
  "v2_translating (native_state gen target r ro s) = False" "v2_to_up (native_state gen target r ro s) = []"
  "v2_generation_counter (native_state gen target r ro s) = v2_generation_counter s"
  "v2_members (native_state gen target r ro s) = v2_members s"
  "v2_next_down_cid (native_state gen target r ro s) = v2_next_down_cid s"
  "v2_next_up_req (native_state gen target r ro s) = v2_next_up_req s"
  "v2_next_member_id (native_state gen target r ro s) = v2_next_member_id s"
  "v2_delivered_work (native_state gen target r ro s) = v2_delivered_work s"
  "v2_default_target (native_state gen target r ro s) = v2_default_target s"
  "v2_label (native_state gen target r ro s) = v2_label s"
  "v2_epoch (native_state gen target r ro s) = v2_epoch s"
  "v2_group_down (native_state gen target r ro s) = ro_group_down ro"
  by (simp_all add: native_state_def install_active_def)

lemma told_fields:
  assumes "told s s'"
  shows "v2_generation s' = v2_generation s" "v2_target s' = v2_target s" "v2_channels s' = v2_channels s"
    "v2_pending s' = v2_pending s" "v2_routing s' = v2_routing s" "v2_translating s' = v2_translating s"
    "v2_to_up s' = v2_to_up s" "v2_generation_counter s' = v2_generation_counter s"
    "v2_next_down_cid s' = v2_next_down_cid s" "v2_next_up_req s' = v2_next_up_req s"
    "v2_next_member_id s' = v2_next_member_id s" "v2_delivered_work s' = v2_delivered_work s"
    "v2_default_target s' = v2_default_target s" "v2_label s' = v2_label s" "v2_epoch s' = v2_epoch s"
    "v2_group_down s' = v2_group_down s" "v2_up_to_down s' = v2_up_to_down s"
    "map fst (v2_members s') = map fst (v2_members s)" "v2_idle_token s' = v2_idle_token s"
proof -
  from assms have e: "s' = s\<lparr>v2_members := v2_members s'\<rparr>" by (simp add: told_def)
  show "v2_generation s' = v2_generation s" "v2_target s' = v2_target s" "v2_channels s' = v2_channels s"
    "v2_pending s' = v2_pending s" "v2_routing s' = v2_routing s" "v2_translating s' = v2_translating s"
    "v2_to_up s' = v2_to_up s" "v2_generation_counter s' = v2_generation_counter s"
    "v2_next_down_cid s' = v2_next_down_cid s" "v2_next_up_req s' = v2_next_up_req s"
    "v2_next_member_id s' = v2_next_member_id s" "v2_delivered_work s' = v2_delivered_work s"
    "v2_default_target s' = v2_default_target s" "v2_label s' = v2_label s" "v2_epoch s' = v2_epoch s"
    "v2_group_down s' = v2_group_down s" "v2_up_to_down s' = v2_up_to_down s"
    by (subst e, simp)+
  show "map fst (v2_members s') = map fst (v2_members s)" using assms by (simp add: told_def)
  show "v2_idle_token s' = v2_idle_token s" by (subst e, simp)
qed

definition translate_state :: "u64 \<Rightarrow> upstream_target \<Rightarrow> routing \<Rightarrow> u32 \<times> u32 \<times> open_spec \<Rightarrow> sv1_up_conn
    \<Rightarrow> sv2_session \<Rightarrow> sv2_session" where
  "translate_state gen target r first conn s = (case first of (down, owner, sp) \<Rightarrow>
     (install_active gen target s)\<lparr>v2_channels := [translated_channel down owner sp conn],
       v2_up_to_down := [(down, down)], v2_group_down := [], v2_pending := [],
       v2_routing := r, v2_translating := True\<rparr>)"

lemma install_translate_state:
  "install_translate gen target r members first conn s = (case first of (down, owner, sp) \<Rightarrow>
     finish_repoint members
       [(down, owner, vc_extranonce1 conn, target_from_difficulty (vc_initial_diff conn))]
       (abandoned_of s) (translate_state gen target r first conn s))"
  by (simp add: install_translate_def translate_state_def Let_def split: prod.split)

lemma finish_repoint_told:
  "finish_repoint members rp ab s = (res, s') \<Longrightarrow> told s s'"
  using told_finish [of s members rp ab] by simp

text \<open>A swap in cases: an unreachable pool, a pool that does not speak SV2, a native one.\<close>

definition counted :: "sv2_session \<Rightarrow> sv2_session" where
  "counted s = s\<lparr>v2_generation_counter := v2_generation_counter s + 1\<rparr>"

lemma swap_snapshot_eq:
  "swap_snapshot_of s = (\<lparr>sn_specs = map (\<lambda>c. (ch_down c, ch_owner c, ch_spec c, ch_down_group c)) (v2_channels s),
     sn_generation = v2_generation_counter s + 1, sn_label = v2_label s,
     sn_members = map fst (v2_members s)\<rparr>, counted s)"
  by (simp add: swap_snapshot_of_def counted_def Let_def)

lemma swap_cases:
  "swap_upstream2 l n target r s = (case probe_sv2 l n target of
     Inl (Unreachable e) \<Rightarrow> (Inl UnreachableNoDowngrade, counted s)
   | Inl (NotSv2 e) \<Rightarrow> swap_to_sv1_translate l n target r (v2_generation_counter s + 1)
       (upstream_worker (t_user target) (v2_label s)) (counted s)
   | Inr (tfs, x) \<Rightarrow>
       (case reopen_all l n (t_url target) 1 (upstream_worker (t_user target) (v2_label s))
          (map (\<lambda>c. (ch_down c, ch_owner c, ch_spec c, ch_down_group c)) (v2_channels s)) tfs []
          reopened_none of
          Inl err \<Rightarrow> (Inl err, counted s)
        | Inr (ro, deferred, rest) \<Rightarrow>
            finish_repoint (map fst (v2_members s)) (ro_repoint ro) (abandoned_of s)
              (native_state (v2_generation_counter s + 1) target r ro (counted s))))"
proof (cases "probe_sv2 l n target")
  case (Inl f)
  then show ?thesis
    by (cases f) (simp_all add: swap_upstream2_def swap_snapshot_eq Let_def)
next
  case (Inr c)
  have ab: "abandoned_of (counted s) = abandoned_of s" by (simp add: abandoned_of_def counted_def)
  obtain tfs x where c: "c = (tfs, x)" by (cases c)
  let ?R = "reopen_all l n (t_url target) 1 (upstream_worker (t_user target) (v2_label s))
    (map (\<lambda>c. (ch_down c, ch_owner c, ch_spec c, ch_down_group c)) (v2_channels s)) tfs [] reopened_none"
  show ?thesis
  proof (cases ?R)
    case R: (Inl err)
    with Inr c show ?thesis by (simp add: swap_upstream2_def swap_snapshot_eq Let_def)
  next
    case R: (Inr res)
    obtain ro deferred rest where "res = (ro, deferred, rest)" by (cases res)
    with R Inr c ab show ?thesis
      by (simp add: swap_upstream2_def swap_snapshot_eq install_native_state Let_def)
  qed
qed

lemma swap_translates:
  assumes "probe_sv2 l n target = Inl (NotSv2 e)" "swap_upstream2 l n target r s = (Inr (), s')"
  obtains c cs conn where "v2_channels s = c # cs"
    "told (translate_state (v2_generation_counter s + 1) target r (ch_down c, ch_owner c, ch_spec c) conn (counted s)) s'"
proof -
  let ?i = "upstream_worker (t_user target) (v2_label s)"
  have w: "swap_to_sv1_translate l n target r (v2_generation_counter s + 1) ?i (counted s) = (Inr (), s')"
    using assms by (simp add: swap_cases)
  have ch: "v2_channels (counted s) = v2_channels s" by (simp add: counted_def)
  from w obtain c cs where c: "v2_channels s = c # cs"
    by (cases "v2_channels s") (simp_all add: swap_to_sv1_translate_def ch)
  with w obtain conn where "connect_sv1_upstream l n target ?i = Inr conn"
    by (cases "connect_sv1_upstream l n target ?i") (simp_all add: swap_to_sv1_translate_def ch)
  with w c have "finish_repoint (map fst (v2_members (counted s)))
      [(ch_down c, ch_owner c, vc_extranonce1 conn, target_from_difficulty (vc_initial_diff conn))]
      (abandoned_of (counted s))
      (translate_state (v2_generation_counter s + 1) target r (ch_down c, ch_owner c, ch_spec c) conn (counted s))
      = (Inr (), s')"
    by (simp add: swap_to_sv1_translate_def ch install_translate_state)
  from that [OF c finish_repoint_told [OF this]] show thesis .
qed

lemma swap_native:
  assumes "swap_upstream2 l n target r s = (Inr (), s')" "\<not> v2_translating s'"
  obtains tfs x ro deferred rest where "probe_sv2 l n target = Inr (tfs, x)"
    "reopen_all l n (t_url target) 1 (upstream_worker (t_user target) (v2_label s))
       (map (\<lambda>c. (ch_down c, ch_owner c, ch_spec c, ch_down_group c)) (v2_channels s)) tfs []
       reopened_none = Inr (ro, deferred, rest)"
    "finish_repoint (map fst (v2_members s)) (ro_repoint ro) (abandoned_of s)
       (native_state (v2_generation_counter s + 1) target r ro (counted s)) = (Inr (), s')"
proof (cases "probe_sv2 l n target")
  case (Inl f)
  show thesis
  proof (cases f)
    case (Unreachable e)
    with Inl assms show thesis by (simp add: swap_cases)
  next
    case (NotSv2 e)
    with Inl have "probe_sv2 l n target = Inl (NotSv2 e)" by simp
    from this assms(1) show thesis
    proof (rule swap_translates)
      fix c conn
      assume "told (translate_state (v2_generation_counter s + 1) target r
        (ch_down c, ch_owner c, ch_spec c) conn (counted s)) s'"
      from told_fields(6) [OF this] assms(2) show thesis by (simp add: translate_state_def)
    qed
  qed
next
  case (Inr c)
  obtain tfs x where c: "c = (tfs, x)" by (cases c)
  let ?R = "reopen_all l n (t_url target) 1 (upstream_worker (t_user target) (v2_label s))
    (map (\<lambda>c. (ch_down c, ch_owner c, ch_spec c, ch_down_group c)) (v2_channels s)) tfs [] reopened_none"
  show thesis
  proof (cases ?R)
    case R: (Inl err)
    with Inr c assms(1) show thesis by (simp add: swap_cases)
  next
    case R: (Inr res)
    obtain ro deferred rest where res: "res = (ro, deferred, rest)" by (cases res)
    have "finish_repoint (map fst (v2_members s)) (ro_repoint ro) (abandoned_of s)
       (native_state (v2_generation_counter s + 1) target r ro (counted s)) = (Inr (), s')"
      using assms(1) R Inr c res by (simp add: swap_cases)
    with that [of tfs x ro deferred rest] R Inr c res show thesis by simp
  qed
qed

end
