(* ===== verification/Sv1_Props.thy ===== *)
theory Sv1_Props
  imports Sv1_Conn
begin

text \<open>
  Properties of the SV1 session: what a share is credited with and when, why a pool cannot
  report more accepted shares than the miner submitted.
\<close>

section \<open>A response and its submit\<close>

lemma send_miner_simps [relay_simps]:
  "s1_pending (send_miner wl s) = s1_pending s" "s1_routing (send_miner wl s) = s1_routing s"
  "s1_delivered_work (send_miner wl s) = s1_delivered_work s"
  "s1_accepted (send_miner wl s) = s1_accepted s" "s1_submitted (send_miner wl s) = s1_submitted s"
  "s1_difficulty (send_miner wl s) = s1_difficulty s" "s1_target (send_miner wl s) = s1_target s"
  "s1_label (send_miner wl s) = s1_label s" "s1_translating (send_miner wl s) = s1_translating s"
  "s1_capable (send_miner wl s) = s1_capable s" "s1_prelude (send_miner wl s) = s1_prelude s"
  "s1_generation_counter (send_miner wl s) = s1_generation_counter s"
  "s1_reconnect (send_miner wl s) = s1_reconnect s"
  "s1_to_miner (send_miner wl s) = s1_to_miner s @ [wl]"
  by (simp_all add: send_miner_def)

lemma note_low_ratio_simps [relay_simps]:
  "s1_pending (note_low_ratio s) = s1_pending s" "s1_routing (note_low_ratio s) = s1_routing s"
  "s1_delivered_work (note_low_ratio s) = s1_delivered_work s"
  "s1_accepted (note_low_ratio s) = s1_accepted s" "s1_submitted (note_low_ratio s) = s1_submitted s"
  "s1_translating (note_low_ratio s) = s1_translating s"
  by (simp_all add: note_low_ratio_def)

text \<open>What a line of the active upstream does, by the kind of line.\<close>

lemma upstream_line_request:
  assumes "rpc_parse wl = Some m" "m_method m \<noteq> None"
  shows "snd (upstream_line now gen wl s) = []"
    "s1_pending (fst (upstream_line now gen wl s)) = s1_pending s"
    "s1_routing (fst (upstream_line now gen wl s)) = s1_routing s"
    "s1_accepted (fst (upstream_line now gen wl s)) = s1_accepted s"
    "s1_submitted (fst (upstream_line now gen wl s)) = s1_submitted s"
    "s1_delivered_work (fst (upstream_line now gen wl s)) = s1_delivered_work s"
  using assms
  by (auto simp: upstream_line_def on_upstream_msg_def relay_simps split: option.split)

lemma upstream_line_response:
  assumes "rpc_parse wl = Some m" "m_method m = None" "gen = s1_generation s"
  shows "upstream_line now gen wl s =
    (send_miner (to_line m) (fst (on_upstream_response now gen m s)), snd (on_upstream_response now gen m s))"
  using assms by (simp add: upstream_line_def on_upstream_msg_def split_def Let_def)

lemma response_simps:
  fixes s :: sv1_session and m :: rpc_message
  defines "e \<equiv> map_of (s1_pending s) (id_key (m_id m))"
  shows "s1_routing (fst (on_upstream_response now gen m s)) = s1_routing s"
    "s1_submitted (fst (on_upstream_response now gen m s)) = s1_submitted s"
    "s1_translating (fst (on_upstream_response now gen m s)) = s1_translating s"
    "s1_pending (fst (on_upstream_response now gen m s)) =
       (if e = None then s1_pending s else AList.delete (id_key (m_id m)) (s1_pending s))"
    "s1_accepted (fst (on_upstream_response now gen m s)) = s1_accepted s +
       (case e of Some (g, d) \<Rightarrow> if g = gen \<and> m_result m = Some (JBool True) then 1 else 0 | None \<Rightarrow> 0)"
    "s1_delivered_work (fst (on_upstream_response now gen m s)) = s1_delivered_work s +
       (case e of Some (g, d) \<Rightarrow> if g = gen \<and> m_result m = Some (JBool True) then d else 0 | None \<Rightarrow> 0)"
    "snd (on_upstream_response now gen m s) =
       (case e of Some (g, d) \<Rightarrow> if g = gen \<and> m_result m = Some (JBool True)
          then (case s1_routing s of Rented oid \<Rightarrow> [Credit oid d 1] | Idle \<Rightarrow> []) else [] | None \<Rightarrow> [])"
  unfolding e_def
  by (auto simp: on_upstream_response_def credit_one_def relay_simps Let_def split: option.split)

lemma upstream_line_keeps:
  fixes s :: sv1_session
  assumes "\<forall>m. rpc_parse wl = Some m \<and> m_method m = None \<longrightarrow> id_key (m_id m) \<noteq> k"
  shows "map_of (s1_pending (fst (upstream_line now gen wl s))) k = map_of (s1_pending s) k"
    "s1_routing (fst (upstream_line now gen wl s)) = s1_routing s"
proof -
  have "map_of (s1_pending (fst (upstream_line now gen wl s))) k = map_of (s1_pending s) k
    \<and> s1_routing (fst (upstream_line now gen wl s)) = s1_routing s"
  proof (cases "rpc_parse wl")
    case None
    then show ?thesis by (simp add: upstream_line_def)
  next
    case (Some m)
    show ?thesis
    proof (cases "m_method m = None \<and> gen = s1_generation s")
      case True
      with assms Some have "id_key (m_id m) \<noteq> k" by blast
      with True Some show ?thesis
        by (simp add: upstream_line_response relay_simps response_simps)
    next
      case False
      with Some show ?thesis
        by (cases "m_method m = None") (simp_all add: upstream_line_request upstream_line_stale)
    qed
  qed
  then show "map_of (s1_pending (fst (upstream_line now gen wl s))) k = map_of (s1_pending s) k"
    "s1_routing (fst (upstream_line now gen wl s)) = s1_routing s" by blast+
qed

definition no_response_to :: "json \<Rightarrow> (u64 \<times> instant \<times> line) list \<Rightarrow> bool" where
  "no_response_to k ms \<longleftrightarrow> (\<forall>(g, t, wl)\<in>set ms. \<forall>m. rpc_parse wl = Some m \<and> m_method m = None
     \<longrightarrow> id_key (m_id m) \<noteq> k)"

lemma deliver_keeps:
  "no_response_to k ms \<Longrightarrow>
   map_of (s1_pending (fst (sv1_reader.deliver ms s))) k = map_of (s1_pending s) k
   \<and> s1_routing (fst (sv1_reader.deliver ms s)) = s1_routing s"
proof (induction ms arbitrary: s)
  case Nil
  show ?case by simp
next
  case (Cons e ms)
  obtain g t wl where e: "e = (g, t, wl)" by (cases e)
  from Cons.prems e have ms: "no_response_to k ms"
    and wl: "\<forall>m. rpc_parse wl = Some m \<and> m_method m = None \<longrightarrow> id_key (m_id m) \<noteq> k"
    by (auto simp: no_response_to_def)
  from Cons.IH [OF ms, of "fst (upstream_line t g wl s)"] upstream_line_keeps [OF wl] show ?case
    by (simp add: e split_def Let_def)
qed

lemma submit_simps:
  assumes "m_method sub = Some ''mining.submit''" "\<not> s1_translating s"
  shows "map_of (s1_pending (fst (on_miner_msg sub s))) (id_key (m_id sub))
      = Some (s1_generation s, s1_difficulty s)"
    "s1_routing (fst (on_miner_msg sub s)) = s1_routing s"
    "s1_generation (fst (on_miner_msg sub s)) = s1_generation s"
  using assms by (simp_all add: on_miner_msg_def send_up_def Let_def)


definition demo_pool :: upstream_target where
  "demo_pool = \<lparr>t_url = ''pool:1'', t_user = ''acct'', t_password = ''x'', t_authority = None\<rparr>"

definition demo_session :: sv1_session where
  "demo_session = (new_session ''1.2.3.4:5'' demo_pool)\<lparr>s1_routing := Rented ''o1'', s1_difficulty := 8\<rparr>"

definition demo_submit :: rpc_message where
  "demo_submit = rpc_request (JInt 4) ''mining.submit'' (JArr [JStr ''w.rig'', JStr ''job''])"


section \<open>What a pool can report\<close>

text \<open>A passthrough session's inputs, in any order: lines of any reader, messages of the miner,
  and swaps to another SV1 pool.\<close>

datatype session_event =
    UpLine instant u64 line
  | MinerMsg rpc_message
  | Swapped lib sv1_conn bool u64 upstream_target routing

fun session_step :: "session_event \<Rightarrow> sv1_session \<Rightarrow> sv1_session" where
  "session_step (UpLine now g wl) s = fst (upstream_line now g wl s)"
| "session_step (MinerMsg m) s = fst (on_miner_msg m s)"
| "session_step (Swapped l conn capable g target r) s =
     swap_finish l (RawSv1 conn) capable g target r (snd (swap_begin s))"

definition shares_inv :: "nat \<Rightarrow> sv1_session \<Rightarrow> bool" where
  "shares_inv k s \<longleftrightarrow> al_keys_distinct (s1_pending s) \<and> unat (s1_submitted s) \<le> k
     \<and> unat (s1_accepted s) + length (s1_pending s) \<le> unat (s1_submitted s)"

lemma fold_send_miner_fields [relay_simps]:
  "s1_pending (fold send_miner ls s) = s1_pending s"
  "s1_accepted (fold send_miner ls s) = s1_accepted s"
  "s1_submitted (fold send_miner ls s) = s1_submitted s"
  "s1_generation (fold send_miner ls s) = s1_generation s"
  "s1_target (fold send_miner ls s) = s1_target s"
  "s1_routing (fold send_miner ls s) = s1_routing s"
  "s1_default_target (fold send_miner ls s) = s1_default_target s"
  "s1_to_up (fold send_miner ls s) = s1_to_up s"
  "s1_label (fold send_miner ls s) = s1_label s"
  "s1_generation_counter (fold send_miner ls s) = s1_generation_counter s"
  "s1_delivered_work (fold send_miner ls s) = s1_delivered_work s"
  "s1_reconnect (fold send_miner ls s) = s1_reconnect s"
  "s1_prelude (fold send_miner ls s) = s1_prelude s"
  "s1_translating (fold send_miner ls s) = s1_translating s"
  "s1_to_miner (fold send_miner ls s) = s1_to_miner s @ ls"
  by (induction ls arbitrary: s) (simp_all add: relay_simps send_miner_def)

lemma swap_finish_sv1:
  "s1_pending (swap_finish l (RawSv1 conn) capable g target r s) = []"
  "s1_accepted (swap_finish l (RawSv1 conn) capable g target r s) = s1_accepted s"
  "s1_submitted (swap_finish l (RawSv1 conn) capable g target r s) = s1_submitted s"
  by (cases capable; simp add: swap_finish_def install_raw_def relay_simps force_reconnect_def)+

lemma length_AList_delete_less:
  "map_of m k \<noteq> None \<Longrightarrow> length (AList.delete k m) < length m"
proof -
  assume "map_of m k \<noteq> None"
  then obtain v where "(k, v) \<in> set m" by (auto dest: map_of_in_set)
  then show ?thesis unfolding AList.delete_eq by (rule length_filter_less) simp
qed

lemma length_AList_update_le: "length (AList.update k v m) \<le> Suc (length m)"
  by (induction m) auto

lemma unat_inc: "unat w + 1 \<le> k \<Longrightarrow> k < 2 ^ 64 \<Longrightarrow> unat (w + 1 :: u64) = unat w + 1"
  by (simp add: unat_add_lem [THEN iffD1])

lemma shares_inv_mono: "shares_inv k s \<Longrightarrow> k \<le> k' \<Longrightarrow> shares_inv k' s"
  by (auto simp: shares_inv_def)

lemma shares_inv_same:
  "shares_inv k s \<Longrightarrow> s1_pending s' = s1_pending s \<Longrightarrow> s1_accepted s' = s1_accepted s \<Longrightarrow>
   s1_submitted s' = s1_submitted s \<Longrightarrow> shares_inv k s'"
  by (simp add: shares_inv_def)

lemma shares_inv_response:
  assumes inv: "shares_inv k s" and k: "k < 2 ^ 64"
  shows "shares_inv k (fst (on_upstream_response now g m s))"
proof (cases "map_of (s1_pending s) (id_key (m_id m))")
  case None
  then show ?thesis
    by (intro shares_inv_same [OF inv]) (simp_all add: response_simps)
next
  case (Some gd)
  let ?d = "AList.delete (id_key (m_id m)) (s1_pending s)"
  have l: "length ?d < length (s1_pending s)" using Some by (intro length_AList_delete_less) simp
  with inv have "unat (s1_accepted s) + 1 \<le> k" by (simp add: shares_inv_def)
  from unat_inc [OF this k] l inv Some show ?thesis
    by (cases gd) (auto simp: shares_inv_def response_simps)
qed

lemma shares_inv_line:
  assumes "shares_inv k s" "Suc k < 2 ^ 64"
  shows "shares_inv k (fst (upstream_line now g wl s))"
proof (cases "rpc_parse wl")
  case None
  with assms(1) show ?thesis by (simp add: upstream_line_def)
next
  case (Some m)
  show ?thesis
  proof (cases "m_method m = None \<and> g = s1_generation s")
    case True
    have "shares_inv k (fst (on_upstream_response now g m s))"
      using shares_inv_response [OF assms(1)] assms(2) by simp
    from shares_inv_same [OF this] True Some show ?thesis
      by (simp add: upstream_line_response relay_simps)
  next
    case False
    with Some show ?thesis
      by (cases "m_method m = None"; intro shares_inv_same [OF assms(1)])
        (simp_all add: upstream_line_stale upstream_line_request)
  qed
qed

lemma shares_inv_step:
  assumes inv: "shares_inv k s" and k: "Suc k < 2 ^ 64"
  shows "shares_inv (Suc k) (session_step e s)"
proof (cases e)
  case (UpLine now g wl)
  with shares_inv_line [OF assms, of now g wl] show ?thesis by (simp add: shares_inv_mono)
next
  case (MinerMsg m)
  show ?thesis
  proof (cases "m_method m = Some ''mining.submit''")
    case True
    have "unat (s1_submitted s) + 1 \<le> Suc k" using inv by (simp add: shares_inv_def)
    from unat_inc [OF this k] inv True show ?thesis
      using length_AList_update_le [of "id_key (m_id m)" "(s1_generation s, s1_difficulty s)" "s1_pending s"]
      by (auto simp: MinerMsg shares_inv_def on_miner_msg_def send_up_def Let_def)
  next
    case False
    then have "shares_inv k (fst (on_miner_msg m s))"
      by (intro shares_inv_same [OF inv]) (simp_all add: on_miner_msg_def send_up_def)
    then show ?thesis by (auto simp: MinerMsg elim: shares_inv_mono)
  qed
next
  case (Swapped l conn capable g target r)
  have "shares_inv k (session_step e s)"
    using inv by (auto simp: Swapped shares_inv_def swap_finish_sv1 swap_begin_def Let_def)
  then show ?thesis by (auto elim: shares_inv_mono)
qed

lemma shares_inv_run:
  "shares_inv k s \<Longrightarrow> k + length es < 2 ^ 64 \<Longrightarrow> shares_inv (k + length es) (fold session_step es s)"
proof (induction es arbitrary: k s)
  case Nil
  then show ?case by simp
next
  case (Cons e es)
  from Cons.prems have "shares_inv (Suc k) (session_step e s)" by (intro shares_inv_step) auto
  from Cons.IH [OF this] Cons.prems show ?case by simp
qed

text \<open>C39: Whatever the pools of a passthrough session answer, and however their lines, the
  miner's messages and swaps between pools interleave, the session counts at most as many
  accepted shares as the miner submitted (an unanswered submit is never counted, and an
  answer repeated or made up is not counted at all), so its accept ratio is at most one.\<close>

theorem accepted_at_most_submitted:
  assumes "length es < 2 ^ 64"
  shows "unat (s1_accepted (fold session_step es (new_session peer target)))
       + length (s1_pending (fold session_step es (new_session peer target)))
      \<le> unat (s1_submitted (fold session_step es (new_session peer target)))
    \<and> accept_ratio (s1_accepted (fold session_step es (new_session peer target)))
        (s1_submitted (fold session_step es (new_session peer target))) \<le> 1"
proof -
  have "shares_inv 0 (new_session peer target)" by (simp add: shares_inv_def new_session_def)
  from shares_inv_run [OF this, of es] assms
  have inv: "shares_inv (length es) (fold session_step es (new_session peer target))" by simp
  then have "unat (s1_accepted (fold session_step es (new_session peer target)))
      \<le> unat (s1_submitted (fold session_step es (new_session peer target)))"
    by (simp add: shares_inv_def)
  then have "f64_of_u64 (s1_accepted (fold session_step es (new_session peer target)))
      \<le> f64_of_u64 (s1_submitted (fold session_step es (new_session peer target)))"
    by (simp add: f64_of_u64_def del: of_nat_unat)
  then have "accept_ratio (s1_accepted (fold session_step es (new_session peer target)))
        (s1_submitted (fold session_step es (new_session peer target))) \<le> 1"
    by (auto simp: accept_ratio_def divide_le_eq less_le)
  with inv show ?thesis by (simp add: shares_inv_def)
qed

theorem accepted_at_most_submitted_witness:
  "unat (s1_accepted (fold session_step [MinerMsg demo_submit,
      UpLine 1 0 (to_line (rpc_reply (Some (JInt 4)) (JBool True) JNull)),
      UpLine 2 0 (to_line (rpc_reply (Some (JInt 4)) (JBool True) JNull)),
      UpLine 3 0 (to_line (rpc_reply (Some (JInt 9)) (JBool True) JNull))]
     (new_session ''p'' demo_pool))) \<le>
   unat (s1_submitted (fold session_step [MinerMsg demo_submit,
      UpLine 1 0 (to_line (rpc_reply (Some (JInt 4)) (JBool True) JNull)),
      UpLine 2 0 (to_line (rpc_reply (Some (JInt 4)) (JBool True) JNull)),
      UpLine 3 0 (to_line (rpc_reply (Some (JInt 9)) (JBool True) JNull))]
     (new_session ''p'' demo_pool)))"
  using accepted_at_most_submitted [of "[MinerMsg demo_submit,
      UpLine 1 0 (to_line (rpc_reply (Some (JInt 4)) (JBool True) JNull)),
      UpLine 2 0 (to_line (rpc_reply (Some (JInt 4)) (JBool True) JNull)),
      UpLine 3 0 (to_line (rpc_reply (Some (JInt 9)) (JBool True) JNull))]" "''p''" demo_pool]
  by simp

end
