(* ===== verification/Sv2_Swap_Props.thy ===== *)
theory Sv2_Swap_Props
  imports Sv2_Swap Sv1_Props
begin

text \<open>
  What a swap of a rig's upstream guarantees: to the miners, to the frames of the new pool,
  against the old pool, and against a downgrade when a pool is merely down.
\<close>

section \<open>A successful swap\<close>

lemma translate_state_fields [relay_simps]:
  "v2_generation (translate_state gen target r p conn s) = gen"
  "v2_target (translate_state gen target r p conn s) = target"
  "v2_routing (translate_state gen target r p conn s) = r"
  "v2_pending (translate_state gen target r p conn s) = []"
  "v2_generation_counter (translate_state gen target r p conn s) = v2_generation_counter s"
  "v2_translating (translate_state gen target r p conn s) = True"
  "v2_next_down_cid (translate_state gen target r p conn s) = v2_next_down_cid s"
  "v2_epoch (translate_state gen target r p conn s) = v2_epoch s"
  "v2_label (translate_state gen target r p conn s) = v2_label s"
  "v2_default_target (translate_state gen target r p conn s) = v2_default_target s"
  by (simp_all add: translate_state_def install_active_def split: prod.split)

text \<open>Only a pool that answered, and not as an SV2 pool, is translated.\<close>

lemma translating_probe:
  assumes "swap_upstream2 l n target r s = (Inr (), s')" "v2_translating s'"
  shows "\<exists>e. probe_sv2 l n target = Inl (NotSv2 e)"
proof (cases "probe_sv2 l n target")
  case (Inl f)
  with assms(1) show ?thesis by (cases f) (simp_all add: swap_cases)
next
  case (Inr c)
  obtain tfs x where c: "c = (tfs, x)" by (cases c)
  show ?thesis
  proof (cases "reopen_all l n (t_url target) 1 (upstream_worker (t_user target) (v2_label s))
     (map (\<lambda>c. (ch_down c, ch_owner c, ch_spec c, ch_down_group c)) (v2_channels s)) tfs [] reopened_none")
    case (Inl err)
    with Inr c assms(1) show ?thesis by (simp add: swap_cases)
  next
    case R: (Inr res)
    obtain ro deferred rest where "res = (ro, deferred, rest)" by (cases res)
    with assms(1) R Inr c have "finish_repoint (map fst (v2_members s)) (ro_repoint ro) (abandoned_of s)
       (native_state (v2_generation_counter s + 1) target r ro (counted s)) = (Inr (), s')"
      by (simp add: swap_cases)
    from told_fields(6) [OF finish_repoint_told [OF this]] assms(2)
    show ?thesis by (simp add: relay_simps)
  qed
qed

lemma swap_success:
  assumes "swap_upstream2 l n target r s = (Inr (), s')"
  shows "v2_generation s' = v2_generation_counter s + 1"
    "v2_generation_counter s' = v2_generation_counter s + 1"
    "v2_target s' = target" "v2_routing s' = r" "v2_pending s' = []" "v2_epoch s' = v2_epoch s"
    "v2_label s' = v2_label s" "v2_default_target s' = v2_default_target s"
proof -
  have "\<exists>x. told x s' \<and> v2_generation x = v2_generation_counter s + 1
      \<and> v2_generation_counter x = v2_generation_counter s + 1 \<and> v2_target x = target
      \<and> v2_routing x = r \<and> v2_pending x = [] \<and> v2_epoch x = v2_epoch s \<and> v2_label x = v2_label s
      \<and> v2_default_target x = v2_default_target s"
  proof (cases "v2_translating s'")
    case False
    from assms False show ?thesis
    proof (rule swap_native)
      fix ro assume "finish_repoint (map fst (v2_members s)) (ro_repoint ro) (abandoned_of s)
       (native_state (v2_generation_counter s + 1) target r ro (counted s)) = (Inr (), s')"
      from finish_repoint_told [OF this] show ?thesis
        by (intro exI [of _ "native_state (v2_generation_counter s + 1) target r ro (counted s)"])
          (simp add: relay_simps, simp add: counted_def)
    qed
  next
    case True
    from translating_probe [OF assms True] obtain e where "probe_sv2 l n target = Inl (NotSv2 e)"
      by blast
    from this assms show ?thesis
    proof (rule swap_translates)
      fix c conn
      let ?x = "translate_state (v2_generation_counter s + 1) target r
        (ch_down c, ch_owner c, ch_spec c) conn (counted s)"
      assume "told ?x s'"
      then show ?thesis
        by (intro exI [of _ ?x]) (simp add: relay_simps, simp add: counted_def)
    qed
  qed
  then obtain x where x: "told x s'" "v2_generation x = v2_generation_counter s + 1"
    "v2_generation_counter x = v2_generation_counter s + 1" "v2_target x = target"
    "v2_routing x = r" "v2_pending x = []" "v2_epoch x = v2_epoch s" "v2_label x = v2_label s"
    "v2_default_target x = v2_default_target s" by blast
  note f = told_fields [OF x(1)]
  from x f show "v2_generation s' = v2_generation_counter s + 1"
    "v2_generation_counter s' = v2_generation_counter s + 1"
    "v2_target s' = target" "v2_routing s' = r" "v2_pending s' = []" "v2_epoch s' = v2_epoch s"
    "v2_label s' = v2_label s" "v2_default_target s' = v2_default_target s"
    by simp_all
qed

text \<open>A swap of a rig makes every earlier upstream mute: whatever frames or translated lines
  their readers still deliver, in any order, the rig (what its miners have been sent, its
  channels, counters and work) does not change and nothing is credited.\<close>

theorem rig_old_upstreams_are_mute:
  assumes "swap_upstream2 l n target r s = (Inr (), s')"
    and "\<forall>(g, m)\<in>set ms. g \<le> v2_generation_counter s"
    and "v2_generation_counter s \<noteq> - 1"
  shows "sv2_reader.deliver l ms s' = (s', [])"
proof (rule sv2_reader.deliver_all_stale)
  have "\<not> v2_generation_counter s + 1 \<le> v2_generation_counter s"
    using assms(3) by (simp add: inc_less_eq_iff)
  with assms(2) swap_success(1) [OF assms(1)] show "\<forall>(g, m)\<in>set ms. g \<noteq> v2_generation s'"
    by auto
qed

section \<open>The miners' side of a native swap\<close>

definition spec_of :: "sv2_channel \<Rightarrow> u32 \<times> u32 \<times> open_spec \<times> u32" where
  "spec_of c = (ch_down c, ch_owner c, ch_spec c, ch_down_group c)"

text \<open>A channel behind the new pool: the pool's ids and target, everything the miner knows kept.\<close>

definition rehomed :: "lib \<Rightarrow> sv2_channel \<Rightarrow> channel_info \<Rightarrow> sv2_channel" where
  "rehomed l c i = c\<lparr>ch_up := ci_up_channel_id i,
     ch_difficulty := Finite (difficulty_from_target l (ci_target i)),
     ch_up_group := (if is_extended (ch_spec c) then ci_group_channel_id i else 0)\<rparr>"

definition repoint_of :: "u32 \<Rightarrow> sv2_channel \<Rightarrow> channel_info \<Rightarrow> out_frame list" where
  "repoint_of m c i = (if ch_owner c = m
     then [Built (SetExtranoncePrefix (ch_down c) (ci_extranonce_prefix i)),
           Built (SetTarget (ch_down c) (ci_target i))] else [])"

lemma reopened_rehomed: "reopened_channel l (spec_of c) i = rehomed l c i"
  by (cases c) (simp add: reopened_channel_def spec_of_def rehomed_def)

lemma repoint_entry_frames: "repoint_frames m (repoint_entry (spec_of c) i) = repoint_of m c i"
  by (simp add: repoint_frames_def repoint_entry_def spec_of_def repoint_of_def)

lemma map_filter_append:
  "List.map_filter f (xs @ ys) = List.map_filter f xs @ List.map_filter f ys"
  by (simp add: List.map_filter_def)

lemma repoint_frames_all:
  "concat (map (repoint_frames m) (map2 repoint_entry (map spec_of cs) infos))
     = concat (map2 (repoint_of m) cs infos)"
proof (induction cs arbitrary: infos)
  case (Cons c cs)
  then show ?case by (cases infos) (simp_all add: repoint_entry_frames)
qed simp

lemma map2_map1: "map2 f (map g xs) ys = map2 (\<lambda>x. f (g x)) xs ys"
  by (induction xs arbitrary: ys) (auto simp: zip_Cons1 split: list.split)

text \<open>C11: A native swap is invisible in the miners' namespace: every channel keeps its downstream
  id, owner, spec and downstream group, in the same order, and gets the id, group and target the
  new pool assigned; the opens in flight are dropped. Each member is sent, after whatever it
  had, the new prefix and target of exactly its own channels, then one error for each open of
  its own that was in flight.\<close>

theorem swap_keeps_miner_channels:
  assumes "swap_upstream2 l n target r s = (Inr (), s')" and "\<not> v2_translating s'"
  shows "\<exists>infos. length infos = length (v2_channels s)
    \<and> v2_channels s' = map2 (rehomed l) (v2_channels s) infos
    \<and> v2_pending s' = [] \<and> v2_next_down_cid s' = v2_next_down_cid s
    \<and> (\<forall>m sent. map_of (v2_members s) m = Some sent \<longrightarrow>
         map_of (v2_members s') m = Some (sent @ concat (map2 (repoint_of m) (v2_channels s) infos)
           @ map (\<lambda>(req, _). Built (OpenMiningChannelError req ''upstream switched; please reopen''))
               (filter (\<lambda>(req, owner, _). owner = m) (v2_pending s))))"
  using assms
proof (rule swap_native)
  fix tfs x ro deferred rest
  let ?N = "native_state (v2_generation_counter s + 1) target r ro (counted s)"
  let ?ms = "map fst (v2_members s)"
  assume "reopen_all l n (t_url target) 1 (upstream_worker (t_user target) (v2_label s))
       (map (\<lambda>c. (ch_down c, ch_owner c, ch_spec c, ch_down_group c)) (v2_channels s)) tfs []
       reopened_none = Inr (ro, deferred, rest)"
  from reopen_all_split [OF this] obtain infos where
    len: "length infos = length (v2_channels s)"
    and ch: "ro_channels ro = map2 (reopened_channel l) (map spec_of (v2_channels s)) infos"
    and rp: "ro_repoint ro = map2 repoint_entry (map spec_of (v2_channels s)) infos"
    by (auto simp: reopened_none_def spec_of_def [abs_def])
  assume fin: "finish_repoint ?ms (ro_repoint ro) (abandoned_of s) ?N = (Inr (), s')"
  note f = told_fields [OF finish_repoint_told [OF fin]]
  have sent: "map_of (v2_members s') m = Some (sent @ concat (map2 (repoint_of m) (v2_channels s) infos)
       @ map (\<lambda>(req, _). Built (OpenMiningChannelError req ''upstream switched; please reopen''))
           (filter (\<lambda>(req, owner, _). owner = m) (v2_pending s)))"
    if m: "map_of (v2_members s) m = Some sent" for m sent
  proof -
    from m have mem: "m \<in> set ?ms" using map_of_SomeD [OF m] by force
    obtain s1 where r1: "repoint_all ?ms (ro_repoint ro) ?N = (Inr (), s1)"
      and s': "s' = notify_abandoned ?ms (abandoned_of s) s1"
      using fin by (auto simp: finish_repoint_def split: prod.splits sum.splits)
    have N: "map_of (v2_members ?N) m = Some sent"
      using m by (simp add: relay_simps) (simp add: counted_def)
    have "concat (map (repoint_frames m) (ro_repoint ro)) = concat (map2 (repoint_of m) (v2_channels s) infos)"
      by (simp only: rp repoint_frames_all)
    with repoint_all_sent [OF r1 mem] N
    have "map_of (v2_members s1) m = Some (sent @ concat (map2 (repoint_of m) (v2_channels s) infos))"
      by simp
    then show ?thesis
      by (simp add: s' notify_abandoned_sent [OF mem] abandoned_of_def filter_map comp_def split_def)
  qed
  have "v2_next_down_cid ?N = v2_next_down_cid s"
    by (simp add: relay_simps) (simp add: counted_def)
  with f len ch sent show ?thesis
    by (intro exI [of _ infos]) (simp add: relay_simps map2_map1 reopened_rehomed [abs_def])
qed

text \<open>C21: No frame of the new pool is lost or reordered by a native swap: what the new reader
  hands to the session is everything the connection delivers after its setup, in the order of
  arrival, except one open success per channel of the rig. In particular the first job of a
  channel that arrives while a later one is being opened still reaches its miner.\<close>

theorem swap_loses_no_frame:
  assumes "swap_upstream2 l n target r s = (Inr (), s')" and "\<not> v2_translating s'"
  shows "\<exists>tfs x segs opens rest. probe_sv2 l n target = Inr (tfs, x)
    \<and> List.map_filter into_sv2 tfs = concat (map2 (\<lambda>seg f. seg @ [f]) segs opens) @ rest
    \<and> length segs = length (v2_channels s) \<and> length opens = length (v2_channels s)
    \<and> (\<forall>f\<in>set opens. parse_open_success l f \<noteq> None)
    \<and> swap_reader_frames l n target s = concat segs @ rest"
  using assms
proof (rule swap_native)
  fix tfs x ro deferred rest
  assume p: "probe_sv2 l n target = Inr (tfs, x)"
    and R: "reopen_all l n (t_url target) 1 (upstream_worker (t_user target) (v2_label s))
       (map (\<lambda>c. (ch_down c, ch_owner c, ch_spec c, ch_down_group c)) (v2_channels s)) tfs []
       reopened_none = Inr (ro, deferred, rest)"
  from reopen_all_split [OF R] obtain infos segs opens where
    len: "length infos = length (v2_channels s)" "length segs = length (v2_channels s)"
      "length opens = length (v2_channels s)"
    and t: "tfs = concat (map2 (\<lambda>seg f. map Sv2Frame (seg @ [f])) segs opens) @ rest"
    and d: "deferred = concat segs" and i: "map (parse_open_success l) opens = map Some infos"
    by auto
  have mf: "List.map_filter into_sv2 (map Sv2Frame fs) = fs" for fs
    by (induction fs) (simp_all add: into_sv2_def)
  have mfc: "List.map_filter into_sv2 (concat (map2 (\<lambda>seg f. map Sv2Frame (seg @ [f])) ss os))
      = concat (map2 (\<lambda>seg f. seg @ [f]) ss os)" for ss os
  proof (induction ss arbitrary: os)
    case (Cons seg ss)
    then show ?case
      using mf [of "seg @ [hd os]"] by (cases os) (simp_all add: map_filter_append del: map_append)
  qed simp
  have some: "parse_open_success l f \<noteq> None" if "f \<in> set opens" for f
  proof -
    from that have "parse_open_success l f \<in> set (map (parse_open_success l) opens)" by simp
    then show ?thesis unfolding i by auto
  qed
  have "swap_reader_frames l n target s = concat segs @ List.map_filter into_sv2 rest"
    using p R d by (simp add: swap_reader_frames_def swap_snapshot_eq reader_frames_def)
  moreover have "List.map_filter into_sv2 tfs
      = concat (map2 (\<lambda>seg f. seg @ [f]) segs opens) @ List.map_filter into_sv2 rest"
    by (simp only: t map_filter_append mfc)
  ultimately show ?thesis using p len some by blast
qed

section \<open>A rig and a pool for the examples\<close>

text \<open>A pool that accepts the setup, opens two channels and sends the first one's job before the
  second one is open.\<close>

definition job_frame :: sv2_frame where
  "job_frame = frame_of MtNewExtendedMiningJob [21, 77]"

definition opened_frame :: "u32 \<Rightarrow> sv2_frame" where
  "opened_frame cid = frame_of MtOpenExtendedMiningChannelSuccess ([7, cid] @ replicate 8 5 @ [3, 9])"

definition two_pool_frames :: "transport_frame list" where
  "two_pool_frames = [Sv2Frame (frame_of MtSetupConnectionSuccess [2, 0]),
     Sv2Frame (opened_frame 21), Sv2Frame job_frame, Sv2Frame (opened_frame 22)]"

definition pool_net :: net where
  "pool_net = \<lparr>nt_tcp = (\<lambda>u. True), nt_tcp_in_time = (\<lambda>u. True), nt_lines = (\<lambda>u. []),
     nt_frames = (\<lambda>u. two_pool_frames), nt_noise = (\<lambda>u. True), nt_authority_ok = (\<lambda>u. True),
     nt_write_ok = (\<lambda>u i. True), nt_sv1_in_time = (\<lambda>u. True), nt_sv2_in_time = (\<lambda>u. True)\<rparr>"

definition wide_spec :: open_spec where
  "wide_spec = Extended 7 1 (replicate 32 0) 8"

definition sample_pool :: upstream_target where
  "sample_pool = \<lparr>t_url = ''pool:1'', t_user = ''acct'', t_password = ''x'', t_authority = None\<rparr>"

definition bundled_rig :: sv2_session where
  "bundled_rig = (sv2_new ''rig'' sample_pool Idle (Some sample_pool))\<lparr>v2_members := [(1, []), (2, [])],
     v2_next_member_id := 3, v2_next_down_cid := 6, v2_next_up_req := 4,
     v2_channels := [\<lparr>ch_down = 1, ch_up = 11, ch_spec = wide_spec, ch_difficulty = Finite 8,
         ch_owner = 1, ch_up_group = 9, ch_down_group = 5\<rparr>,
       \<lparr>ch_down = 2, ch_up = 12, ch_spec = wide_spec, ch_difficulty = Finite 8,
         ch_owner = 2, ch_up_group = 9, ch_down_group = 5\<rparr>],
     v2_up_to_down := [(11, 1), (12, 2)], v2_group_down := [(9, 5)], v2_pending := [(3, 2, wide_spec)]\<rparr>"

lemma opened_parses:
  "\<exists>i. parse_open_success sample_lib (opened_frame cid) = Some i \<and> length (ci_target i) = 32
     \<and> length (ci_extranonce_prefix i) = 4"
  by (simp add: opened_frame_def parse_open_success_def parse_frame_def msg_type_def sample_lib_def
      sample_dec_def frame_of_def length_concat map_replicate_const sum_list_replicate)

lemma pool_net_probe: "\<exists>x. probe_sv2 sample_lib pool_net sample_pool = Inr (tl two_pool_frames, x)"
  by (simp add: probe_sv2_def pool_net_def setup_over_def parse_authority_def sample_pool_def
      two_pool_frames_def into_sv2_def msg_type_def frame_of_def)

lemma pool_net_swaps:
  "\<exists>s'. swap_upstream2 sample_lib pool_net sample_pool r bundled_rig = (Inr (), s') \<and> \<not> v2_translating s'"
proof -
  obtain x where p: "probe_sv2 sample_lib pool_net sample_pool = Inr (tl two_pool_frames, x)"
    using pool_net_probe by blast
  obtain i1 where i1: "parse_open_success sample_lib (opened_frame 21) = Some i1" "length (ci_target i1) = 32"
    "length (ci_extranonce_prefix i1) = 4" using opened_parses by blast
  obtain i2 where i2: "parse_open_success sample_lib (opened_frame 22) = Some i2" "length (ci_target i2) = 32"
    "length (ci_extranonce_prefix i2) = 4" using opened_parses by blast
  have m: "msg_type (opened_frame c) = Some MtOpenExtendedMiningChannelSuccess"
    "msg_type job_frame = Some MtNewExtendedMiningJob" for c
    by (simp_all add: msg_type_def opened_frame_def job_frame_def frame_of_def)
  have o: "open_channel_upstream wide_spec (upstream_worker ''acct'' ''rig'') q \<noteq> None" for q
    by (simp add: open_channel_upstream_def wide_spec_def upstream_worker_def fits_u256_def fits_str0255_def)
  show ?thesis
    using o [of "request_id wide_spec"] i1 i2 p
    by (auto simp: swap_cases bundled_rig_def sv2_new_def sample_pool_def pool_net_def two_pool_frames_def
        open_on_def m into_sv2_def finish_repoint_def reopen_one_def set_target_def
        set_extranonce_prefix_def reopened_none_def Let_def fits_u256_def fits_b032_def
        told_fields(6) [OF told_notify] told_fields(6) [OF told_snapshot] native_state_fields(6))
qed

theorem rig_old_upstreams_are_mute_witness:
  "\<exists>s'. swap_upstream2 sample_lib pool_net sample_pool Idle bundled_rig = (Inr (), s')
     \<and> sv2_reader.deliver sample_lib [(0, NativeFrame 5 job_frame)] s' = (s', [])"
proof -
  obtain s' where s: "swap_upstream2 sample_lib pool_net sample_pool Idle bundled_rig = (Inr (), s')"
    using pool_net_swaps [of Idle] by blast
  have "sv2_reader.deliver sample_lib [(0, NativeFrame 5 job_frame)] s' = (s', [])"
    by (rule rig_old_upstreams_are_mute [OF s]) (simp_all add: bundled_rig_def sv2_new_def)
  with s show ?thesis by blast
qed

theorem swap_keeps_miner_channels_witness:
  "\<exists>s' infos. swap_upstream2 sample_lib pool_net sample_pool Idle bundled_rig = (Inr (), s')
     \<and> map ch_down (v2_channels s') = [1, 2] \<and> v2_pending s' = []
     \<and> map_of (v2_members s') 2 = Some (concat (map2 (repoint_of 2) (v2_channels bundled_rig) infos)
          @ [Built (OpenMiningChannelError 3 ''upstream switched; please reopen'')])"
proof -
  obtain s' where s: "swap_upstream2 sample_lib pool_net sample_pool Idle bundled_rig = (Inr (), s')"
    "\<not> v2_translating s'"
    using pool_net_swaps [of Idle] by blast
  have c: "length (v2_channels bundled_rig) = 2" "map_of (v2_members bundled_rig) 2 = Some []"
    "v2_pending bundled_rig = [(3, 2, wide_spec)]" "map ch_down (v2_channels bundled_rig) = [1, 2]"
    by (simp_all add: bundled_rig_def)
  from swap_keeps_miner_channels [OF s] obtain infos where i: "length infos = 2"
    "v2_channels s' = map2 (rehomed sample_lib) (v2_channels bundled_rig) infos" "v2_pending s' = []"
    "map_of (v2_members s') 2 = Some (concat (map2 (repoint_of 2) (v2_channels bundled_rig) infos)
          @ [Built (OpenMiningChannelError 3 ''upstream switched; please reopen'')])"
    using c by auto
  from i(1) obtain a b where "infos = [a, b]" by (auto simp: length_Suc_conv numeral_2_eq_2)
  then have "map ch_down (v2_channels s') = [1, 2]"
    by (simp add: i(2) bundled_rig_def rehomed_def)
  with s(1) i(3,4) show ?thesis by (intro exI [of _ s'] exI [of _ infos] conjI)
qed

theorem swap_loses_no_frame_witness:
  "job_frame \<in> set (swap_reader_frames sample_lib pool_net sample_pool bundled_rig)"
proof -
  obtain s' where s: "swap_upstream2 sample_lib pool_net sample_pool Idle bundled_rig = (Inr (), s')"
    "\<not> v2_translating s'"
    using pool_net_swaps [of Idle] by blast
  obtain y where y: "probe_sv2 sample_lib pool_net sample_pool = Inr (tl two_pool_frames, y)"
    using pool_net_probe by blast
  have f: "List.map_filter into_sv2 (tl two_pool_frames) = [opened_frame 21, job_frame, opened_frame 22]"
    by (simp add: two_pool_frames_def into_sv2_def)
  from swap_loses_no_frame [OF s] y obtain segs opens rest where
    e: "[opened_frame 21, job_frame, opened_frame 22] = concat (map2 (\<lambda>seg f. seg @ [f]) segs opens) @ rest"
    and o: "\<forall>f\<in>set opens. parse_open_success sample_lib f \<noteq> None"
    and n: "length segs = length (v2_channels bundled_rig)" "length opens = length (v2_channels bundled_rig)"
    and r: "swap_reader_frames sample_lib pool_net sample_pool bundled_rig = concat segs @ rest"
    unfolding f [symmetric] by fastforce
  have "parse_open_success sample_lib job_frame = None"
    by (simp add: parse_open_success_def parse_frame_def job_frame_def msg_type_def frame_of_def
        sample_lib_def sample_dec_def)
  with o have no: "job_frame \<notin> set opens" by auto
  have sub: "set (concat (map2 (\<lambda>seg f. seg @ [f]) segs opens)) \<subseteq> set (concat segs) \<union> set opens"
    by (force dest: set_zip_leftD set_zip_rightD)
  have "job_frame \<in> set [opened_frame 21, job_frame, opened_frame 22]" by simp
  then have "job_frame \<in> set (concat (map2 (\<lambda>seg f. seg @ [f]) segs opens)) \<union> set rest"
    unfolding e by simp
  with sub no show ?thesis unfolding r set_append by blast
qed

end
