(* ===== verification/Sv2_Reach.thy ===== *)
theory Sv2_Reach
  imports Sv2_Swap_Props
begin

text \<open>
  The life of a rig as a step relation: members come and go, miners and upstreams send frames,
  and a swap proceeds in its three parts (snapshot, connection, install) with any of this in
  between. Reachability counts the steps, so that the bound under which the 32-bit id counters
  cannot wrap is part of the statements.
\<close>

section \<open>Steps\<close>

text \<open>The swap in flight, at most one by the switch lock: its snapshot, or the channel that a
  translated upstream takes over.\<close>

datatype in_flight =
    NoSwap
  | Reopening swap_snapshot
  | Handshaking u64 "u32 list" "u32 \<times> u32 \<times> open_spec"

inductive rig_step :: "lib \<Rightarrow> sv2_session \<times> in_flight \<Rightarrow> sv2_session \<times> in_flight \<Rightarrow> bool" for l where
  attach: "rig_step l (s, x) (snd (attach_member sp s), x)"
| detach: "rig_step l (s, x) (snd (detach_member m s), x)"
| miner: "rig_step l (s, x) (fst (on_miner_frame l m f s), x)"
| upstream: "rig_step l (s, x) (fst (v2_react l g i s), x)"
| reconnect: "rig_step l (s, x) (force_reconnect2 s, x)"
| snapshot: "swap_snapshot_of s = (sn, s') \<Longrightarrow> rig_step l (s, NoSwap) (s', Reopening sn)"
| failed: "rig_step l (s, x) (s, NoSwap)"
| native: "reopen_all l n (t_url target) 1 ident (sn_specs sn) tfs [] reopened_none = Inr (ro, d, rest) \<Longrightarrow>
    rig_step l (s, Reopening sn) (snd (install_native sn target r ro s), NoSwap)"
| pick: "v2_channels s = c # cs \<Longrightarrow> rig_step l (s, Reopening sn)
    (s, Handshaking (sn_generation sn) (map fst (v2_members s)) (ch_down c, ch_owner c, ch_spec c))"
| translated: "rig_step l (s, Handshaking g ms p) (snd (install_translate g target r ms p conn s), NoSwap)"

inductive rig_reach :: "lib \<Rightarrow> nat \<Rightarrow> sv2_session \<times> in_flight \<Rightarrow> bool" for l where
  fresh: "first_upstream l n active target sp worker r member
      (snd (add_member (sv2_new worker target r idle))) = (Inr (), s) \<Longrightarrow> rig_reach l 0 (s, NoSwap)"
| step: "rig_reach l k p \<Longrightarrow> rig_step l p q \<Longrightarrow> rig_reach l (Suc k) q"

section \<open>The ids of a rig\<close>

text \<open>Downstream channel ids are distinct, were handed out by the counter, and are no group id a
  miner was told.\<close>

abbreviation (input) sp_down :: "u32 \<times> u32 \<times> open_spec \<times> u32 \<Rightarrow> u32" where
  "sp_down x \<equiv> fst x"

abbreviation (input) sp_spec :: "u32 \<times> u32 \<times> open_spec \<times> u32 \<Rightarrow> open_spec" where
  "sp_spec x \<equiv> fst (snd (snd x))"

abbreviation (input) sp_group :: "u32 \<times> u32 \<times> open_spec \<times> u32 \<Rightarrow> u32" where
  "sp_group x \<equiv> snd (snd (snd x))"

definition ids_ok :: "u32 \<Rightarrow> (u32 \<times> u32 \<times> open_spec \<times> u32) list \<Rightarrow> bool" where
  "ids_ok next cs \<longleftrightarrow> distinct (map sp_down cs) \<and> (\<forall>x\<in>set cs. 0 < sp_down x \<and> sp_down x < next)
     \<and> (\<forall>x\<in>set cs. is_extended (sp_spec x) \<longrightarrow> sp_group x < next \<and> (\<forall>y\<in>set cs. sp_down y \<noteq> sp_group x))"

definition groups_ok :: "u32 \<Rightarrow> u32 list \<Rightarrow> (u32 \<times> u32) list \<Rightarrow> bool" where
  "groups_ok next downs gs \<longleftrightarrow> (\<forall>g\<in>snd ` set gs. g < next \<and> g \<notin> set downs)"

definition keys_ok :: "u32 \<Rightarrow> (u32 \<times> 'a) list \<Rightarrow> bool" where
  "keys_ok next m \<longleftrightarrow> distinct (map fst m) \<and> (\<forall>k\<in>set (map fst m). k < next)"

definition rig_ok :: "sv2_session \<Rightarrow> bool" where
  "rig_ok s \<longleftrightarrow> 0 < v2_next_down_cid s \<and> ids_ok (v2_next_down_cid s) (map spec_of (v2_channels s))
     \<and> groups_ok (v2_next_down_cid s) (map ch_down (v2_channels s)) (v2_group_down s)
     \<and> keys_ok (v2_next_up_req s) (v2_pending s) \<and> keys_ok (v2_next_member_id s) (v2_members s)
     \<and> (v2_translating s \<longrightarrow> v2_pending s = [] \<and> length (v2_channels s) \<le> 1)
     \<and> v2_generation s \<le> v2_generation_counter s"

fun flight_ok :: "in_flight \<Rightarrow> sv2_session \<Rightarrow> bool" where
  "flight_ok NoSwap s = True"
| "flight_ok (Reopening sn) s = (ids_ok (v2_next_down_cid s) (sn_specs sn)
     \<and> v2_generation s < sn_generation sn \<and> sn_generation sn \<le> v2_generation_counter s)"
| "flight_ok (Handshaking g ms (down, owner, sp)) s = (0 < down \<and> down < v2_next_down_cid s
     \<and> v2_generation s < g \<and> g \<le> v2_generation_counter s)"

text \<open>How far the counters can be after \<open>k\<close> steps.\<close>

definition counters_ok :: "nat \<Rightarrow> sv2_session \<Rightarrow> bool" where
  "counters_ok k s \<longleftrightarrow> unat (v2_next_down_cid s) \<le> 2 * k + 3 \<and> unat (v2_next_up_req s) \<le> k + 3
     \<and> unat (v2_next_member_id s) \<le> k + 2 \<and> unat (v2_generation_counter s) \<le> k"

lemma ids_ok_mono: "ids_ok next cs \<Longrightarrow> next \<le> next' \<Longrightarrow> ids_ok next' cs"
  unfolding ids_ok_def by (elim conjE, intro conjI ballI impI) (assumption | blast intro: less_le_trans)+

lemma ids_ok_filter: "ids_ok next cs \<Longrightarrow> ids_ok next (filter P cs)"
  unfolding ids_ok_def by (elim conjE, intro conjI ballI impI) (auto intro: distinct_map_filter)

lemma ids_ok_add:
  assumes "ids_ok next cs" "next < next'" "0 < next"
    and "is_extended sp \<longrightarrow> g < next' \<and> g \<noteq> next \<and> (\<forall>y\<in>set cs. sp_down y \<noteq> g)"
  shows "ids_ok next' (cs @ [(next, m, sp, g)])"
proof -
  from assms(1) have d: "distinct (map fst cs)" and lo: "\<And>x. x \<in> set cs \<Longrightarrow> 0 < fst x \<and> fst x < next"
    and gn: "\<And>x. x \<in> set cs \<Longrightarrow> is_extended (sp_spec x) \<Longrightarrow> sp_group x < next"
    and gr: "\<And>x y. x \<in> set cs \<Longrightarrow> is_extended (sp_spec x) \<Longrightarrow> y \<in> set cs \<Longrightarrow> fst y \<noteq> sp_group x"
    unfolding ids_ok_def by blast+
  have lt: "fst x < next'" if "x \<in> set cs" for x using lo [OF that] assms(2) by (auto intro: less_trans)
  have gl: "sp_group x < next' \<and> sp_group x \<noteq> next" if "x \<in> set cs" "is_extended (sp_spec x)" for x
    using gn [OF that] assms(2) by (auto intro: less_trans)
  show ?thesis
    unfolding ids_ok_def
  proof (intro conjI ballI impI)
    show "distinct (map fst (cs @ [(next, m, sp, g)]))" using d lo by auto
  next
    fix x assume "x \<in> set (cs @ [(next, m, sp, g)])"
    then have "x \<in> set cs \<or> fst x = next" by auto
    then show "0 < fst x" "fst x < next'" using lo [of x] lt [of x] assms(2,3) by blast+
  next
    fix x assume x: "x \<in> set (cs @ [(next, m, sp, g)])" "is_extended (sp_spec x)"
    then have "x \<in> set cs \<or> is_extended sp \<and> sp_group x = g" by auto
    then show "sp_group x < next'" using gl [of x] x(2) assms(4) by auto
  next
    fix x y assume "x \<in> set (cs @ [(next, m, sp, g)])" "is_extended (sp_spec x)" and
      "y \<in> set (cs @ [(next, m, sp, g)])"
    then consider "x \<in> set cs" "y \<in> set cs" | "x \<in> set cs" "fst y = next"
      | "is_extended sp" "sp_group x = g" "y \<in> set cs \<or> fst y = next" by auto
    then show "fst y \<noteq> sp_group x"
      using gr [of x y] gl [of x] assms(4) \<open>is_extended (sp_spec x)\<close> by cases auto
  qed
qed

lemma keys_ok_mono: "keys_ok next m \<Longrightarrow> next \<le> next' \<Longrightarrow> keys_ok next' m"
  unfolding keys_ok_def by (auto intro: less_le_trans)

lemma keys_ok_update: "keys_ok next m \<Longrightarrow> next < next' \<Longrightarrow> keys_ok next' (AList.update next v m)"
  unfolding keys_ok_def by (auto simp: update_keys dest: less_trans)

lemma keys_ok_filter: "keys_ok next m \<Longrightarrow> keys_ok next (filter P m)"
  unfolding keys_ok_def by (auto intro: distinct_map_filter)

lemma keys_ok_delete: "keys_ok next m \<Longrightarrow> keys_ok next (AList.delete k m)"
  unfolding AList.delete_eq by (rule keys_ok_filter)

lemma keys_ok_Nil [simp]: "keys_ok next []"
  by (simp add: keys_ok_def)

section \<open>Steps that hand out no id\<close>

definition same_ids :: "sv2_session \<Rightarrow> sv2_session \<Rightarrow> bool" where
  "same_ids s s' \<longleftrightarrow> map spec_of (v2_channels s') = map spec_of (v2_channels s)
     \<and> v2_group_down s' = v2_group_down s \<and> v2_pending s' = v2_pending s
     \<and> v2_next_down_cid s' = v2_next_down_cid s \<and> v2_next_up_req s' = v2_next_up_req s
     \<and> v2_next_member_id s' = v2_next_member_id s
     \<and> map fst (v2_members s') = map fst (v2_members s) \<and> v2_translating s' = v2_translating s
     \<and> v2_generation_counter s' = v2_generation_counter s \<and> v2_generation s' = v2_generation s
     \<and> v2_label s' = v2_label s \<and> v2_idle_token s' = v2_idle_token s"

lemma same_ids_refl [simp]: "same_ids s s"
  by (simp add: same_ids_def)

lemma same_ids_trans: "same_ids s s1 \<Longrightarrow> same_ids s1 s2 \<Longrightarrow> same_ids s s2"
  by (simp add: same_ids_def)

lemma spec_of_downs: "map ch_down cs = map fst (map spec_of cs)"
  by (simp add: spec_of_def)

lemma keys_ok_keys: "map fst m = map fst m' \<Longrightarrow> keys_ok next m = keys_ok next m'"
  by (simp add: keys_ok_def del: set_map)

lemma same_ids_ok:
  assumes "same_ids s s'"
  shows "rig_ok s' = rig_ok s" "counters_ok k s' = counters_ok k s" "flight_ok x s' = flight_ok x s"
proof -
  have c: "map spec_of (v2_channels s') = map spec_of (v2_channels s)" using assms by (simp add: same_ids_def)
  then have "map ch_down (v2_channels s') = map ch_down (v2_channels s)"
    "length (v2_channels s') = length (v2_channels s)"
    by (simp add: spec_of_downs, metis length_map)
  moreover have "keys_ok (v2_next_member_id s) (v2_members s') = keys_ok (v2_next_member_id s) (v2_members s)"
    using assms by (intro keys_ok_keys) (simp add: same_ids_def)
  ultimately show "rig_ok s' = rig_ok s"
    using assms by (simp add: rig_ok_def same_ids_def)
  show "counters_ok k s' = counters_ok k s" using assms by (simp add: counters_ok_def same_ids_def)
  show "flight_ok x s' = flight_ok x s"
    using assms by (cases "(x, s)" rule: flight_ok.cases) (simp_all add: same_ids_def)
qed

lemma told_same_ids: "told s s' \<Longrightarrow> same_ids s s'"
  using told_fields [of s s'] by (simp add: same_ids_def)

lemma send_same_ids [simp]:
  "same_ids s (send_member m f s)" "same_ids s (send_built m g s)" "same_ids s (send_upstream f s)"
  by (simp add: told_same_ids, simp add: send_built_def told_same_ids split: option.split,
      simp add: same_ids_def send_upstream_def)

lemma fold_same_ids:
  assumes "\<And>x y. same_ids y (F x y)"
  shows "same_ids s (fold F xs s)"
proof (induction xs arbitrary: s)
  case (Cons x xs)
  show ?case using same_ids_trans [OF assms Cons.IH] by simp
qed simp

lemma forward_same_ids [simp]: "same_ids s (forward_down f up s)"
proof -
  have "same_ids s (fold (\<lambda>(g, m). send_member m (Fwd (rewrite_channel_id g f))) ps s)" for ps
    by (rule fold_same_ids) (simp split: prod.split)
  then show ?thesis by (simp add: forward_down_def Let_def split: option.split)
qed

lemma account_same_ids [simp]: "same_ids s (fst (credit_shares now d n s))"
  by (simp add: credit_shares_def note_low_ratio2_def Let_def same_ids_def)

lemma spec_of_difficulty [simp]: "spec_of (c\<lparr>ch_difficulty := d\<rparr>) = spec_of c"
  by (simp add: spec_of_def)

lemma target_same_ids [simp]:
  "same_ids s (on_set_target l f up s)" "same_ids s (set_translate_diff g down d s)"
  by (simp_all add: on_set_target_def set_translate_diff_def same_ids_def map_update_first
      split: option.split)

lemma translate_send_same_ids [simp]: "same_ids s (send_translate_frame g f s)"
  by (simp add: send_translate_frame_def split: list.split)

lemma then_translate_send [intro]: "same_ids s s1 \<Longrightarrow> same_ids s (send_translate_frame g f s1)"
  by (rule same_ids_trans [OF _ translate_send_same_ids])

lemma credit_translate_same_ids [simp]: "same_ids s (fst (credit_translate now g down s))"
  by (simp add: credit_translate_def)

lemma notify_same_ids: "same_ids (snd ss) (snd (on_sv1_notify l g down n ss))"
proof -
  have "same_ids s (send_job g j p s)" for j p s
    by (auto simp: send_job_def Let_def split: option.split)
  then show ?thesis by (auto simp: on_sv1_notify_def Let_def split: prod.split sum.split)
qed

lemma difficulty_same_ids: "same_ids s (on_sv1_difficulty g down d s)"
  by (auto simp: on_sv1_difficulty_def Let_def split: option.split)

lemma result_same_ids: "same_ids (snd ss) (snd (fst (on_sv1_result now g down m ss)))"
proof -
  have "same_ids (snd ss) x" if "credit_translate now g down (snd ss) = (x, e)" for x e
    using credit_translate_same_ids [of "snd ss" now g down] unfolding that by simp
  then show ?thesis by (auto simp: on_sv1_result_def Let_def split: option.split prod.split)
qed

lemma line_same_ids: "same_ids (snd ss) (snd (fst (handle_sv1_line l now g down wl ss)))"
  by (simp add: handle_sv1_line_def notify_same_ids difficulty_same_ids result_same_ids split: option.split)

lemma reconnect_same_ids: "same_ids s (force_reconnect2 s)"
  by (simp add: force_reconnect2_def same_ids_def)

lemma submit_success_same_ids: "same_ids s (fst (on_submit_success l now f up s))"
  by (simp add: on_submit_success_def Let_def)

section \<open>Steps that hand out ids\<close>

lemma u32_inc:
  "unat (w :: u32) < 2 ^ 32 - 1 \<Longrightarrow> unat (w + 1) = Suc (unat w) \<and> w < w + 1"
proof -
  assume "unat w < 2 ^ 32 - 1"
  then have "unat w + unat (1 :: u32) < 2 ^ LENGTH(32)" by simp
  then have "unat (w + 1) = Suc (unat w)" by (simp add: unat_add_lem [THEN iffD1])
  then show ?thesis by (simp add: word_less_nat_alt)
qed

definition roomy :: "nat \<Rightarrow> bool" where
  "roomy k \<longleftrightarrow> 2 * k + 8 < 2 ^ 32"

lemma roomy_incs:
  assumes "roomy k" "counters_ok k s"
  shows "unat (v2_next_up_req s + 1) = Suc (unat (v2_next_up_req s))" "v2_next_up_req s < v2_next_up_req s + 1"
    "unat (v2_next_member_id s + 1) = Suc (unat (v2_next_member_id s))"
    "v2_next_member_id s < v2_next_member_id s + 1"
    "unat (v2_next_down_cid s + 1) = Suc (unat (v2_next_down_cid s))"
    "v2_next_down_cid s < v2_next_down_cid s + 1"
    "unat (v2_next_down_cid s + 1 + 1) = Suc (Suc (unat (v2_next_down_cid s)))"
    "v2_next_down_cid s + 1 < v2_next_down_cid s + 1 + 1"
proof -
  have "unat (v2_next_up_req s) < 2 ^ 32 - 1" "unat (v2_next_member_id s) < 2 ^ 32 - 1"
    and d: "unat (v2_next_down_cid s) < 2 ^ 32 - 2"
    using assms by (simp_all add: roomy_def counters_ok_def)
  from u32_inc [OF this(1)] u32_inc [OF this(2)]
  show "unat (v2_next_up_req s + 1) = Suc (unat (v2_next_up_req s))" "v2_next_up_req s < v2_next_up_req s + 1"
    "unat (v2_next_member_id s + 1) = Suc (unat (v2_next_member_id s))"
    "v2_next_member_id s < v2_next_member_id s + 1" by simp_all
  from d have "unat (v2_next_down_cid s) < 2 ^ 32 - 1" by simp
  note i = u32_inc [OF this]
  with d have "unat (v2_next_down_cid s + 1) < 2 ^ 32 - 1" by simp
  from u32_inc [OF this] i
  show "unat (v2_next_down_cid s + 1) = Suc (unat (v2_next_down_cid s))"
    "v2_next_down_cid s < v2_next_down_cid s + 1"
    "unat (v2_next_down_cid s + 1 + 1) = Suc (Suc (unat (v2_next_down_cid s)))"
    "v2_next_down_cid s + 1 < v2_next_down_cid s + 1 + 1" by simp_all
qed

lemma counters_mono: "counters_ok k s \<Longrightarrow> counters_ok (Suc k) s"
  by (simp add: counters_ok_def)

lemma groups_ok_mono: "groups_ok next ds gs \<Longrightarrow> next \<le> next' \<Longrightarrow> groups_ok next' ds gs"
  by (auto simp: groups_ok_def intro: less_le_trans)

text \<open>Asking the pool for a channel.\<close>

lemma request_open_ok:
  assumes "rig_ok s" "counters_ok k s" "roomy k" "\<not> v2_translating s"
  shows "rig_ok (request_open m sp s)" "counters_ok (Suc k) (request_open m sp s)"
    "flight_ok x s \<Longrightarrow> flight_ok x (request_open m sp s)"
proof -
  note i = roomy_incs(1,2) [OF assms(3,2)]
  have up: "rig_ok (s\<lparr>v2_next_up_req := v2_next_up_req s + 1, v2_pending := p\<rparr>)"
    if "keys_ok (v2_next_up_req s + 1) p" for p
    using that assms(1,4) i by (simp add: rig_ok_def)
  have k: "keys_ok (v2_next_up_req s + 1) (v2_pending s)"
    "keys_ok (v2_next_up_req s + 1) (AList.update (v2_next_up_req s) v (v2_pending s))" for v
    using assms(1) i(2) by (auto simp: rig_ok_def intro: keys_ok_mono keys_ok_update)
  show "rig_ok (request_open m sp s)"
    using up [OF k(1)] up [OF k(2)]
    by (simp add: request_open_def Let_def same_ids_ok(1) [OF send_same_ids(3)] split: option.split)
  show "counters_ok (Suc k) (request_open m sp s)"
    using assms(2) i by (simp add: request_open_def Let_def counters_ok_def send_upstream_def split: option.split)
  show "flight_ok x s \<Longrightarrow> flight_ok x (request_open m sp s)"
    by (cases "(x, s)" rule: flight_ok.cases)
      (simp_all add: request_open_def Let_def send_upstream_def split: option.split)
qed

lemma add_member_ok:
  assumes "rig_ok s" "counters_ok k s" "roomy k"
  shows "rig_ok (snd (add_member s))" "flight_ok x s \<Longrightarrow> flight_ok x (snd (add_member s))"
    "\<not> v2_translating s \<Longrightarrow> \<not> v2_translating (snd (add_member s))"
proof -
  note i = roomy_incs(3,4) [OF assms(3,2)]
  show "rig_ok (snd (add_member s))"
    using assms(1) i by (simp add: rig_ok_def add_member_def keys_ok_update)
  show "flight_ok x s \<Longrightarrow> flight_ok x (snd (add_member s))"
    by (cases "(x, s)" rule: flight_ok.cases) (simp_all add: add_member_def)
  show "\<not> v2_translating s \<Longrightarrow> \<not> v2_translating (snd (add_member s))" by (simp add: add_member_def)
qed

lemma attach_ok:
  assumes "rig_ok s" "counters_ok k s" "roomy k"
  shows "rig_ok (snd (attach_member sp s))" "counters_ok (Suc k) (snd (attach_member sp s))"
    "flight_ok x s \<Longrightarrow> flight_ok x (snd (attach_member sp s))"
proof -
  let ?s = "snd (add_member s)"
  have f: "v2_next_up_req ?s = v2_next_up_req s" "v2_next_down_cid ?s = v2_next_down_cid s"
    "v2_generation_counter ?s = v2_generation_counter s"
    "v2_next_member_id ?s = v2_next_member_id s + 1"
    by (simp_all add: add_member_def)
  have a: "snd (attach_member sp s) = (if v2_translating s then s else request_open (v2_next_member_id s) sp ?s)"
    by (simp add: attach_member_def add_member_def)
  note i = roomy_incs [OF assms(3,2)]
  show "rig_ok (snd (attach_member sp s))"
  proof (cases "v2_translating s")
    case False
    have "keys_ok (v2_next_up_req s + 1) (v2_pending s)"
      "keys_ok (v2_next_up_req s + 1) (AList.update (v2_next_up_req s) v (v2_pending s))" for v
      using assms(1) i(2) by (auto simp: rig_ok_def intro: keys_ok_mono keys_ok_update)
    then show ?thesis
      using add_member_ok(1) [OF assms] False
      by (auto simp: a request_open_def Let_def rig_ok_def send_upstream_def add_member_def split: option.split)
  qed (simp add: a assms)
  show "counters_ok (Suc k) (snd (attach_member sp s))"
    using assms(2) i by (simp add: a counters_ok_def request_open_def Let_def send_upstream_def f split: option.split)
  show "flight_ok x s \<Longrightarrow> flight_ok x (snd (attach_member sp s))"
    by (cases "(x, s)" rule: flight_ok.cases)
      (simp_all add: a request_open_def Let_def send_upstream_def add_member_def split: option.split)
qed

text \<open>A member leaving: its channels, opens and sink go, everything else stays.\<close>

definition close_fold :: "bool \<Rightarrow> u32 list \<Rightarrow> sv2_session \<Rightarrow> sv2_session" where
  "close_fold tr ups s = fold (\<lambda>up x. (case (if \<not> tr then close_channel_upstream up else None) of
      None \<Rightarrow> x | Some f \<Rightarrow> send_upstream f x)
    \<lparr>v2_up_to_down := AList.delete up (v2_up_to_down x)\<rparr>) ups s"

lemma close_fold_same_ids: "same_ids s (close_fold tr ups s)"
  unfolding close_fold_def
  by (rule fold_same_ids) (simp add: same_ids_def send_upstream_def split: option.split)

lemma close_fold_sent:
  "v2_to_up (close_fold tr ups s) = v2_to_up s @
     (if tr then [] else map (\<lambda>up. Built (CloseChannel up ''member disconnected'')) ups)
   \<and> v2_channels (close_fold tr ups s) = v2_channels s \<and> v2_members (close_fold tr ups s) = v2_members s
   \<and> v2_pending (close_fold tr ups s) = v2_pending s
   \<and> v2_up_to_down (close_fold tr ups s) = fold AList.delete ups (v2_up_to_down s)"
proof (induction ups arbitrary: s)
  case Nil
  show ?case by (simp add: close_fold_def)
next
  case (Cons up ups)
  have c: "close_channel_upstream up = Some (Built (CloseChannel up ''member disconnected''))"
    by (simp add: close_channel_upstream_def fits_str0255_def)
  have step: "close_fold tr (up # ups) s = close_fold tr ups
      ((if tr then s else send_upstream (Built (CloseChannel up ''member disconnected'')) s)
        \<lparr>v2_up_to_down := AList.delete up (v2_up_to_down s)\<rparr>)"
    by (simp add: close_fold_def c send_upstream_def)
  show ?case by (simp add: step Cons.IH send_upstream_def)
qed

lemma detach_member_eq:
  "detach_member m s =
     (let s2 = close_fold (v2_translating s) (map ch_up (filter (\<lambda>c. ch_owner c = m) (v2_channels s)))
            (s\<lparr>v2_members := AList.delete m (v2_members s)\<rparr>)
      in (AList.delete m (v2_members s) = [],
          s2\<lparr>v2_channels := filter (\<lambda>c. ch_owner c \<noteq> m) (v2_channels s),
             v2_pending := filter (\<lambda>(req, m', sp). m' \<noteq> m) (v2_pending s)\<rparr>))"
  using close_fold_sent [of "v2_translating s" "map ch_up (filter (\<lambda>c. ch_owner c = m) (v2_channels s))"
      "s\<lparr>v2_members := AList.delete m (v2_members s)\<rparr>"]
  by (simp add: detach_member_def close_fold_def Let_def)

lemma detach_fields:
  fixes m s defines "s' \<equiv> snd (detach_member m s)"
  shows "v2_channels s' = filter (\<lambda>c. ch_owner c \<noteq> m) (v2_channels s)"
    "v2_pending s' = filter (\<lambda>(req, m', sp). m' \<noteq> m) (v2_pending s)"
    "v2_members s' = AList.delete m (v2_members s)" "v2_group_down s' = v2_group_down s"
    "v2_next_down_cid s' = v2_next_down_cid s" "v2_next_up_req s' = v2_next_up_req s"
    "v2_next_member_id s' = v2_next_member_id s" "v2_translating s' = v2_translating s"
    "v2_generation_counter s' = v2_generation_counter s" "v2_generation s' = v2_generation s"
    "v2_to_up s' = v2_to_up s @ (if v2_translating s then [] else
       map (\<lambda>c. Built (CloseChannel (ch_up c) ''member disconnected''))
         (filter (\<lambda>c. ch_owner c = m) (v2_channels s)))"
    "v2_up_to_down s' = fold AList.delete (map ch_up (filter (\<lambda>c. ch_owner c = m) (v2_channels s)))
       (v2_up_to_down s)"
  using close_fold_sent [of "v2_translating s" "map ch_up (filter (\<lambda>c. ch_owner c = m) (v2_channels s))"
      "s\<lparr>v2_members := AList.delete m (v2_members s)\<rparr>"]
    close_fold_same_ids [of "s\<lparr>v2_members := AList.delete m (v2_members s)\<rparr>" "v2_translating s"
      "map ch_up (filter (\<lambda>c. ch_owner c = m) (v2_channels s))"]
  by (simp_all add: s'_def detach_member_eq Let_def same_ids_def comp_def)

lemma detach_ok:
  assumes "rig_ok s"
  shows "rig_ok (snd (detach_member m s))" "counters_ok k s \<Longrightarrow> counters_ok k (snd (detach_member m s))"
    "flight_ok x s \<Longrightarrow> flight_ok x (snd (detach_member m s))"
proof -
  have "ids_ok (v2_next_down_cid s) (map spec_of (filter (\<lambda>c. ch_owner c \<noteq> m) (v2_channels s)))"
  proof -
    have "map spec_of (filter (\<lambda>c. ch_owner c \<noteq> m) (v2_channels s))
        = filter (\<lambda>x. fst (snd x) \<noteq> m) (map spec_of (v2_channels s))"
      by (simp add: filter_map comp_def spec_of_def)
    then show ?thesis using assms ids_ok_filter by (simp add: rig_ok_def)
  qed
  moreover have "groups_ok (v2_next_down_cid s) (map ch_down (filter (\<lambda>c. ch_owner c \<noteq> m) (v2_channels s)))
      (v2_group_down s)"
    using assms by (auto simp: rig_ok_def groups_ok_def)
  moreover have "length (filter (\<lambda>c. ch_owner c \<noteq> m) (v2_channels s)) \<le> 1" if "v2_translating s"
    using that assms le_trans [OF length_filter_le] by (auto simp: rig_ok_def)
  ultimately show "rig_ok (snd (detach_member m s))"
    using assms by (auto simp: rig_ok_def detach_fields keys_ok_filter keys_ok_delete)
  show "counters_ok k s \<Longrightarrow> counters_ok k (snd (detach_member m s))"
    by (simp add: counters_ok_def detach_fields)
  show "flight_ok x s \<Longrightarrow> flight_ok x (snd (detach_member m s))"
    by (cases "(x, s)" rule: flight_ok.cases) (simp_all add: detach_fields)
qed

text \<open>A frame of a miner.\<close>

lemma miner_frame_ok:
  assumes "rig_ok s" "counters_ok k s" "roomy k"
  shows "rig_ok (fst (on_miner_frame l m f s))" "counters_ok (Suc k) (fst (on_miner_frame l m f s))"
    "flight_ok x s \<Longrightarrow> flight_ok x (fst (on_miner_frame l m f s))"
proof -
  have fwd: "same_ids s (send_upstream g (s\<lparr>v2_submitted := n\<rparr>))" for g n
    by (simp add: same_ids_def send_upstream_def)
  have "same_ids s (fst (on_miner_frame l m f s))
      \<or> (\<exists>sp. \<not> v2_translating s \<and> fst (on_miner_frame l m f s) = request_open m sp s)"
  proof (cases "msg_type f")
    case (Some mt)
    show ?thesis
    proof (cases "is_open_request mt")
      case True
      then show ?thesis
        by (cases "parse_miner_open l f"; cases "v2_translating s")
          (auto simp: on_miner_frame_def Some)
    next
      case False
      then show ?thesis
        using fwd by (simp add: on_miner_frame_def Some Let_def split: option.split)
    qed
  qed (simp add: on_miner_frame_def)
  then consider (same) "same_ids s (fst (on_miner_frame l m f s))"
    | (open_channel) sp where "\<not> v2_translating s" "fst (on_miner_frame l m f s) = request_open m sp s"
    by blast
  note split = this
  show "rig_ok (fst (on_miner_frame l m f s))"
    using split by cases (simp_all add: same_ids_ok assms request_open_ok(1) [OF assms])
  show "counters_ok (Suc k) (fst (on_miner_frame l m f s))"
    using split by cases (simp_all add: same_ids_ok counters_mono assms request_open_ok(2) [OF assms])
  show "flight_ok x s \<Longrightarrow> flight_ok x (fst (on_miner_frame l m f s))"
    using split by cases (simp_all add: same_ids_ok request_open_ok(3) [OF assms])
qed

text \<open>A frame of an upstream: only an open success hands out ids.\<close>

text \<open>The group id of a new channel, after \<open>?n\<close> was taken for the channel itself.\<close>

lemma map_group_ok:
  fixes s0 :: sv2_session
  defines "n \<equiv> v2_next_down_cid s0"
  assumes gs: "groups_ok n ds (v2_group_down s0)" and downs: "\<forall>d\<in>set ds. 0 < d \<and> d < n"
    and i: "unat (n + 1) = Suc (unat n)" "n < n + 1" "unat (n + 1 + 1) = Suc (Suc (unat n))" "n + 1 < n + 1 + 1"
    and mg: "map_group u ext (s0\<lparr>v2_next_down_cid := n + 1\<rparr>) = (g, s2)"
  shows "\<exists>n' gd. s2 = s0\<lparr>v2_next_down_cid := n', v2_group_down := gd\<rparr> \<and> n < n'
      \<and> unat n' \<le> unat n + 2 \<and> groups_ok n' (ds @ [n]) gd
      \<and> (ext \<and> u \<noteq> 0 \<longrightarrow> g < n' \<and> g \<noteq> n \<and> g \<notin> set ds) \<and> (\<not> (ext \<and> u \<noteq> 0) \<longrightarrow> g = u)"
proof -
  have gs1: "groups_ok (n + 1) (ds @ [n]) (v2_group_down s0)"
    using gs i(2) by (auto simp: groups_ok_def dest: less_trans)
  consider (none) "\<not> ext \<or> u = 0" | (new) "ext" "u \<noteq> 0" "map_of (v2_group_down s0) u = None"
    | (old) d where "ext" "u \<noteq> 0" "map_of (v2_group_down s0) u = Some d" by fastforce
  then show ?thesis
  proof cases
    case none
    then have "g = u" "s2 = s0\<lparr>v2_next_down_cid := n + 1, v2_group_down := v2_group_down s0\<rparr>"
      using mg by (auto simp: map_group_def)
    then show ?thesis
      using none i gs1 by (intro exI [of _ "n + 1"] exI [of _ "v2_group_down s0"]) auto
  next
    case new
    with mg have "g = n + 1"
      "s2 = s0\<lparr>v2_next_down_cid := n + 1 + 1, v2_group_down := AList.update u (n + 1) (v2_group_down s0)\<rparr>"
      by (auto simp: map_group_def)
    moreover have free: "n + 1 \<notin> set ds" using downs i(2) by (auto dest: less_trans)
    moreover have "groups_ok (n + 1 + 1) (ds @ [n]) (AList.update u (n + 1) (v2_group_down s0))"
      using gs1 i(2,4) free
      by (auto simp: groups_ok_def dest!: update_values intro: less_trans dest: less_trans)
    moreover have "n < n + 1 + 1" using i(2,4) by (rule less_trans)
    ultimately show ?thesis
      using i new by (intro exI [of _ "n + 1 + 1"] exI conjI) (assumption | auto dest: less_trans)+
  next
    case old
    with mg have g: "g = d" "s2 = s0\<lparr>v2_next_down_cid := n + 1, v2_group_down := v2_group_down s0\<rparr>"
      by (auto simp: map_group_def)
    have "d < n" "d \<notin> set ds" using gs map_of_SomeD [OF old(3)] by (force simp: groups_ok_def)+
    then show ?thesis
      using g i gs1 old by (intro exI [of _ "n + 1"] exI [of _ "v2_group_down s0"]) (auto dest: less_trans)
  qed
qed

lemma finish_open_ok:
  assumes "rig_ok s" "counters_ok k s" "roomy k" "\<not> v2_translating s"
    and "keys_ok (v2_next_up_req s) p"
  defines "s0 \<equiv> s\<lparr>v2_pending := p\<rparr>"
  shows "rig_ok (finish_open l info m sp s0)" "counters_ok (Suc k) (finish_open l info m sp s0)"
    "flight_ok x s \<Longrightarrow> flight_ok x (finish_open l info m sp s0)"
proof -
  let ?n = "v2_next_down_cid s" and ?u = "ci_group_channel_id info" and ?ds = "map ch_down (v2_channels s)"
  have pos: "0 < ?n" using assms(1) by (simp add: rig_ok_def)
  obtain g s2 where mg: "map_group ?u (is_extended sp) (s0\<lparr>v2_next_down_cid := ?n + 1\<rparr>) = (g, s2)"
    by (cases "map_group ?u (is_extended sp) (s0\<lparr>v2_next_down_cid := ?n + 1\<rparr>)")
  let ?c = "\<lparr>ch_down = ?n, ch_up = ci_up_channel_id info, ch_spec = sp,
     ch_difficulty = Finite (difficulty_from_target l (ci_target info)), ch_owner = m,
     ch_up_group = (if is_extended sp then ?u else 0), ch_down_group = g\<rparr>"
  have n0: "v2_next_down_cid s0 = ?n" "v2_group_down s0 = v2_group_down s" by (simp_all add: s0_def)
  have fin: "finish_open l info m sp s0 = send_built m (open_success_downstream sp ?n g info) (register_channel ?c s2)"
    by (simp only: finish_open_def Let_def n0 mg prod.case)
  have gs: "groups_ok ?n ?ds (v2_group_down s)" and ids: "ids_ok ?n (map spec_of (v2_channels s))"
    using assms(1) by (simp_all add: rig_ok_def)
  have downs: "\<forall>d\<in>set ?ds. 0 < d \<and> d < ?n"
    using ids by (auto simp: ids_ok_def spec_of_def)
  note i = roomy_incs(5-8) [OF assms(3,2)]
  from map_group_ok [of s0 ?ds, unfolded n0, OF gs downs i mg]
  obtain n' gd where s2: "s2 = s0\<lparr>v2_next_down_cid := n', v2_group_down := gd\<rparr>" "?n < n'"
    "unat n' \<le> unat ?n + 2" "groups_ok n' (?ds @ [?n]) gd"
    and g: "is_extended sp \<and> ?u \<noteq> 0 \<longrightarrow> g < n' \<and> g \<noteq> ?n \<and> g \<notin> set ?ds" "\<not> (is_extended sp \<and> ?u \<noteq> 0) \<longrightarrow> g = ?u"
    by blast
  have "is_extended sp \<longrightarrow> g < n' \<and> g \<noteq> ?n \<and> g \<notin> set ?ds"
    using g downs pos s2(2) by (cases "?u = 0") (auto dest: less_trans)
  then have "ids_ok n' (map spec_of (v2_channels s) @ [(?n, m, sp, g)])"
    using ids s2(2) pos by (intro ids_ok_add) (auto simp: spec_of_def)
  then have "rig_ok (register_channel ?c s2)"
    using assms(1,4,5) pos less_trans [OF pos s2(2)] s2 by (simp add: rig_ok_def register_channel_def s0_def spec_of_def [of ?c])
  then show "rig_ok (finish_open l info m sp s0)"
    by (simp add: fin same_ids_ok(1) [OF send_same_ids(2)])
  show "counters_ok (Suc k) (finish_open l info m sp s0)"
    using assms(2) s2(3) unfolding fin same_ids_ok(2) [OF send_same_ids(2)]
    by (simp add: counters_ok_def register_channel_def s2(1) s0_def)
  show "flight_ok x s \<Longrightarrow> flight_ok x (finish_open l info m sp s0)"
    unfolding fin same_ids_ok(3) [OF send_same_ids(2)]
    using s2(2) by (cases "(x, s)" rule: flight_ok.cases)
      (auto simp: register_channel_def s2(1) s0_def intro: ids_ok_mono less_trans)
qed

lemma drop_pending_ok:
  assumes "rig_ok s" "keys_ok (v2_next_up_req s) p" "v2_translating s \<longrightarrow> p = []"
  shows "rig_ok (s\<lparr>v2_pending := p\<rparr>)"
  using assms by (simp add: rig_ok_def)

lemma open_success_cases:
  "v2_pending s \<noteq> [] \<and> (\<exists>info m sp req. on_open_success l f s =
       finish_open l info m sp (s\<lparr>v2_pending := AList.delete req (v2_pending s)\<rparr>))
   \<or> on_open_success l f s = s"
proof (cases "parse_open_success l f")
  case (Some info)
  show ?thesis
  proof (cases "map_of (v2_pending s) (ci_request_id info)")
    case p: (Some q)
    obtain m sp where q: "q = (m, sp)" by (cases q)
    have "on_open_success l f s = finish_open l info m sp
        (s\<lparr>v2_pending := AList.delete (ci_request_id info) (v2_pending s)\<rparr>)"
      by (simp add: on_open_success_def Some p q)
    moreover have "v2_pending s \<noteq> []" using p by auto
    ultimately show ?thesis by blast
  qed (simp add: on_open_success_def Some)
qed (simp add: on_open_success_def)

lemma open_error_cases:
  "same_ids s (on_open_error l f s)
   \<or> (\<exists>req. same_ids (s\<lparr>v2_pending := AList.delete req (v2_pending s)\<rparr>) (on_open_error l f s))"
proof (cases "Option.bind (parse_open_error_request_id l f)
    (\<lambda>req. map_option (Pair req) (map_of (v2_pending s) req))")
  case None
  have "same_ids s (fold (\<lambda>m. send_member m (Fwd f)) ms s)" for ms
    by (rule fold_same_ids) simp
  then show ?thesis by (simp add: on_open_error_def None)
next
  case (Some q)
  obtain req m sp where q: "q = (req, m, sp)" by (cases q)
  have "same_ids (s\<lparr>v2_pending := AList.delete req (v2_pending s)\<rparr>) (on_open_error l f s)"
    by (simp add: on_open_error_def Some q)
  then show ?thesis by blast
qed

lemma upstream_frame_cases:
  fixes l now g f and s :: sv2_session
  assumes "rig_ok s"
  obtains (same) "same_ids s (fst (on_upstream_frame l now g f s))"
    | (dropped) req where "same_ids (s\<lparr>v2_pending := AList.delete req (v2_pending s)\<rparr>) (fst (on_upstream_frame l now g f s))"
    | (opened) info m sp req where "\<not> v2_translating s"
      "fst (on_upstream_frame l now g f s) = finish_open l info m sp (s\<lparr>v2_pending := AList.delete req (v2_pending s)\<rparr>)"
proof -
  let ?t = "fst (on_upstream_frame l now g f s)"
  let ?del = "\<lambda>req. s\<lparr>v2_pending := AList.delete req (v2_pending s)\<rparr>"
  have acct: "same_ids s (forward_down f up (fst (if b then on_submit_success l now f up (if b' then on_set_target l f up s else s)
      else (if b' then on_set_target l f up s else s, []))))" for b b' up
    by (rule same_ids_trans [OF _ forward_same_ids])
      (auto intro: same_ids_trans [OF target_same_ids(1) submit_success_same_ids] submit_success_same_ids)
  have "same_ids s ?t \<or> (\<exists>req. same_ids (?del req) ?t)
     \<or> (\<exists>info m sp req. \<not> v2_translating s \<and> ?t = finish_open l info m sp (?del req))"
  proof (cases "msg_type f")
    case None
    then show ?thesis by (simp add: on_upstream_frame_def)
  next
    case (Some mt)
    consider "g \<noteq> v2_generation s" | "g = v2_generation s" "is_open_success mt"
      | "g = v2_generation s" "\<not> is_open_success mt" "mt = MtOpenMiningChannelError"
      | "g = v2_generation s" "\<not> is_open_success mt" "mt \<noteq> MtOpenMiningChannelError" by blast
    then show ?thesis
    proof cases
      case 1
      then show ?thesis by (simp add: on_upstream_frame_def Some)
    next
      case 2
      have "v2_translating s \<Longrightarrow> v2_pending s = []" using assms(1) by (simp add: rig_ok_def)
      moreover from 2 have "?t = on_open_success l f s" by (simp add: on_upstream_frame_def Some)
      ultimately show ?thesis using open_success_cases [of s l f] same_ids_refl by metis
    next
      case 3
      then have "?t = on_open_error l f s" by (simp add: on_upstream_frame_def Some)
      then show ?thesis using open_error_cases [of s l f] by (elim disjE exE) auto
    next
      case 4
      then show ?thesis using acct
        by (auto simp: on_upstream_frame_def Some Let_def split_def split: option.split)
    qed
  qed
  with same dropped opened show thesis by blast
qed

lemma upstream_frame_ok:
  assumes "rig_ok s" "counters_ok k s" "roomy k"
  shows "rig_ok (fst (on_upstream_frame l now g f s))"
    "counters_ok (Suc k) (fst (on_upstream_frame l now g f s))"
    "flight_ok x s \<Longrightarrow> flight_ok x (fst (on_upstream_frame l now g f s))"
proof -
  let ?t = "fst (on_upstream_frame l now g f s)"
  let ?del = "\<lambda>req. s\<lparr>v2_pending := AList.delete req (v2_pending s)\<rparr>"
  note split = upstream_frame_cases [OF assms(1), of l now g f]
  have del: "keys_ok (v2_next_up_req s) (AList.delete req (v2_pending s))" for req
    using assms(1) by (simp add: rig_ok_def keys_ok_delete)
  have dok: "rig_ok (?del req)" for req
    using assms(1) by (intro drop_pending_ok del) (simp_all add: rig_ok_def)
  have dc: "counters_ok (Suc k) (?del req)" for req
    using counters_mono [OF assms(2)] by (simp add: counters_ok_def)
  have df: "flight_ok x (?del req) = flight_ok x s" for req
    by (cases "(x, s)" rule: flight_ok.cases) simp_all
  show "rig_ok ?t"
    using split by cases (simp_all add: same_ids_ok assms dok finish_open_ok(1) [OF assms _ del])
  show "counters_ok (Suc k) ?t"
    using split by cases (simp_all add: same_ids_ok counters_mono assms dc finish_open_ok(2) [OF assms _ del])
  show "flight_ok x ?t" if "flight_ok x s"
    using split that by cases (simp_all add: same_ids_ok df finish_open_ok(3) [OF assms _ del])
qed

lemma react_ok:
  assumes "rig_ok s" "counters_ok k s" "roomy k"
  shows "rig_ok (fst (v2_react l g i s))" "counters_ok (Suc k) (fst (v2_react l g i s))"
    "flight_ok x s \<Longrightarrow> flight_ok x (fst (v2_react l g i s))"
proof -
  have line: "same_ids s (fst (v2_react l g (TranslatedLine now down wl st) s))" for now down wl st
    using line_same_ids [of "(st, s)" l now g down wl] by (simp add: split_def Let_def)
  show "rig_ok (fst (v2_react l g i s))"
    by (cases i) (simp_all add: upstream_frame_ok [OF assms] same_ids_ok [OF line] assms del: v2_react.simps(2))
  show "counters_ok (Suc k) (fst (v2_react l g i s))"
    by (cases i) (simp_all add: upstream_frame_ok [OF assms] same_ids_ok [OF line] counters_mono assms del: v2_react.simps(2))
  show "flight_ok x s \<Longrightarrow> flight_ok x (fst (v2_react l g i s))"
    by (cases i) (simp_all add: upstream_frame_ok [OF assms] same_ids_ok [OF line] del: v2_react.simps(2))
qed

section \<open>The parts of a swap\<close>

lemma reopen_all_specs:
  assumes "reopen_all l n url i ident specs tfs [] reopened_none = Inr (ro, d, rest)"
  shows "map spec_of (ro_channels ro) = specs"
proof -
  from reopen_all_split [OF assms] obtain infos where i: "length infos = length specs"
    "ro_channels ro = map2 (reopened_channel l) specs infos" by (auto simp: reopened_none_def)
  have "spec_of (reopened_channel l x j) = x" for x j
    by (cases x) (simp add: reopened_channel_def spec_of_def)
  with i show ?thesis by (simp add: comp_def split_def)
qed

lemma reopen_all_groups:
  assumes "reopen_all l n url i ident specs tfs deferred r = Inr (r', d, rest)" "g \<in> snd ` set (ro_group_down r')"
  shows "g \<in> snd ` set (ro_group_down r) \<or> (\<exists>x\<in>set specs. is_extended (sp_spec x) \<and> sp_group x = g)"
  using assms
proof (induction specs arbitrary: i tfs deferred r)
  case Nil
  then show ?case by simp
next
  case (Cons x specs)
  obtain info d' t' where
    r: "reopen_all l n url (Suc i) ident specs t' d' (reopen_one l x info r) = Inr (r', d, rest)"
    using Cons.prems(1) by (auto split: prod.splits sum.splits)
  have "g \<in> snd ` set (ro_group_down r) \<or> is_extended (sp_spec x) \<and> sp_group x = g"
    if "g \<in> snd ` set (ro_group_down (reopen_one l x info r))"
    using that by (cases x) (auto simp: reopen_one_def Let_def dest: update_values split: if_splits)
  with Cons.IH [OF r Cons.prems(2)] show ?case by auto
qed

lemma finish_repoint_same_ids: "same_ids s (snd (finish_repoint members rp ab s))"
  by (rule told_same_ids [OF told_finish])

lemma install_native_ok:
  assumes "rig_ok s" "counters_ok k s" "flight_ok (Reopening sn) s"
    and "reopen_all l n (t_url target) 1 ident (sn_specs sn) tfs [] reopened_none = Inr (ro, d, rest)"
  shows "rig_ok (snd (install_native sn target r ro s))" "counters_ok (Suc k) (snd (install_native sn target r ro s))"
proof -
  let ?s = "native_state (sn_generation sn) target r ro s"
  have c: "map spec_of (ro_channels ro) = sn_specs sn" by (rule reopen_all_specs [OF assms(4)])
  then have dw: "map ch_down (ro_channels ro) = map fst (sn_specs sn)" by (simp add: spec_of_downs)
  have ids: "ids_ok (v2_next_down_cid s) (sn_specs sn)" using assms(3) by simp
  have "groups_ok (v2_next_down_cid s) (map fst (sn_specs sn)) (ro_group_down ro)"
    unfolding groups_ok_def
  proof (intro ballI)
    fix g assume "g \<in> snd ` set (ro_group_down ro)"
    with reopen_all_groups [OF assms(4)] obtain x where x: "x \<in> set (sn_specs sn)"
      "is_extended (sp_spec x)" "sp_group x = g"
      unfolding reopened_none_def by fastforce
    with ids show "g < v2_next_down_cid s \<and> g \<notin> set (map fst (sn_specs sn))"
      by (force simp: ids_ok_def)
  qed
  then have "rig_ok ?s"
    using assms(1,3) ids by (simp add: rig_ok_def relay_simps c dw)
  then show "rig_ok (snd (install_native sn target r ro s))"
    by (simp add: install_native_state same_ids_ok(1) [OF finish_repoint_same_ids])
  have "counters_ok (Suc k) ?s" using counters_mono [OF assms(2)] by (simp add: counters_ok_def relay_simps)
  then show "counters_ok (Suc k) (snd (install_native sn target r ro s))"
    by (simp add: install_native_state same_ids_ok(2) [OF finish_repoint_same_ids])
qed

lemma one_channel_ok:
  assumes "0 < down" "down < next"
  shows "ids_ok next (map spec_of [translated_channel down owner sp conn])"
    "groups_ok next (map ch_down [translated_channel down owner sp conn]) []"
  using assms by (auto simp: ids_ok_def spec_of_def translated_channel_def groups_ok_def dest: less_trans)

lemma install_translate_ok:
  assumes "rig_ok s" "counters_ok k s" "flight_ok (Handshaking g ms p) s"
  shows "rig_ok (snd (install_translate g target r ms p conn s))"
    "counters_ok (Suc k) (snd (install_translate g target r ms p conn s))"
proof -
  obtain down owner sp where p: "p = (down, owner, sp)" by (cases p)
  have "rig_ok (translate_state g target r p conn s)"
    using assms(1,3) one_channel_ok [of down "v2_next_down_cid s" owner sp conn]
    by (simp add: p rig_ok_def translate_state_def install_active_def)
  then show "rig_ok (snd (install_translate g target r ms p conn s))"
    by (simp add: install_translate_state p same_ids_ok(1) [OF finish_repoint_same_ids])
  have "counters_ok (Suc k) (translate_state g target r p conn s)"
    using counters_mono [OF assms(2)] by (simp add: p counters_ok_def translate_state_def install_active_def)
  then show "counters_ok (Suc k) (snd (install_translate g target r ms p conn s))"
    by (simp add: install_translate_state p same_ids_ok(2) [OF finish_repoint_same_ids])
qed

section \<open>The first upstream\<close>

definition initial_ok :: "nat \<Rightarrow> sv2_session \<Rightarrow> bool" where
  "initial_ok a s \<longleftrightarrow> rig_ok s \<and> unat (v2_next_down_cid s) \<le> a \<and> unat (v2_next_up_req s) \<le> a
     \<and> unat (v2_next_member_id s) \<le> 2 \<and> v2_generation_counter s = 0"

lemma initial_ok_mono: "initial_ok a s \<Longrightarrow> initial_ok (Suc a) s"
  by (simp add: initial_ok_def)

lemma initial_incs:
  assumes "initial_ok a s" "a < 100"
  shows "unat (v2_next_up_req s + 1) = Suc (unat (v2_next_up_req s))" "v2_next_up_req s < v2_next_up_req s + 1"
    "unat (v2_next_down_cid s + 1) = Suc (unat (v2_next_down_cid s))" "v2_next_down_cid s < v2_next_down_cid s + 1"
proof -
  have "unat (v2_next_up_req s) < 2 ^ 32 - 1" "unat (v2_next_down_cid s) < 2 ^ 32 - 1"
    using assms by (simp_all add: initial_ok_def)
  from u32_inc [OF this(1)] u32_inc [OF this(2)] show
    "unat (v2_next_up_req s + 1) = Suc (unat (v2_next_up_req s))" "v2_next_up_req s < v2_next_up_req s + 1"
    "unat (v2_next_down_cid s + 1) = Suc (unat (v2_next_down_cid s))" "v2_next_down_cid s < v2_next_down_cid s + 1"
    by simp_all
qed

lemma install_sv2_initial_ok:
  assumes "initial_ok a s" "a < 100"
  shows "initial_ok (Suc a) (snd (install_sv2_initial sp ident target r m s))"
proof -
  note i = initial_incs [OF assms]
  have k: "keys_ok (v2_next_up_req s + 1) (AList.update (v2_next_up_req s) (m, sp) (v2_pending s))"
    using assms(1) i by (simp add: initial_ok_def rig_ok_def keys_ok_update)
  then show ?thesis
    using assms(1) i by (simp add: install_sv2_initial_def Let_def initial_ok_def rig_ok_def
        install_active_def send_upstream_def split: option.split)
qed

lemma install_sv1_initial_ok:
  assumes "initial_ok a s" "a < 100"
  shows "initial_ok (Suc a) (snd (install_sv1_translate_initial conn sp ident target r m s))"
proof -
  note i = initial_incs [OF assms]
  let ?d = "v2_next_down_cid s"
  let ?s1 = "s\<lparr>v2_next_down_cid := ?d + 1\<rparr>"
  let ?i = "\<lambda>x. (install_active (v2_generation x) target x)\<lparr>
      v2_channels := [translated_channel ?d m sp conn], v2_up_to_down := [(?d, ?d)],
      v2_group_down := [], v2_pending := [], v2_routing := r, v2_translating := True\<rparr>"
  have pos: "0 < ?d" using assms(1) by (simp add: initial_ok_def rig_ok_def)
  have s1: "initial_ok (Suc a) ?s1"
    using assms(1) i less_trans [OF pos i(4)]
    by (simp add: initial_ok_def rig_ok_def) (auto intro: ids_ok_mono groups_ok_mono)
  have inst: "initial_ok (Suc a) (?i x)"
    if "initial_ok (Suc a) x" "v2_next_down_cid x = ?d + 1" for x
    using that pos one_channel_ok [OF pos i(4), of m sp conn]
    by (auto simp: initial_ok_def rig_ok_def install_active_def)
  have sent: "initial_ok (Suc a) (send_member m f ?s1)" for f
    using s1 same_ids_ok(1) [OF send_same_ids(1) [of ?s1 m f]] by (simp add: initial_ok_def relay_simps)
  have "v2_next_down_cid (send_member m f ?s1) = ?d + 1" for f by (simp add: relay_simps)
  with inst [OF s1] inst [OF sent] s1 show ?thesis
    by (simp add: install_sv1_translate_initial_def Let_def split: option.split)
qed

lemma connect_initial_ok:
  assumes "initial_ok a s" "a < 100"
  shows "initial_ok (Suc a) (snd (connect_and_install_initial l n target sp worker r m s))"
  using install_sv2_initial_ok [OF assms] install_sv1_initial_ok [OF assms] initial_ok_mono [OF assms(1)]
  by (simp add: connect_and_install_initial_def Let_def split: sum.split prod.split)

lemma first_upstream_ok:
  assumes "first_upstream l n active target sp worker r m (snd (add_member (sv2_new worker target r idle)))
      = (res, s)"
  shows "rig_ok s \<and> counters_ok 0 s"
proof -
  let ?s0 = "snd (add_member (sv2_new worker target r idle))"
  have z: "initial_ok 1 ?s0"
    by (simp add: initial_ok_def add_member_def sv2_new_def rig_ok_def ids_ok_def groups_ok_def keys_ok_def)
  have "initial_ok 3 s"
  proof (cases "connect_and_install_initial l n target sp worker r m ?s0")
    case (Pair res1 s1)
    have 2: "initial_ok 2 s1" using connect_initial_ok [OF z, of l n target sp worker r m] Pair
      by (simp add: numeral_2_eq_2)
    have 3: "initial_ok 3 (snd (connect_and_install_initial l n fb sp worker r m s1))" for fb
      using connect_initial_ok [OF 2, of l n fb sp worker r m] by simp
    have "initial_ok 3 s1" using initial_ok_mono [OF 2] by simp
    with assms Pair 3 show ?thesis
      by (cases res1; cases "Option.bind active o_fallback")
        (auto simp: first_upstream_def, metis snd_conv)
  qed
  then show ?thesis by (simp add: initial_ok_def counters_ok_def)
qed

end
