(* ===== verification/Sv2_Members.thy ===== *)
theory Sv2_Members
  imports Sv2_Reach
begin

text \<open>
  What holds of a rig whatever happened to it, and what a leaving member takes with it.
\<close>

section \<open>The invariant\<close>

lemma snapshot_ok:
  assumes "rig_ok s" "counters_ok k s" "roomy k"
  shows "rig_ok (snd (swap_snapshot_of s))" "counters_ok (Suc k) (snd (swap_snapshot_of s))"
    "flight_ok (Reopening (fst (swap_snapshot_of s))) (snd (swap_snapshot_of s))"
proof -
  have "unat (v2_generation_counter s) + unat (1 :: u64) < 2 ^ LENGTH(64)"
    using assms(2,3) by (simp add: counters_ok_def roomy_def)
  then have c: "unat (v2_generation_counter s + 1) = Suc (unat (v2_generation_counter s))"
    by (simp add: unat_add_lem [THEN iffD1])
  then have lt: "v2_generation_counter s < v2_generation_counter s + 1"
    by (simp add: word_less_nat_alt)
  with assms(1) have g: "v2_generation s < v2_generation_counter s + 1"
    by (auto simp: rig_ok_def intro: le_less_trans)
  with assms(1) show "rig_ok (snd (swap_snapshot_of s))"
    by (auto simp: swap_snapshot_eq counted_def rig_ok_def)
  show "counters_ok (Suc k) (snd (swap_snapshot_of s))"
    using assms(2) c by (simp add: swap_snapshot_eq counted_def counters_ok_def)
  show "flight_ok (Reopening (fst (swap_snapshot_of s))) (snd (swap_snapshot_of s))"
    using assms(1) g by (simp add: swap_snapshot_eq counted_def rig_ok_def spec_of_def [abs_def])
qed

definition state_ok :: "nat \<Rightarrow> sv2_session \<times> in_flight \<Rightarrow> bool" where
  "state_ok k p \<longleftrightarrow> rig_ok (fst p) \<and> counters_ok k (fst p) \<and> flight_ok (snd p) (fst p)"

lemma step_ok:
  assumes "rig_step l p q" "state_ok k p" "roomy k"
  shows "state_ok (Suc k) q"
  using assms
proof (induction rule: rig_step.induct)
  case (pick s c cs sn)
  then have "c \<in> set (v2_channels s)" "ids_ok (v2_next_down_cid s) (map spec_of (v2_channels s))"
    by (simp_all add: state_ok_def rig_ok_def)
  then have "0 < ch_down c \<and> ch_down c < v2_next_down_cid s" by (auto simp: ids_ok_def spec_of_def)
  with pick show ?case by (auto simp: state_ok_def intro: counters_mono)
next
  case (snapshot s sn s')
  then show ?case using snapshot_ok [of s k] by (simp add: state_ok_def)
qed (auto simp: state_ok_def attach_ok detach_ok miner_frame_ok react_ok install_native_ok
    install_translate_ok same_ids_ok [OF reconnect_same_ids] intro: counters_mono)

lemma reach_ok: "rig_reach l k p \<Longrightarrow> 2 * k + 6 < 2 ^ 32 \<Longrightarrow> state_ok k p"
proof (induction rule: rig_reach.induct)
  case (fresh n active target sp worker r member idle s)
  then show ?case using first_upstream_ok [OF fresh(1)] by (simp add: state_ok_def)
next
  case (step k p q)
  then show ?case using step_ok [of l p q k] by (simp add: roomy_def)
qed

text \<open>C12: The id spaces of a rig stay sound over every interleaving of attaches, detaches, miner
  frames, upstream frames and swaps in parts, as long as it has taken fewer than 2^31 - 4 steps
  (so that no 32-bit counter wraps): the channels' downstream ids are distinct, in use
  only once the counter passed them, and never a group id an Extended miner was told; the
  request ids in flight and the members are distinct; a translated rig has one channel and no
  open in flight; the current upstream is never newer than the attempts counted.\<close>

theorem rig_namespace_sound:
  assumes "rig_reach l k (s, x)" and "2 * k + 6 < 2 ^ 32"
  shows "distinct (map ch_down (v2_channels s))
    \<and> (\<forall>c\<in>set (v2_channels s). 0 < ch_down c \<and> ch_down c < v2_next_down_cid s)
    \<and> (\<forall>c\<in>set (v2_channels s). \<forall>c'\<in>set (v2_channels s).
         is_extended (ch_spec c') \<longrightarrow> ch_down_group c' \<noteq> ch_down c)
    \<and> (\<forall>(u, g)\<in>set (v2_group_down s). g < v2_next_down_cid s \<and> g \<notin> ch_down ` set (v2_channels s))
    \<and> distinct (map fst (v2_pending s)) \<and> (\<forall>req\<in>fst ` set (v2_pending s). req < v2_next_up_req s)
    \<and> distinct (map fst (v2_members s)) \<and> (\<forall>m\<in>fst ` set (v2_members s). m < v2_next_member_id s)
    \<and> (v2_translating s \<longrightarrow> v2_pending s = [] \<and> length (v2_channels s) \<le> 1)
    \<and> v2_generation s \<le> v2_generation_counter s"
proof -
  have ok: "rig_ok s" using reach_ok [OF assms] by (simp add: state_ok_def)
  then have ids: "ids_ok (v2_next_down_cid s) (map spec_of (v2_channels s))" by (simp add: rig_ok_def)
  have "distinct (map ch_down (v2_channels s))"
    using ids by (simp add: spec_of_downs ids_ok_def del: map_map)
  moreover have "\<forall>c\<in>set (v2_channels s). 0 < ch_down c \<and> ch_down c < v2_next_down_cid s"
    "\<forall>c\<in>set (v2_channels s). \<forall>c'\<in>set (v2_channels s).
         is_extended (ch_spec c') \<longrightarrow> ch_down_group c' \<noteq> ch_down c"
    using ids by (auto simp: ids_ok_def spec_of_def) fastforce
  ultimately show ?thesis
    using ok by (auto simp: rig_ok_def groups_ok_def keys_ok_def)
qed

text \<open>The rig's first miner and a second one, both opens in flight.\<close>

definition first_rig :: sv2_session where
  "first_rig = snd (first_upstream sample_lib pool_net None sample_pool wide_spec ''rig'' Idle 1
     (snd (add_member (sv2_new ''rig'' sample_pool Idle (Some sample_pool)))))"

lemma first_rig:
  "first_upstream sample_lib pool_net None sample_pool wide_spec ''rig'' Idle 1
     (snd (add_member (sv2_new ''rig'' sample_pool Idle (Some sample_pool)))) = (Inr (), first_rig)"
  "map fst (v2_pending first_rig) = [1]" "\<not> v2_translating first_rig" "v2_next_up_req first_rig = 2"
  "v2_target first_rig = sample_pool" "v2_label first_rig = ''rig''"
  "map fst (v2_members first_rig) = [1]" "v2_next_member_id first_rig = 2" "v2_channels first_rig = []"
proof -
  obtain x where p: "probe_sv2 sample_lib pool_net sample_pool = Inr (tl two_pool_frames, x)"
    using pool_net_probe by blast
  have o: "\<exists>f. open_channel_upstream wide_spec (upstream_worker (t_user sample_pool) ''rig'') r = Some f" for r
    by (simp add: open_channel_upstream_def wide_spec_def upstream_worker_def sample_pool_def
        fits_u256_def fits_str0255_def)
  obtain f where f: "open_channel_upstream wide_spec (upstream_worker (t_user sample_pool) ''rig'') 1 = Some f"
    using o by blast
  have c: "first_upstream sample_lib pool_net None sample_pool wide_spec ''rig'' Idle 1
     (snd (add_member (sv2_new ''rig'' sample_pool Idle (Some sample_pool)))) =
     install_sv2_initial wide_spec (upstream_worker (t_user sample_pool) ''rig'') sample_pool Idle 1
       (snd (add_member (sv2_new ''rig'' sample_pool Idle (Some sample_pool))))"
    by (simp add: first_upstream_def connect_and_install_initial_def p Let_def install_sv2_initial_def
        add_member_def sv2_new_def install_active_def f)
  show "first_upstream sample_lib pool_net None sample_pool wide_spec ''rig'' Idle 1
     (snd (add_member (sv2_new ''rig'' sample_pool Idle (Some sample_pool)))) = (Inr (), first_rig)"
    "map fst (v2_pending first_rig) = [1]" "\<not> v2_translating first_rig" "v2_next_up_req first_rig = 2"
    "v2_target first_rig = sample_pool" "v2_label first_rig = ''rig''"
    "map fst (v2_members first_rig) = [1]" "v2_next_member_id first_rig = 2" "v2_channels first_rig = []"
    unfolding first_rig_def c
    by (simp_all add: install_sv2_initial_def Let_def add_member_def sv2_new_def install_active_def f
        send_upstream_def)
qed

theorem rig_namespace_sound_witness:
  "\<exists>s. rig_reach sample_lib 1 (s, NoSwap) \<and> length (v2_pending s) = 2 \<and> distinct (map fst (v2_pending s))"
proof -
  let ?s = "snd (attach_member wide_spec first_rig)"
  have "rig_reach sample_lib 0 (first_rig, NoSwap)" by (rule rig_reach.fresh [OF first_rig(1)])
  then have r: "rig_reach sample_lib (Suc 0) (?s, NoSwap)"
    by (rule rig_reach.step) (rule rig_step.attach)
  obtain f where "open_channel_upstream wide_spec (upstream_worker (t_user sample_pool) ''rig'') 2 = Some f"
    by (simp add: open_channel_upstream_def wide_spec_def upstream_worker_def sample_pool_def
        fits_u256_def fits_str0255_def)
  then have "map fst (v2_pending ?s) = [1, 2]"
    using first_rig by (simp add: attach_member_def add_member_def request_open_def Let_def
        send_upstream_def update_keys)
  then have "length (v2_pending ?s) = 2" by (metis length_map length_Cons list.size(3) numeral_2_eq_2)
  moreover have "distinct (map fst (v2_pending ?s))"
    using rig_namespace_sound [OF r] by simp
  ultimately show ?thesis using r by auto
qed

section \<open>A member leaving\<close>

text \<open>C24: A miner that disconnects takes exactly its own share of the rig with it: its sink, its
  channels and its opens in flight are gone and the pool is told to close exactly its channels,
  in order (a translated upstream is told nothing); the other members' channels, opens and
  queues are untouched, and the caller learns whether anybody is left.\<close>

theorem member_leaves_alone:
  "let (was_last, s') = detach_member m s in
     v2_channels s' = filter (\<lambda>c. ch_owner c \<noteq> m) (v2_channels s)
   \<and> v2_pending s' = filter (\<lambda>(req, owner, sp). owner \<noteq> m) (v2_pending s)
   \<and> map_of (v2_members s') = (map_of (v2_members s))(m := None)
   \<and> v2_to_up s' = v2_to_up s @ (if v2_translating s then [] else
       map (\<lambda>c. Built (CloseChannel (ch_up c) ''member disconnected''))
         (filter (\<lambda>c. ch_owner c = m) (v2_channels s)))
   \<and> map_of (v2_up_to_down s') = (\<lambda>up. if \<exists>c\<in>set (v2_channels s). ch_owner c = m \<and> ch_up c = up
       then None else map_of (v2_up_to_down s) up)
   \<and> (was_last \<longleftrightarrow> (\<forall>m'. m' \<noteq> m \<longrightarrow> map_of (v2_members s) m' = None))"
proof -
  have folded: "map_of (fold AList.delete ks al) = (\<lambda>k. if k \<in> set ks then None else map_of al k)" for ks and al :: "(u32 \<times> u32) list"
    by (induction ks arbitrary: al) (auto simp: fun_eq_iff)
  have "AList.delete m (v2_members s) = [] \<longleftrightarrow> (\<forall>m'. m' \<noteq> m \<longrightarrow> map_of (v2_members s) m' = None)"
  proof -
    have "AList.delete m (v2_members s) = [] \<longleftrightarrow> (\<forall>m'. map_of (AList.delete m (v2_members s)) m' = None)"
      by (cases "AList.delete m (v2_members s)") auto
    then show ?thesis by auto
  qed
  moreover have "fst (detach_member m s) = (AList.delete m (v2_members s) = [])"
    by (simp add: detach_member_eq Let_def)
  ultimately show ?thesis
    by (auto simp: split_def Let_def detach_fields folded fun_eq_iff image_iff)
qed

theorem member_leaves_alone_witness:
  "map ch_owner (v2_channels (snd (detach_member 1 bundled_rig))) = [2]
   \<and> v2_to_up (snd (detach_member 1 bundled_rig)) = [Built (CloseChannel 11 ''member disconnected'')]
   \<and> \<not> fst (detach_member 1 bundled_rig)"
  using member_leaves_alone [of 1 bundled_rig]
  by (auto simp: split_def Let_def bundled_rig_def sv2_new_def split: if_splits dest: spec [of _ 2])

end
