(* ===== verification/Sv1_Swap.thy ===== *)
theory Sv1_Swap
  imports Sv1_Props
begin

text \<open>
  Properties of the SV1 session's upstream: the outcome of a swap, the isolation from the
  upstream it replaces, primary-to-fallback failover, and the supervisor.
\<close>

section \<open>Swap\<close>

lemma install_raw_fields [relay_simps]:
  "s1_generation (snd (install_raw l raw g target r s)) = g"
  "s1_target (snd (install_raw l raw g target r s)) = target"
  "s1_routing (snd (install_raw l raw g target r s)) = r"
  "s1_pending (snd (install_raw l raw g target r s)) = []"
  "s1_to_up (snd (install_raw l raw g target r s)) = []"
  "s1_generation_counter (snd (install_raw l raw g target r s)) = s1_generation_counter s"
  "s1_default_target (snd (install_raw l raw g target r s)) = s1_default_target s"
  "s1_label (snd (install_raw l raw g target r s)) = s1_label s"
  "s1_delivered_work (snd (install_raw l raw g target r s)) = s1_delivered_work s"
  "s1_reconnect (snd (install_raw l raw g target r s)) = s1_reconnect s"
  "s1_to_miner (snd (install_raw l raw g target r s)) = s1_to_miner s"
  "s1_translating (snd (install_raw l raw g target r s)) = (case raw of RawSv1 c \<Rightarrow> False | RawSv2 b \<Rightarrow> True)"
  by (cases raw; simp add: install_raw_def)+

lemma send_miner_more [relay_simps]:
  "s1_target (send_miner wl s) = s1_target s" "s1_to_up (send_miner wl s) = s1_to_up s"
  "s1_default_target (send_miner wl s) = s1_default_target s"
  by (simp_all add: send_miner_def)

lemma force_reconnect_fields [relay_simps]:
  "s1_generation (force_reconnect s) = s1_generation s" "s1_target (force_reconnect s) = s1_target s"
  "s1_routing (force_reconnect s) = s1_routing s" "s1_pending (force_reconnect s) = s1_pending s"
  "s1_to_up (force_reconnect s) = s1_to_up s" "s1_default_target (force_reconnect s) = s1_default_target s"
  "s1_generation_counter (force_reconnect s) = s1_generation_counter s"
  "s1_label (force_reconnect s) = s1_label s" "s1_reconnect (force_reconnect s)"
  "s1_delivered_work (force_reconnect s) = s1_delivered_work s"
  "s1_to_miner (force_reconnect s) = s1_to_miner s" "s1_prelude (force_reconnect s) = s1_prelude s"
  by (simp_all add: force_reconnect_def)

lemma swap_finish_fields [relay_simps]:
  "s1_generation (swap_finish l raw c g target r s) = g"
  "s1_target (swap_finish l raw c g target r s) = target"
  "s1_routing (swap_finish l raw c g target r s) = r"
  "s1_pending (swap_finish l raw c g target r s) = []"
  "s1_to_up (swap_finish l raw c g target r s) = []"
  "s1_generation_counter (swap_finish l raw c g target r s) = s1_generation_counter s"
  "s1_default_target (swap_finish l raw c g target r s) = s1_default_target s"
  "s1_label (swap_finish l raw c g target r s) = s1_label s"
  "s1_delivered_work (swap_finish l raw c g target r s) = s1_delivered_work s"
  "s1_prelude (swap_finish l raw c g target r s) = []"
  "s1_reconnect (swap_finish l raw c g target r s) = (s1_reconnect s \<or> \<not> c)"
  by (cases c; simp add: swap_finish_def split_def Let_def relay_simps)+

text \<open>What a pool hands the miner at once after a swap, and the extranonce it mines with.\<close>

definition raw_extranonce :: "raw_upstream \<Rightarrow> string \<times> u32" where
  "raw_extranonce raw = (case raw of
      RawSv1 c \<Rightarrow> (uc_extranonce1 c, uc_extranonce2_size c)
    | RawSv2 b \<Rightarrow> (ru_extranonce1 b, ru_extranonce2_size b))"

definition raw_prelude :: "lib \<Rightarrow> raw_upstream \<Rightarrow> line list" where
  "raw_prelude l raw = (case raw of
      RawSv1 c \<Rightarrow> uc_prelude c
    | RawSv2 b \<Rightarrow> [set_difficulty_to_line l (Finite (ru_initial_diff b))])"

lemma install_raw_miner:
  "fst (install_raw l raw g target r s) = raw_extranonce raw"
  "s1_prelude (snd (install_raw l raw g target r s)) = raw_prelude l raw"
  by (cases raw; simp add: install_raw_def raw_extranonce_def raw_prelude_def)+

lemma swap_finish_to_miner:
  "s1_to_miner (swap_finish l raw c g target r s) = s1_to_miner s
     @ (if c then [to_line (set_extranonce (fst (raw_extranonce raw)) (snd (raw_extranonce raw)))] else [])
     @ raw_prelude l raw"
  by (cases c) (simp_all add: swap_finish_def split_def Let_def relay_simps install_raw_miner send_miner_def)

lemma swap_upstream_cases:
  "swap_upstream l n target r s =
     (case connect_raw l n target (s1_configure s) (upstream_worker (t_user target) (s1_label s)) of
        Inl err \<Rightarrow> (Inl err, s\<lparr>s1_generation_counter := s1_generation_counter s + 1\<rparr>)
      | Inr raw \<Rightarrow> (Inr (), swap_finish l raw (s1_capable s) (s1_generation_counter s + 1) target r
           (s\<lparr>s1_generation_counter := s1_generation_counter s + 1\<rparr>)))"
  by (simp add: swap_upstream_def swap_begin_def Let_def)

text \<open>C8: Swapping the upstream is all or nothing. If the new pool cannot be reached over
  either protocol, the session keeps its upstream, queue, pending submits and routing. If it
  can, the session points at it under a fresh generation with the requested routing, an
  empty queue and no pending submits, and the miner is re-pointed: by \<open>mining.set_extranonce\<close>
  with the new pool's values followed by the new pool's notifications when it declared the
  capability, by a forced reconnect otherwise.\<close>

theorem swap_upstream_outcome:
  "case swap_upstream l n target r s of
     (Inl err, s') \<Rightarrow>
       s' = s\<lparr>s1_generation_counter := s1_generation_counter s + 1\<rparr>
       \<and> connect_raw l n target (s1_configure s) (upstream_worker (t_user target) (s1_label s)) = Inl err
   | (Inr _, s') \<Rightarrow>
       \<exists>raw. connect_raw l n target (s1_configure s) (upstream_worker (t_user target) (s1_label s)) = Inr raw
         \<and> s1_target s' = target \<and> s1_routing s' = r
         \<and> s1_generation s' = s1_generation_counter s + 1
         \<and> s1_generation_counter s' = s1_generation_counter s + 1
         \<and> s1_to_up s' = [] \<and> s1_pending s' = []
         \<and> s1_default_target s' = s1_default_target s \<and> s1_delivered_work s' = s1_delivered_work s
         \<and> (if s1_capable s
            then s1_reconnect s' = s1_reconnect s
              \<and> s1_to_miner s' = s1_to_miner s @
                  to_line (set_extranonce (fst (raw_extranonce raw)) (snd (raw_extranonce raw)))
                  # raw_prelude l raw
            else s1_reconnect s')"
proof (cases "connect_raw l n target (s1_configure s) (upstream_worker (t_user target) (s1_label s))")
  case (Inl err)
  then show ?thesis by (simp add: swap_upstream_cases)
next
  case (Inr raw)
  then show ?thesis
    by (simp add: swap_upstream_cases swap_finish_to_miner relay_simps)
qed

section \<open>Isolation from the old upstream\<close>


text \<open>A pool that answers both requests of the handshake and then sends a job.\<close>

definition good_lines :: "line list" where
  "good_lines = [to_line (rpc_reply (Some (JInt 1)) (JArr [JArr [], JStr ''ab'', JInt 4]) JNull),
     to_line (rpc_reply (Some (JInt 2)) (JBool True) JNull)]"

definition net_with :: "string list \<Rightarrow> net" where
  "net_with up = \<lparr>nt_tcp = (\<lambda>u. u \<in> set up), nt_tcp_in_time = (\<lambda>u. True),
     nt_lines = (\<lambda>u. good_lines), nt_frames = (\<lambda>u. []), nt_noise = (\<lambda>u. False),
     nt_authority_ok = (\<lambda>u. True), nt_write_ok = (\<lambda>u i. True), nt_sv1_in_time = (\<lambda>u. True),
     nt_sv2_in_time = (\<lambda>u. True)\<rparr>"

definition good_conn :: "upstream_target \<Rightarrow> string \<Rightarrow> sv1_conn" where
  "good_conn target ident = \<lparr>uc_extranonce1 = ''ab'', uc_extranonce2_size = 4, uc_prelude = [],
     uc_sent = [to_line (subscribe_request (JInt 1)),
       to_line (authorize_request (JInt 2) ident (t_password target))], uc_rest = []\<rparr>"

lemma to_line_not_blank [simp]: "to_line m \<noteq> Blank" "Blank \<noteq> to_line m"
  using rpc_roundtrip [of m] by auto

lemma connect_net_with_up:
  "t_url target \<in> set up \<Longrightarrow>
   connect_raw l (net_with up) target None ident = Inr (RawSv1 (good_conn target ident))"
  by (simp add: connect_raw_def connect_upstream_def net_with_def good_lines_def request_response_def
      rpc_roundtrip rpc_norm_def rpc_reply_def parse_subscribe_result_def good_conn_def
      opt_value_def Let_def)

lemma connect_net_with_down:
  "t_url target \<notin> set up \<Longrightarrow>
   connect_raw l (net_with up) target None ident = Inl ConnectFailed"
  by (simp add: connect_raw_def connect_upstream_def net_with_def connect_sv2_translate_def
      connect_setup_def Let_def)


section \<open>Failover\<close>

definition reaches :: "lib \<Rightarrow> net \<Rightarrow> sv1_session \<Rightarrow> upstream_target \<Rightarrow> bool" where
  "reaches l n s t \<longleftrightarrow>
     \<not> isl (connect_raw l n t (s1_configure s) (upstream_worker (t_user t) (s1_label s)))"

lemma reaches_counter [simp]: "reaches l n (s\<lparr>s1_generation_counter := c\<rparr>) t = reaches l n s t"
  by (simp add: reaches_def)

lemma swap_reaches:
  "reaches l n s t \<Longrightarrow> \<exists>s'. swap_upstream l n t r s = (Inr (), s') \<and> s1_target s' = t
     \<and> s1_routing s' = r \<and> s1_generation s' = s1_generation_counter s + 1"
  by (auto simp: reaches_def swap_upstream_cases relay_simps split: sum.splits)

lemma swap_not_reaches:
  "\<not> reaches l n s t \<Longrightarrow> \<exists>err. swap_upstream l n t r s =
     (Inl err, s\<lparr>s1_generation_counter := s1_generation_counter s + 1\<rparr>)"
  by (auto simp: reaches_def swap_upstream_cases split: sum.splits)

text \<open>C22: Routing a rented session is primary, then fallback, then stay: the session moves to
  the order's pool when that can be reached; otherwise to the fallback pool when there is
  one and it can be reached; in both cases it is routed to the order; otherwise the error is
  reported and nothing but the generation counter has changed, so the miner keeps its pool.\<close>

theorem switch_to_order_failover:
  assumes "orders oid = Some o'" and "switch_to_order l n orders oid s = (r, s')"
  shows "if reaches l n s (o_target o') then r = Inr () \<and> s1_target s' = o_target o' \<and> s1_routing s' = Rented oid
    else case o_fallback o' of
        Some fb \<Rightarrow> if reaches l n s fb then r = Inr () \<and> s1_target s' = fb \<and> s1_routing s' = Rented oid
          else isl r \<and> s' = s\<lparr>s1_generation_counter := s1_generation_counter s + 2\<rparr>
      | None \<Rightarrow> isl r \<and> s' = s\<lparr>s1_generation_counter := s1_generation_counter s + 1\<rparr>"
proof (cases "reaches l n s (o_target o')")
  case True
  from swap_reaches [OF this, of "Rented oid"] assms show ?thesis
    by (auto simp: switch_to_order_def switch_to_def True)
next
  case False
  let ?s1 = "s\<lparr>s1_generation_counter := s1_generation_counter s + 1\<rparr>"
  obtain err where p: "swap_upstream l n (o_target o') (Rented oid) s = (Inl err, ?s1)"
    using swap_not_reaches [OF False] by blast
  show ?thesis
  proof (cases "o_fallback o'")
    case None
    with p False assms show ?thesis by (auto simp: switch_to_order_def switch_to_def)
  next
    case (Some fb)
    show ?thesis
    proof (cases "reaches l n s fb")
      case True
      then obtain s2 where "swap_upstream l n fb (Rented oid) ?s1 = (Inr (), s2)"
        "s1_target s2 = fb" "s1_routing s2 = Rented oid"
        using swap_reaches [of l n ?s1 fb "Rented oid"] by auto
      with p False True Some assms show ?thesis by (auto simp: switch_to_order_def switch_to_def)
    next
      case nfb: False
      then obtain e2 where "swap_upstream l n fb (Rented oid) ?s1 =
          (Inl e2, ?s1\<lparr>s1_generation_counter := s1_generation_counter s + 1 + 1\<rparr>)"
        using swap_not_reaches [of l n ?s1 fb "Rented oid"] by auto
      moreover have "s1_generation_counter s + 1 + 1 = s1_generation_counter s + 2" by simp
      ultimately show ?thesis using p False nfb Some assms
        by (auto simp: switch_to_order_def switch_to_def)
    qed
  qed
qed

definition demo_order :: order where
  "demo_order = \<lparr>o_id = ''o1'', o_worker = ''w'', o_target = demo_pool\<lparr>t_url := ''dead:1''\<rparr>,
     o_fallback = Some demo_pool, o_created_ms = 0, o_until_ms = 0, o_status = Active, o_ended_ms = 0,
     o_delivered_work = 0, o_accepted_shares = 0, o_submitted_shares = 0, o_price_per_th_day = 1,
     o_budget = 0\<rparr>"

lemma demo_reaches:
  "reaches l (net_with [''pool:1'']) demo_session demo_pool"
  "\<not> reaches l (net_with [''pool:1'']) demo_session (demo_pool\<lparr>t_url := ''dead:1''\<rparr>)"
  "\<not> reaches l (net_with []) demo_session t"
  by (simp_all add: reaches_def demo_session_def new_session_def connect_net_with_up
      connect_net_with_down demo_pool_def)

theorem switch_to_order_failover_witness:
  "\<forall>l. \<exists>s'. switch_to_order l (net_with [''pool:1'']) [''o1'' \<mapsto> demo_order] ''o1'' demo_session
      = (Inr (), s') \<and> s1_target s' = demo_pool \<and> s1_routing s' = Rented ''o1''"
proof
  fix l
  obtain r s' where r: "switch_to_order l (net_with [''pool:1'']) [''o1'' \<mapsto> demo_order] ''o1'' demo_session
      = (r, s')" by fastforce
  from switch_to_order_failover [OF _ r, of demo_order] r
  show "\<exists>s'. switch_to_order l (net_with [''pool:1'']) [''o1'' \<mapsto> demo_order] ''o1'' demo_session
      = (Inr (), s') \<and> s1_target s' = demo_pool \<and> s1_routing s' = Rented ''o1''"
    by (simp add: demo_order_def demo_reaches)
qed

section \<open>Supervision\<close>

text \<open>Whether an attempt of the supervisor can succeed on the network of the moment, and the
  pools it may end on.\<close>

definition can_serve :: "lib \<Rightarrow> net \<Rightarrow> (string \<Rightarrow> order option) \<Rightarrow> sv1_session \<Rightarrow> bool" where
  "can_serve l n orders s = (case s1_routing s of
      Idle \<Rightarrow> reaches l n s (s1_default_target s)
    | Rented oid \<Rightarrow> (case orders oid of None \<Rightarrow> False
        | Some o' \<Rightarrow> reaches l n s (o_target o')
            \<or> (case o_fallback o' of None \<Rightarrow> False | Some fb \<Rightarrow> reaches l n s fb)))"

definition wanted_pools :: "(string \<Rightarrow> order option) \<Rightarrow> sv1_session \<Rightarrow> upstream_target set" where
  "wanted_pools orders s = (case s1_routing s of
      Idle \<Rightarrow> {s1_default_target s}
    | Rented oid \<Rightarrow> (case orders oid of None \<Rightarrow> {}
        | Some o' \<Rightarrow> {o_target o'} \<union> set_option (o_fallback o')))"

lemma can_serve_counter [simp]:
  "can_serve l n orders (s\<lparr>s1_generation_counter := c\<rparr>) = can_serve l n orders s"
  "wanted_pools orders (s\<lparr>s1_generation_counter := c\<rparr>) = wanted_pools orders s"
  by (simp_all add: can_serve_def wanted_pools_def split: routing.split option.split)

lemma switch_to_order_cases:
  assumes "orders oid = Some o'"
  obtains (ok) s' where "switch_to_order l n orders oid s = (Inr (), s')" "s1_routing s' = Rented oid"
      "s1_target s' = o_target o' \<and> reaches l n s (o_target o')
       \<or> (\<exists>fb. o_fallback o' = Some fb \<and> s1_target s' = fb \<and> reaches l n s fb)"
    | (err) e c where "switch_to_order l n orders oid s = (Inl e, s\<lparr>s1_generation_counter := c\<rparr>)"
      "\<not> reaches l n s (o_target o')" "\<forall>fb. o_fallback o' = Some fb \<longrightarrow> \<not> reaches l n s fb"
proof (cases "reaches l n s (o_target o')")
  case True
  from swap_reaches [OF this, of "Rented oid"] assms True show ?thesis
    by (auto simp: switch_to_order_def switch_to_def intro: that(1))
next
  case False
  let ?s1 = "s\<lparr>s1_generation_counter := s1_generation_counter s + 1\<rparr>"
  obtain e where p: "swap_upstream l n (o_target o') (Rented oid) s = (Inl e, ?s1)"
    using swap_not_reaches [OF False] by blast
  show ?thesis
  proof (cases "\<exists>fb. o_fallback o' = Some fb \<and> reaches l n s fb")
    case True
    then obtain fb where fb: "o_fallback o' = Some fb" "reaches l n ?s1 fb" by auto
    from swap_reaches [OF fb(2), of "Rented oid"] fb p assms show ?thesis
      by (auto simp: switch_to_order_def switch_to_def intro: that(1))
  next
    case no: False
    then show ?thesis
    proof (cases "o_fallback o'")
      case None
      with p assms False show ?thesis
        by (auto simp: switch_to_order_def switch_to_def intro: that(2))
    next
      case (Some fb)
      with no have "\<not> reaches l n ?s1 fb" by simp
      from swap_not_reaches [OF this, of "Rented oid"] Some p assms False no show ?thesis
        by (auto simp: switch_to_order_def switch_to_def intro: that(2))
    qed
  qed
qed

lemma supervise_attempt_fails:
  assumes "s1_generation s = gen" "\<not> can_serve l n orders s"
  shows "\<exists>e c. supervise_attempt l n orders gen s = Some (Inl e, s\<lparr>s1_generation_counter := c\<rparr>)"
proof (cases "s1_routing s")
  case Idle
  with assms swap_not_reaches [of l n s "s1_default_target s" Idle] show ?thesis
    by (auto simp: supervise_attempt_def revert_def can_serve_def)
next
  case (Rented oid)
  show ?thesis
  proof (cases "orders oid")
    case None
    with Rented assms(1) show ?thesis
      by (intro exI [of _ OrderNotFound] exI [of _ "s1_generation_counter s"])
        (simp add: supervise_attempt_def switch_to_order_def)
  next
    case (Some o')
    show ?thesis
      by (rule switch_to_order_cases [where s = s and l = l and n = n and orders = orders and oid = oid, OF Some])
        (use Rented Some assms in \<open>auto simp: supervise_attempt_def can_serve_def\<close>)
  qed
qed

lemma supervise_attempt_succeeds:
  assumes "s1_generation s = gen" "can_serve l n orders s"
  shows "\<exists>s'. supervise_attempt l n orders gen s = Some (Inr (), s')
     \<and> s1_routing s' = s1_routing s \<and> s1_target s' \<in> wanted_pools orders s"
proof (cases "s1_routing s")
  case Idle
  with assms swap_reaches [of l n s "s1_default_target s" Idle] show ?thesis
    by (auto simp: supervise_attempt_def revert_def can_serve_def wanted_pools_def)
next
  case (Rented oid)
  with assms obtain o' where o': "orders oid = Some o'"
    by (auto simp: can_serve_def split: option.splits)
  show ?thesis
    by (rule switch_to_order_cases [where s = s and l = l and n = n and orders = orders and oid = oid, OF o'])
      (use Rented o' assms in \<open>auto simp: supervise_attempt_def can_serve_def wanted_pools_def split: option.splits\<close>)
qed

lemma backoff_step: "backoff_next (min (500 * 2 ^ i) 30000) = min (500 * 2 ^ Suc i) 30000"
  by (simp add: backoff_next_def min_def)

lemma supervise_loop_recovers:
  assumes "s1_generation s = gen" and "\<forall>n\<in>set bad. \<not> can_serve l n orders s"
    and "can_serve l good orders s"
  shows "\<exists>s'. supervise_loop l (bad @ good # rest) orders gen (min (500 * 2 ^ i) 30000) s =
        (map (\<lambda>j. min (500 * 2 ^ j) 30000) [i..<i + length bad], s')
      \<and> s1_routing s' = s1_routing s \<and> s1_target s' \<in> wanted_pools orders s"
  using assms
proof (induction bad arbitrary: s i)
  case Nil
  with supervise_attempt_succeeds [of s gen l good orders] show ?case by auto
next
  case (Cons n bad)
  obtain e c where a: "supervise_attempt l n orders gen s = Some (Inl e, s\<lparr>s1_generation_counter := c\<rparr>)"
    using supervise_attempt_fails [of s gen l n orders] Cons.prems by auto
  have "\<exists>s'. supervise_loop l (bad @ good # rest) orders gen (min (500 * 2 ^ Suc i) 30000)
        (s\<lparr>s1_generation_counter := c\<rparr>) =
        (map (\<lambda>j. min (500 * 2 ^ j) 30000) [Suc i..<Suc i + length bad], s')
      \<and> s1_routing s' = s1_routing s \<and> s1_target s' \<in> wanted_pools orders s"
    using Cons.IH [of "s\<lparr>s1_generation_counter := c\<rparr>" "Suc i"] Cons.prems by simp
  then obtain s' where s': "supervise_loop l (bad @ good # rest) orders gen (min (500 * 2 ^ Suc i) 30000)
        (s\<lparr>s1_generation_counter := c\<rparr>) =
        (map (\<lambda>j. min (500 * 2 ^ j) 30000) [Suc i..<Suc i + length bad], s')"
      "s1_routing s' = s1_routing s" "s1_target s' \<in> wanted_pools orders s"
    by blast
  have "[i..<i + length (n # bad)] = i # [Suc i..<Suc i + length bad]"
    by (simp add: upt_conv_Cons del: upt_Suc)
  with a s' show ?case by (simp only: append_Cons supervise_loop.simps backoff_step option.case
        sum.case prod.case Let_def) simp
qed

text \<open>C17: When the active pool drops, the supervisor brings the session back: after any number
  of attempts on networks where neither pool it may use can be reached, the first attempt
  that can reach one ends on the order's primary or fallback pool (the seller's default when
  idle) with the routing it had, having slept 500 ms doubled per failure and at most 30 s.\<close>

theorem supervise_recovers:
  assumes "s1_generation s = gen" and "\<forall>n\<in>set bad. \<not> can_serve l n orders s"
    and "can_serve l good orders s"
  shows "\<exists>s'. supervise_loop l (bad @ good # rest) orders gen 500 s =
        (map (\<lambda>j. min (500 * 2 ^ j) 30000) [0..<length bad], s')
      \<and> s1_routing s' = s1_routing s \<and> s1_target s' \<in> wanted_pools orders s"
  using supervise_loop_recovers [OF assms, of rest 0] by simp

theorem supervise_recovers_witness:
  "\<forall>l. \<exists>s'. supervise_loop l (replicate 2 (net_with []) @ [net_with [''pool:1'']])
      [''o1'' \<mapsto> demo_order] 0 500 demo_session = ([500, 1000], s') \<and> s1_routing s' = Rented ''o1''"
proof
  fix l
  have g: "s1_generation demo_session = 0" "s1_routing demo_session = Rented ''o1''"
    by (simp_all add: demo_session_def new_session_def)
  have c: "\<forall>n\<in>set (replicate 2 (net_with [])). \<not> can_serve l n [''o1'' \<mapsto> demo_order] demo_session"
    "can_serve l (net_with [''pool:1'']) [''o1'' \<mapsto> demo_order] demo_session"
    by (simp_all add: can_serve_def g demo_order_def demo_reaches)
  show "\<exists>s'. supervise_loop l (replicate 2 (net_with []) @ [net_with [''pool:1'']])
      [''o1'' \<mapsto> demo_order] 0 500 demo_session = ([500, 1000], s') \<and> s1_routing s' = Rented ''o1''"
    using supervise_recovers [OF g(1) c, of "[]"] by (auto simp: g upt_rec)
qed

end
