(* ===== verification/Sv1_Auth.thy ===== *)
theory Sv1_Auth
  imports Sv1_Swap
begin

text \<open>
  Properties of a miner's connection: which workers are let in, the worker name every share
  and the pool's authorization agree on, and that a miner without live re-pointing reaches
  its pool by one reconnect.
\<close>

section \<open>Registered workers only\<close>

definition known_worker :: "sv1_env \<Rightarrow> string \<Rightarrow> bool" where
  "known_worker e worker \<longleftrightarrow> active_for_worker (e_db e) worker (e_now_ms e) (e_orders e) \<noteq> None
     \<or> default_pool (e_db e) (e_sellers e) worker \<noteq> None"

definition auth_reply :: "rpc_message \<Rightarrow> bool \<Rightarrow> line" where
  "auth_reply m ok = to_line (if ok then rpc_reply (m_id m) (JBool True) JNull
     else rpc_reply (m_id m) (JBool False)
       (JArr [JInt 24, JStr ''unregistered worker - register the rig first'', JNull]))"

lemma live_switch_fields:
  "\<exists>x. s1_to_miner (live_switch e ord want s) = s1_to_miner s @ x"
  "s1_label (live_switch e ord want s) = s1_label s"
  by (cases ord; auto simp: live_switch_def switch_to_def set_default_def swap_upstream_cases
      swap_finish_to_miner relay_simps split: sum.split)+

lemma finish_grace_fields:
  "w_registry (finish_grace e ord want w) = w_registry w"
  "s1_label (w_session (finish_grace e ord want w)) = s1_label (w_session w)"
  "\<exists>x. s1_to_miner (w_session (finish_grace e ord want w)) = s1_to_miner (w_session w) @ x"
  using live_switch_fields [of e ord want "w_session w"]
  by (auto simp: finish_grace_def with_session_def reply_miner_def relay_simps)

lemma route_admitted_fields:
  "w_registry (route_admitted e worker ord want w) = w_registry w"
  "s1_label (w_session (route_admitted e worker ord want w)) = s1_label (w_session w)"
  "\<exists>x. s1_to_miner (w_session (route_admitted e worker ord want w)) = s1_to_miner (w_session w) @ x"
  using finish_grace_fields [of e ord want w]
  by (auto simp: route_admitted_def with_session_def attach_order_def split: option.split)

text \<open>C31: Only registered workers are let in. A worker with neither a live order nor a
  registered rig is answered \<open>false\<close> with the error, nothing is registered or switched, and
  the connection closes; a worker with either is answered \<open>true\<close>, becomes the session's
  label and is entered in the session registry, before anything else is sent.\<close>

theorem authorize_registered_only:
  "if known_worker e worker
   then w_registry (on_authorize e m worker w) = insert_session worker (w_handle w) (w_registry w)
     \<and> s1_label (w_session (on_authorize e m worker w)) = worker
     \<and> (\<exists>rest. s1_to_miner (w_session (on_authorize e m worker w)) =
          s1_to_miner (w_session w) @ auth_reply m True # rest)
   else on_authorize e m worker w =
     w\<lparr>w_session := send_miner (auth_reply m False) (w_session w), w_phase := Closed\<rparr>"
proof (cases "known_worker e worker")
  case False
  then show ?thesis
    by (simp add: known_worker_def on_authorize_def authorize_resolved_def auth_reply_def reply_miner_def with_session_def)
next
  case True
  let ?P = "\<lambda>w'. w_registry w' = insert_session worker (w_handle w) (w_registry w)
    \<and> s1_label (w_session w') = worker
    \<and> (\<exists>rest. s1_to_miner (w_session w') = s1_to_miner (w_session w) @ auth_reply m True # rest)"
  have "?P (admit m worker w)"
    by (simp add: admit_def reply_miner_def with_session_def relay_simps auth_reply_def)
  then have "?P (route_admitted e worker ord want (admit m worker w))" for ord want
    using route_admitted_fields [of e worker ord want "admit m worker w"] by auto
  with \<open>?P (admit m worker w)\<close> True show ?thesis
    by (auto simp: on_authorize_def authorize_resolved_def Let_def known_worker_def split: option.splits)
qed

section \<open>One worker name towards the pool\<close>

lemma connect_upstream_authorizes:
  assumes "connect_upstream n target cfg ident = Inr conn"
  shows "last (uc_sent conn) = to_line (authorize_request (JInt 2) ident (t_password target))"
  using assms
  by (auto simp: connect_upstream_def Let_def split: if_splits option.splits sum.splits prod.splits)

lemma connect_raw_authorizes:
  "connect_raw l n target cfg ident = Inr (RawSv1 conn) \<Longrightarrow>
   last (uc_sent conn) = to_line (authorize_request (JInt 2) ident (t_password target))"
  by (rule connect_upstream_authorizes [of n target cfg])
    (auto simp: connect_raw_def connect_sv2_translate_def Let_def split: if_splits sum.splits prod.splits)

lemma upstream_worker_account:
  assumes "CHR ''.'' \<notin> set account"
  shows "\<exists>rig. split_once CHR ''.'' (upstream_worker account label) = Some (account, rig)"
  using assms
  by (auto simp: upstream_worker_def split_once_Some split: option.split)



section \<open>Re-routing by one reconnect\<close>

text \<open>On a resolved reconnect the handshake authorizes the bare account, not the name the
  shares are sent under.\<close>

lemma resolved_reconnect_identity:
  assumes "take_hint (e_now e) (peer_ip peer) hints = (Some target, hints')"
    and "accept_miner e peer h dflt regs hints = Inr w"
    and "connect_raw (e_lib e) (e_net e) target None (t_user target) = Inr (RawSv1 conn)"
  shows "last (uc_sent conn) = to_line (authorize_request (JInt 2) (t_user target) (t_password target))
    \<and> upstream_worker (t_user target) label \<noteq> t_user target"
  using connect_raw_authorizes [OF assms(3)] by (simp add: upstream_worker_def split: option.split)

lemma accept_miner_resolved:
  assumes "map_of hints (peer_ip peer) = Some (want, seen)"
    and "duration_since (e_now e) seen < reconnect_hint_ttl"
    and "accept_miner e peer h dflt regs hints = Inr w"
  shows "s1_target (w_session w) = want" "s1_routing (w_session w) = Idle" "w_phase w = Serving"
    "map_of (w_hints w) (peer_ip peer) = None"
  using assms
  by (auto simp: accept_miner_def take_hint_def relay_simps Let_def split: sum.splits)

lemma authorize_on_target:
  assumes "active_for_worker (e_db e) worker (e_now_ms e) (e_orders e) = ord"
    and "case ord of Some o' \<Rightarrow> o_target o' = want | None \<Rightarrow> default_pool (e_db e) (e_sellers e) worker = Some want"
    and "s1_target (w_session w) = want"
  shows "w_phase (on_authorize e m worker w) = w_phase w"
    "s1_target (w_session (on_authorize e m worker w)) = want"
    "s1_generation (w_session (on_authorize e m worker w)) = s1_generation (w_session w)"
    "s1_routing (w_session (on_authorize e m worker w)) =
       (case ord of Some o' \<Rightarrow> Rented (o_id o') | None \<Rightarrow> s1_routing (w_session w))"
  using assms
  by (cases ord; simp add: on_authorize_def authorize_resolved_def admit_def route_admitted_def reply_miner_def with_session_def
      attach_order_def relay_simps Let_def)+

text \<open>C33: A miner that cannot be re-pointed live reaches its pool by one reconnect. When the
  grace window ends without the capability, the connection is closed with a reconnect
  request; if the miner (same address) is back within the hint's lifetime, its new
  connection starts on the pool it was meant for, and its authorize, with the order or rig
  still there, leaves it on that pool without another switch, routed to the order; the hint
  is used up.\<close>

theorem one_reconnect_reroutes:
  assumes "w_phase w = Grace worker ord want" and "\<not> s1_capable (w_session w)"
    and "sv1_step e GraceDeadline w = (w1, ev)"
    and "accept_miner e2 peer h dflt regs (w_hints w1) = Inr w2" and "peer_ip peer = w_ip w"
    and "duration_since (e_now e2) (e_now e) < reconnect_hint_ttl"
    and "active_for_worker (e_db e3) worker (e_now_ms e3) (e_orders e3) = ord"
    and "case ord of Some o' \<Rightarrow> o_target o' = want | None \<Rightarrow> default_pool (e_db e3) (e_sellers e3) worker = Some want"
    and "on_authorize e3 m worker w2 = w3"
  shows "w_phase w1 = Closed \<and> s1_to_miner (w_session w1) = s1_to_miner (w_session w) @ [to_line (client_reconnect [] 0 1)]
    \<and> w_phase w3 = Serving \<and> s1_target (w_session w3) = want
    \<and> s1_routing (w_session w3) = (case ord of Some o' \<Rightarrow> Rented (o_id o') | None \<Rightarrow> Idle)
    \<and> s1_generation (w_session w3) = s1_generation (w_session w2)
    \<and> map_of (w_hints w2) (w_ip w) = None"
proof -
  have w1: "w1 = (reply_miner (client_reconnect [] 0 1)
      (w\<lparr>w_hints := AList.update (w_ip w) (want, e_now e) (w_hints w)\<rparr>))\<lparr>w_phase := Closed\<rparr>"
    using assms(1-3) by (simp add: sv1_step_def finish_grace_def)
  then have h: "map_of (w_hints w1) (peer_ip peer) = Some (want, e_now e)"
    by (simp add: reply_miner_def with_session_def assms(5))
  note w2 = accept_miner_resolved [OF h assms(6,4)]
  note w3 = authorize_on_target [OF assms(7,8) w2(1), of m]
  from w1 w2 w3 assms(5,9) show ?thesis
    by (auto simp: reply_miner_def with_session_def relay_simps split: option.split)
qed

definition demo_rig :: rig where
  "demo_rig = \<lparr>g_default_pool = demo_pool, g_advertised_ths = 1, g_price_per_th_day = 1,
     g_price_min_per_th_day = 0, g_price_max_per_th_day = 0, g_payout_address = None,
     g_rentable = True, g_max_rental_secs = 0\<rparr>"

definition demo_conn_env :: "lib \<Rightarrow> instant \<Rightarrow> sv1_env" where
  "demo_conn_env l now = \<lparr>e_lib = l, e_net = net_with [''pool:1''], e_db = db_up, e_now_ms = 0,
     e_now = now, e_orders = order_store_new [] 0, e_sellers = [(''acct.rig'', row_of_rig demo_rig)]\<rparr>"

definition demo_grace :: sv1_world where
  "demo_grace = \<lparr>w_session = new_session ''1.2.3.4:5'' (demo_pool\<lparr>t_url := ''other:1''\<rparr>),
     w_handle = Sv1 0, w_ip = ''1.2.3.4'', w_phase = Grace ''acct.rig'' None demo_pool,
     w_registry = [], w_hints = []\<rparr>"

theorem one_reconnect_reroutes_witness:
  "\<forall>l. \<exists>w1 w2. sv1_step (demo_conn_env l 7) GraceDeadline demo_grace = (w1, []) \<and> w_phase w1 = Closed
     \<and> accept_miner (demo_conn_env l 9) ''1.2.3.4:6'' 1 None [] (w_hints w1) = Inr w2
     \<and> w_phase (on_authorize (demo_conn_env l 10) demo_submit ''acct.rig'' w2) = Serving
     \<and> s1_target (w_session (on_authorize (demo_conn_env l 10) demo_submit ''acct.rig'' w2)) = demo_pool"
proof
  fix l
  let ?e = "demo_conn_env l"
  have w: "w_phase demo_grace = Grace ''acct.rig'' None demo_pool" "\<not> s1_capable (w_session demo_grace)"
    "w_ip demo_grace = ''1.2.3.4''" "w_hints demo_grace = []"
    by (simp_all add: demo_grace_def new_session_def)
  obtain w1 ev where w1: "sv1_step (?e 7) GraceDeadline demo_grace = (w1, ev)" by fastforce
  then have w1': "w_phase w1 = Closed" "ev = []" "w_hints w1 = [(''1.2.3.4'', (demo_pool, 7))]"
    using w by (auto simp: sv1_step_def finish_grace_def reply_miner_def with_session_def demo_conn_env_def)
  have ip: "peer_ip ''1.2.3.4:6'' = w_ip demo_grace"
    by (simp add: peer_ip_def w rsplit_once_def)
  obtain w2 where w2: "accept_miner (?e 9) ''1.2.3.4:6'' 1 None [] (w_hints w1) = Inr w2"
    by (simp add: accept_miner_def take_hint_def ip w w1' demo_conn_env_def duration_since_def
        reconnect_hint_ttl_def connect_net_with_up demo_pool_def)
  have d: "duration_since (e_now (?e 9)) (e_now (?e 7)) < reconnect_hint_ttl"
    by (simp add: demo_conn_env_def duration_since_def reconnect_hint_ttl_def)
  have a: "active_for_worker (e_db (?e 10)) ''acct.rig'' (e_now_ms (?e 10)) (e_orders (?e 10)) = None"
    by (simp add: demo_conn_env_def active_for_worker_def order_store_new_def)
  have r: "default_pool (e_db (?e 10)) (e_sellers (?e 10)) ''acct.rig'' = Some demo_pool"
    by (simp add: demo_conn_env_def default_pool_def get_rig_def demo_rig_def)
  show "\<exists>w1 w2. sv1_step (?e 7) GraceDeadline demo_grace = (w1, []) \<and> w_phase w1 = Closed
     \<and> accept_miner (?e 9) ''1.2.3.4:6'' 1 None [] (w_hints w1) = Inr w2
     \<and> w_phase (on_authorize (?e 10) demo_submit ''acct.rig'' w2) = Serving
     \<and> s1_target (w_session (on_authorize (?e 10) demo_submit ''acct.rig'' w2)) = demo_pool"
    using one_reconnect_reroutes [OF w(1,2) w1 w2 ip d a _ refl] r w1 w1' w2 by auto
qed

end
