(* ===== verification/Sv2_World.thy ===== *)
theory Sv2_World
  imports Sv2_Members Sv1_Auth
begin

text \<open>
  The proxy's SV2 side as a whole: every live rig is listed in the session registry under its
  worker exactly once, nothing else is, and every bundle target is a live rig of its worker.
\<close>

section \<open>Who is on a rig\<close>

text \<open>Only members that come and go change a rig's crew: its worker, the members and the token of
  the last one that left.\<close>

definition crew :: "sv2_session \<Rightarrow> string \<times> u64 \<times> u32 list" where
  "crew s = (v2_label s, v2_idle_token s, map fst (v2_members s))"

lemma crewD:
  assumes "crew s' = crew s"
  shows "v2_label s' = v2_label s" "v2_idle_token s' = v2_idle_token s"
    "v2_members s' = [] \<longleftrightarrow> v2_members s = []"
  using assms by (auto simp: crew_def simp del: map_eq_conv dest: map_eq_imp_length_eq)

lemma crew_fields [simp]:
  "crew (s\<lparr>v2_generation := x0\<rparr>) = crew s" "crew (s\<lparr>v2_target := x1\<rparr>) = crew s"
  "crew (s\<lparr>v2_to_up := x2\<rparr>) = crew s" "crew (s\<lparr>v2_generation_counter := x3\<rparr>) = crew s"
  "crew (s\<lparr>v2_channels := x4\<rparr>) = crew s" "crew (s\<lparr>v2_up_to_down := x5\<rparr>) = crew s"
  "crew (s\<lparr>v2_group_down := x6\<rparr>) = crew s" "crew (s\<lparr>v2_pending := x7\<rparr>) = crew s"
  "crew (s\<lparr>v2_next_down_cid := x8\<rparr>) = crew s" "crew (s\<lparr>v2_next_up_req := x9\<rparr>) = crew s"
  "crew (s\<lparr>v2_next_member_id := x10\<rparr>) = crew s" "crew (s\<lparr>v2_routing := x11\<rparr>) = crew s"
  "crew (s\<lparr>v2_default_target := x12\<rparr>) = crew s" "crew (s\<lparr>v2_hashrate := x13\<rparr>) = crew s"
  "crew (s\<lparr>v2_delivered_work := x14\<rparr>) = crew s" "crew (s\<lparr>v2_accepted := x15\<rparr>) = crew s"
  "crew (s\<lparr>v2_submitted := x16\<rparr>) = crew s" "crew (s\<lparr>v2_low_logged := x17\<rparr>) = crew s"
  "crew (s\<lparr>v2_translating := x18\<rparr>) = crew s" "crew (s\<lparr>v2_supervised := x19\<rparr>) = crew s"
  "crew (s\<lparr>v2_epoch := x20\<rparr>) = crew s" "crew (s\<lparr>v2_retrying := x21\<rparr>) = crew s"
  by (simp_all add: crew_def)

lemma told_crew: "told s s' \<Longrightarrow> crew s' = crew s"
  by (simp add: crew_def told_fields)

lemma send_crew [simp]:
  "crew (send_member m f s) = crew s" "crew (send_built m g s) = crew s"
  "crew (send_upstream f s) = crew s" "crew (counted s) = crew s"
  "crew (force_reconnect2 s) = crew s" "crew (spawn_switch_retry s) = crew s"
  by (simp_all add: told_crew [OF told_send] send_built_def send_upstream_def counted_def
      force_reconnect2_def spawn_switch_retry_def split: option.split)

lemmas send_label [simp] = send_crew [THEN crewD(1)]

lemma finish_crew [simp]: "crew (snd (finish_repoint members rp ab s)) = crew s"
  by (rule told_crew [OF told_finish])

lemma swap_crew: "crew (snd (swap_upstream2 l n t r s)) = crew s"
proof (cases "probe_sv2 l n t")
  case (Inl f)
  have "crew (snd (swap_to_sv1_translate l n t r g ident (counted s))) = crew s" for g ident
    by (simp add: swap_to_sv1_translate_def install_translate_state translate_state_def
        install_active_def split: list.split sum.split)
  with Inl show ?thesis by (cases f) (simp_all add: swap_cases)
next
  case (Inr c)
  obtain tfs x where c: "c = (tfs, x)" by (cases c)
  show ?thesis
  proof (cases "reopen_all l n (t_url t) 1 (upstream_worker (t_user t) (v2_label s))
     (map (\<lambda>c. (ch_down c, ch_owner c, ch_spec c, ch_down_group c)) (v2_channels s)) tfs [] reopened_none")
    case R: (Inl err)
    with Inr c show ?thesis by (simp add: swap_cases)
  next
    case R: (Inr res)
    obtain ro d rest where "res = (ro, d, rest)" by (cases res)
    with R Inr c show ?thesis by (simp add: swap_cases native_state_def install_active_def)
  qed
qed

lemma swap_crew_of: "swap_upstream2 l n t r s = (res, s') \<Longrightarrow> crew s' = crew s"
  using swap_crew [of l n t r s] by simp

lemma switch_order_crew: "crew (snd (switch_to_order2 l n orders oid s)) = crew s"
  using swap_crew_of
  by (auto simp: switch_to_order2_def switch_to2_def swap_crew split: option.split prod.split sum.split)

lemma revert_crew: "crew (snd (revert2 l n s)) = crew s"
  by (simp add: revert2_def swap_crew split: option.split)

lemma reconcile_crew: "crew (reconcile_routing l n orders desired s) = crew s"
  using switch_order_crew [of l n orders _ s]
  by (auto simp: reconcile_routing_def Let_def revert_crew split: option.split prod.split sum.split)
    (metis snd_conv)+

lemma request_open_crew [simp]: "crew (request_open m sp s) = crew s"
  by (simp add: request_open_def send_upstream_def Let_def crew_def split: option.split)

lemma attach_crew:
  "v2_label (snd (attach_member sp s)) = v2_label s"
  "v2_idle_token (snd (attach_member sp s)) = v2_idle_token s"
  "attach_member sp s = (Some m, s') \<Longrightarrow> v2_members s' \<noteq> []"
  "attach_member sp s = (None, s') \<Longrightarrow> v2_members s' = v2_members s"
proof -
  have r: "v2_label (request_open m sp x) = v2_label x" "v2_idle_token (request_open m sp x) = v2_idle_token x"
    "v2_members (request_open m sp x) = [] \<longleftrightarrow> v2_members x = []" for m x
    using crewD [OF request_open_crew [of m sp x]] by blast+
  have u: "AList.update k v m \<noteq> []" for k :: u32 and v :: "out_frame list" and m
    by (cases m) (auto split: if_splits)
  show "v2_label (snd (attach_member sp s)) = v2_label s"
    "v2_idle_token (snd (attach_member sp s)) = v2_idle_token s"
    "attach_member sp s = (Some m, s') \<Longrightarrow> v2_members s' \<noteq> []"
    "attach_member sp s = (None, s') \<Longrightarrow> v2_members s' = v2_members s"
    by (auto simp: attach_member_def add_member_def r u split_def Let_def split: if_splits)
qed

lemma detach_crew:
  "v2_label (snd (detach_member m s)) = v2_label s"
  "v2_idle_token (snd (detach_member m s)) = v2_idle_token s"
  "fst (detach_member m s) \<longleftrightarrow> v2_members (snd (detach_member m s)) = []"
proof -
  have "crew (close_fold tr ups x) = crew x" for tr ups x
    by (induction ups arbitrary: x) (simp_all add: close_fold_def send_upstream_def crew_def split: option.split)
  then have "v2_label (close_fold tr ups x) = v2_label x" "v2_idle_token (close_fold tr ups x) = v2_idle_token x"
    for tr ups x using crewD by blast+
  then show "v2_label (snd (detach_member m s)) = v2_label s"
    "v2_idle_token (snd (detach_member m s)) = v2_idle_token s"
    by (simp_all add: detach_member_eq Let_def)
  show "fst (detach_member m s) \<longleftrightarrow> v2_members (snd (detach_member m s)) = []"
    by (simp add: detach_member_def Let_def)
qed

lemma miner_crew: "crew (fst (on_miner_frame l m f s)) = crew s"
  by (auto simp: on_miner_frame_def request_open_def Let_def split: option.split)

lemma same_ids_crew: "same_ids s s' \<Longrightarrow> crew s' = crew s"
  by (simp add: same_ids_def crew_def)

lemma finish_open_crew: "crew (finish_open l info m sp s) = crew s"
proof -
  have "crew (snd (map_group u e x)) = crew x" for u e x
    by (simp add: map_group_def split: option.split)
  then show ?thesis by (simp add: finish_open_def split_def Let_def register_channel_def)
qed

lemma upstream_crew: "crew (fst (on_upstream_frame l now g f s)) = crew s"
proof (cases "msg_type f")
  case (Some mt)
  have o: "crew (on_open_success l f s) = crew s"
    using open_success_cases [of s l f] by (auto simp: finish_open_crew)
  have e: "crew (on_open_error l f s) = crew s"
    using open_error_cases [of s l f] by (auto dest: same_ids_crew)
  have a: "crew (forward_down f up (fst (if b then on_submit_success l now f up x else (x, []))))
      = crew x" for b up x
    using same_ids_crew [OF same_ids_trans [OF submit_success_same_ids forward_same_ids]]
      same_ids_crew [OF forward_same_ids] by auto
  have t: "crew (on_set_target l f up s) = crew s" for up
    by (rule same_ids_crew [OF target_same_ids(1)])
  show ?thesis
    using o e a t by (auto simp: on_upstream_frame_def Some Let_def split_def split: option.split)
qed (simp add: on_upstream_frame_def)

lemma react_crew: "crew (fst (v2_react l g i s)) = crew s"
proof (cases i)
  case (NativeFrame now f)
  then show ?thesis by (simp add: upstream_crew)
next
  case (TranslatedLine now down wl st)
  then show ?thesis
    using same_ids_crew [OF line_same_ids [of "(st, s)" l now g down wl]]
    by (simp add: split_def Let_def)
qed

section \<open>The world\<close>

text \<open>Connections come and speak, upstreams deliver, the supervisor and the retry of a rig run,
  the API forces a reconnect, the reaper of an idle rig fires.\<close>

inductive world_step :: "sv2_world \<Rightarrow> sv2_world \<Rightarrow> bool" where
  connect: "connect_miner2 e e2 mo w = (res, w') \<Longrightarrow> world_step w w'"
| conn: "sv2_step e c ev w = (go, w', acct) \<Longrightarrow> world_step w w'"
| upstream: "map_of (x_sessions w) h = Some s \<Longrightarrow> world_step w (put_session h (fst (v2_react l g i s)) w)"
| supervise: "map_of (x_sessions w) h = Some s \<Longrightarrow> supervise_attempt2 l n orders g s = Some (res, s') \<Longrightarrow>
    world_step w (put_session h (if isl res then s' else force_reconnect2 s') w)"
| retry: "map_of (x_sessions w) h = Some s \<Longrightarrow> retry_round l n orders active s = (res, s') \<Longrightarrow>
    world_step w (put_session h s' w)"
| operator: "map_of (x_sessions w) h = Some s \<Longrightarrow> world_step w (put_session h (force_reconnect2 s) w)"
| reap: "map_of (x_sessions w) h = Some s \<Longrightarrow> world_step w (reap_idle_rig h (v2_label s) token w)"

inductive_simps world_step_iff: "world_step w w'"

inductive world_reach :: "sv2_world \<Rightarrow> bool" where
  start: "world_reach sv2_world_new"
| step: "world_reach w \<Longrightarrow> world_step w w' \<Longrightarrow> world_reach w'"

definition listed :: "sv2_world \<Rightarrow> string \<Rightarrow> nat \<Rightarrow> nat" where
  "listed w worker h = count_list (get_all (x_registry w) worker) (Sv2 h)"

definition world_ok :: "sv2_world \<Rightarrow> bool" where
  "world_ok w \<longleftrightarrow>
     (\<forall>h. x_next w \<le> h \<longrightarrow> map_of (x_sessions w) h = None)
   \<and> (\<forall>h worker. listed w worker h = (case map_of (x_sessions w) h of
         None \<Rightarrow> 0 | Some s \<Rightarrow> if v2_label s = worker then 1 else 0))
   \<and> (\<forall>worker h. map_of (x_rigs w) worker = Some h \<longrightarrow>
         (\<exists>s. map_of (x_sessions w) h = Some s \<and> v2_label s = worker))"

lemma put_session_ok:
  assumes "world_ok w" "map_of (x_sessions w) h = Some s" "v2_label s' = v2_label s"
  shows "world_ok (put_session h s' w)"
  using assms by (auto simp: world_ok_def put_session_def listed_def split: option.split) fastforce+

lemma count_list_filter: "count_list (filter P xs) x = (if P x then count_list xs x else 0)"
  by (induction xs) auto

lemma listed_remove: "listed (w\<lparr>x_registry := remove_if v (Sv2 h) r\<rparr>) worker h' =
    (if v = worker \<and> h' = h then 0 else listed (w\<lparr>x_registry := r\<rparr>) worker h')"
  by (simp add: listed_def reg.members_leave count_list_filter)

text \<open>Closing a rig that is no bundle target any more, and is taken off the registry.\<close>

lemma close_ok:
  assumes "world_ok w" "map_of (x_sessions w) h = Some s" "v2_label s = v"
    and "\<forall>worker. map_of (x_rigs w) worker \<noteq> Some h"
  shows "world_ok (close_session h (w\<lparr>x_registry := remove_if v (Sv2 h) (x_registry w)\<rparr>))"
proof -
  have "listed w worker h' = (case map_of (x_sessions w) h' of
         None \<Rightarrow> 0 | Some s \<Rightarrow> if v2_label s = worker then 1 else 0)" for worker h'
    using assms(1) by (simp add: world_ok_def)
  note l = this
  have "listed (close_session h (w\<lparr>x_registry := remove_if v (Sv2 h) (x_registry w)\<rparr>)) worker h'
      = (if v = worker \<and> h' = h then 0 else listed w worker h')" for worker h'
    using listed_remove [of v h "x_registry w" w worker h']
    by (simp add: listed_def close_session_def)
  then show ?thesis
    using assms l [of _ h]
    by (auto simp: world_ok_def close_session_def split: option.split)
qed

section \<open>Every step keeps the registries exact\<close>

lemma attach_to_rig_ok:
  assumes "world_ok w" "attach_to_rig e worker sp h w = (c, w')"
  shows "world_ok w'"
proof (cases "map_of (x_sessions w) h")
  case None
  with assms show ?thesis by (simp add: attach_to_rig_def)
next
  case (Some s)
  let ?r = "reconcile_routing (e_lib e) (e_net e) (orders_of e) (active_order e worker) s"
  have "w' = put_session h (snd (attach_member sp ?r)) w"
    using assms(2) Some by (simp add: attach_to_rig_def Let_def split_def)
  then show ?thesis
    using put_session_ok [OF assms(1) Some] by (simp add: attach_crew crewD(1) [OF reconcile_crew])
qed

lemma first_upstream_crew:
  "crew (snd (first_upstream l n active target sp worker r m s)) = crew s"
proof -
  have i: "crew (snd (connect_and_install_initial l n t sp worker r m x)) = crew x" for t x
    by (auto simp: connect_and_install_initial_def install_sv2_initial_def
        install_sv1_translate_initial_def install_active_def Let_def split: sum.split option.split prod.split)
  show ?thesis
  proof (cases "connect_and_install_initial l n target sp worker r m s")
    case (Pair res s1)
    with i [of target s] have "crew s1 = crew s" by simp
    with Pair i show ?thesis
      by (cases res; cases "Option.bind active o_fallback") (simp_all add: first_upstream_def)
  qed
qed

lemma fresh_rig_ok:
  assumes "world_ok w" "fresh_rig e worker sp active idle target r w = (c, w')"
  shows "world_ok w'"
proof -
  let ?s0 = "snd (add_member (sv2_new worker target r idle))"
  let ?m = "fst (add_member (sv2_new worker target r idle))"
  obtain res s1 where f: "first_upstream (e_lib e) (e_net e) active target sp worker r ?m ?s0 = (res, s1)"
    by (metis prod.collapse)
  show ?thesis
  proof (cases res)
    case (Inl err)
    with assms f show ?thesis by (simp add: fresh_rig_def split_def)
  next
    case (Inr u)
    have lab: "v2_label s1 = worker"
      using crewD(1) [OF first_upstream_crew [of "e_lib e" "e_net e" active target sp worker r ?m ?s0]] f
      by (simp add: add_member_def sv2_new_def)
    let ?h = "x_next w"
    let ?w1 = "(put_session ?h (s1\<lparr>v2_supervised := True\<rparr>) w)\<lparr>x_next := ?h + 1,
       x_registry := insert_session worker (Sv2 ?h) (x_registry w)\<rparr>"
    have nw: "w' = (if v2_translating s1 then ?w1 else snd (insert_if_absent worker ?h ?w1))"
      using assms(2) f Inr by (auto simp: fresh_rig_def split_def Let_def)
    have free: "map_of (x_sessions w) ?h = None" using assms(1) by (simp add: world_ok_def)
    have nt: "map_of (x_rigs w) v \<noteq> Some ?h" for v
      using assms(1) free unfolding world_ok_def by (metis option.distinct(1))
    have "listed ?w1 v h' = (if v = worker \<and> h' = ?h then 1 else 0) + listed w v h'" for v h'
      by (simp add: listed_def reg.members_join)
    with assms(1) free nt lab have w1: "world_ok ?w1"
      by (auto simp: world_ok_def put_session_def split: option.splits)
    have "map_of (x_sessions ?w1) ?h = Some (s1\<lparr>v2_supervised := True\<rparr>)" by (simp add: put_session_def)
    with w1 lab have "world_ok (snd (insert_if_absent worker ?h ?w1))"
      by (auto simp: world_ok_def insert_if_absent_def listed_def)
    with w1 show ?thesis by (simp add: nw)
  qed
qed

lemma connect_ok:
  assumes "world_ok w" "connect_miner2 e e2 mo w = (res, w')"
  shows "world_ok w'"
proof -
  obtain c w1 where a: "(case rig_get (mo_worker mo) w of None \<Rightarrow> (None, w)
      | Some h \<Rightarrow> attach_to_rig e2 (mo_worker mo) (mo_spec mo) h w) = (c, w1)"
    by (metis prod.collapse)
  then have "world_ok w1"
    using assms(1) attach_to_rig_ok [OF assms(1)] by (cases "rig_get (mo_worker mo) w") auto
  with assms a show ?thesis
    by (cases c) (auto simp: connect_miner2_def Let_def dest: fresh_rig_ok split: option.splits)
qed

lemma target_label:
  assumes "world_ok w" "map_of (x_rigs w) worker = Some h" "map_of (x_sessions w) h = Some s"
  shows "v2_label s = worker"
proof -
  obtain s' where "map_of (x_sessions w) h = Some s'" "v2_label s' = worker"
    using assms(1,2) unfolding world_ok_def by blast
  with assms(3) show ?thesis by simp
qed

lemma leave_ok:
  assumes "world_ok w"
  shows "world_ok (leave c w)"
proof (cases "map_of (x_sessions w) (cn_handle c)")
  case None
  with assms show ?thesis by (simp add: leave_def)
next
  case (Some s)
  let ?s = "snd (detach_member (cn_member c) s)"
  have lab: "v2_label ?s = v2_label s" by (rule detach_crew)
  consider "\<not> fst (detach_member (cn_member c) s)"
    | "fst (detach_member (cn_member c) s)" "is_target (v2_label s) (cn_handle c) w"
    | "fst (detach_member (cn_member c) s)" "\<not> is_target (v2_label s) (cn_handle c) w" by blast
  then show ?thesis
  proof cases
    case 1
    then show ?thesis
      using put_session_ok [OF assms Some lab] by (simp add: leave_def Some split_def Let_def)
  next
    case 2
    then show ?thesis
      using put_session_ok [OF assms Some, of "?s\<lparr>v2_idle_token := v2_idle_token ?s + 1\<rparr>"] lab
      by (simp add: leave_def Some split_def Let_def)
  next
    case 3
    have "map_of (x_rigs w) worker \<noteq> Some (cn_handle c)" for worker
      using target_label [OF assms _ Some, of worker] 3(2) by (auto simp: is_target_def)
    then show ?thesis
      using close_ok [OF assms Some refl] 3 lab by (simp add: leave_def Some split_def Let_def)
  qed
qed

lemma reap_ok:
  assumes "world_ok w" "map_of (x_sessions w) h = Some s"
  shows "world_ok (reap_idle_rig h (v2_label s) token w)"
proof -
  let ?w = "remove_target (v2_label s) h w"
  have u: "world_ok ?w" "x_sessions ?w = x_sessions w"
    using assms(1) by (auto simp: world_ok_def remove_target_def listed_def)
  have "map_of (x_rigs ?w) worker \<noteq> Some h" for worker
    using target_label [OF assms(1) _ assms(2), of worker] by (auto simp: remove_target_def)
  with close_ok [OF u(1), of h s "v2_label s"] u(2) assms show ?thesis
    by (simp add: reap_idle_rig_def Let_def)
qed

lemma sv2_step_ok:
  assumes "world_ok w" "sv2_step e c ev w = (go, w', acct)"
  shows "world_ok w'"
proof (cases "map_of (x_sessions w) (cn_handle c)")
  case None
  with assms show ?thesis by (simp add: sv2_step_def)
next
  case (Some s)
  have "world_ok (put_session (cn_handle c) (fst (on_miner_frame (e_lib e) (cn_member c) f s)) w)" for f
    by (rule put_session_ok [OF assms(1) Some crewD(1) [OF miner_crew]])
  with assms Some show ?thesis
    by (auto simp: sv2_step_def leave_ok split_def Let_def split: sv2_event.splits option.splits if_splits)
qed

lemma supervise_crew:
  assumes "supervise_attempt2 l n orders g s = Some (res, s')"
  shows "crew s' = crew s"
  using assms switch_order_crew [of l n orders _ s] revert_crew [of l n s]
  by (auto simp: supervise_attempt2_def split: if_splits routing.splits) (metis snd_conv)+

lemma retry_crew: "retry_round l n orders active s = (res, s') \<Longrightarrow> crew s' = crew s"
  using switch_order_crew [of l n orders _ s]
  by (auto simp: retry_round_def force_reconnect2_def split: option.splits if_splits prod.splits sum.splits)
    (metis snd_conv)+

lemma world_step_ok: "world_step w w' \<Longrightarrow> world_ok w \<Longrightarrow> world_ok w'"
proof (induction rule: world_step.induct)
  case (supervise w h s l n orders g res s')
  with put_session_ok [OF _ supervise(1)] crewD(1) [OF supervise_crew [OF supervise(2)]] show ?case by simp
next
  case (retry w h s l n orders active res s')
  with put_session_ok [OF _ retry(1)] crewD(1) [OF retry_crew [OF retry(2)]] show ?case by simp
qed (auto intro: connect_ok sv2_step_ok reap_ok put_session_ok simp: crewD(1) [OF react_crew])

lemma world_reach_ok: "world_reach w \<Longrightarrow> world_ok w"
proof (induction rule: world_reach.induct)
  case start
  show ?case by (simp add: world_ok_def sv2_world_new_def listed_def get_all_def)
next
  case (step w w')
  then show ?case using world_step_ok by blast
qed

text \<open>C18: The SV2 registries are exact in every reachable state of the proxy: a live rig is in the
  session registry exactly once, under its own worker, a closed or reaped rig is not in it at
  all, and the bundle target of a worker is always a live rig of that worker, so no miner is
  ever attached to a dead upstream and no ghost of a rig is reported.\<close>

theorem rig_registries_exact:
  assumes "world_reach w"
  shows "count_list (get_all (x_registry w) worker) (Sv2 h) =
      (case map_of (x_sessions w) h of None \<Rightarrow> 0 | Some s \<Rightarrow> if v2_label s = worker then 1 else 0)
    \<and> (rig_get worker w = Some h \<longrightarrow> (\<exists>s. map_of (x_sessions w) h = Some s \<and> v2_label s = worker))"
  using world_reach_ok [OF assms] by (simp add: world_ok_def listed_def rig_get_def)

definition rig_env :: sv1_env where
  "rig_env = \<lparr>e_lib = sample_lib, e_net = pool_net, e_db = db_up, e_now_ms = 0, e_now = 0,
     e_orders = order_store_new [] 0,
     e_sellers = [(''rig'', row_of_rig (demo_rig\<lparr>g_default_pool := sample_pool\<rparr>))]\<rparr>"

lemma rig_env_pool: "default_pool (e_db rig_env) (e_sellers rig_env) ''rig'' = Some sample_pool"
  by (simp add: default_pool_def get_rig_def rig_env_def demo_rig_def row_of_rig_def into_rig_def)

text \<open>Its first miner connects and its session becomes the bundle target.\<close>

lemma rig_env_connects:
  "active_order rig_env ''rig'' = None"
  "\<exists>c w. connect_miner2 rig_env rig_env \<lparr>mo_spec = wide_spec, mo_worker = ''rig''\<rparr> sv2_world_new = (Inr c, w)
     \<and> map_of (x_rigs w) ''rig'' = Some 0 \<and> cn_handle c = 0"
proof -
  let ?mo = "\<lparr>mo_spec = wide_spec, mo_worker = ''rig''\<rparr>"
  note d = rig_env_pool
  show a: "active_order rig_env ''rig'' = None"
    by (simp add: active_order_def active_for_worker_def rig_env_def order_store_new_def)
  have m: "fst (add_member (sv2_new ''rig'' sample_pool Idle (Some sample_pool))) = 1"
    by (simp add: add_member_def sv2_new_def)
  have e: "e_lib rig_env = sample_lib" "e_net rig_env = pool_net" by (simp_all add: rig_env_def)
  have "connect_miner2 rig_env rig_env ?mo sv2_world_new =
      fresh_rig rig_env ''rig'' wide_spec None (Some sample_pool) sample_pool Idle sv2_world_new"
    by (simp add: connect_miner2_def d a rig_get_def Let_def) (simp add: sv2_world_new_def d a)
  then show "\<exists>c w. connect_miner2 rig_env rig_env ?mo sv2_world_new = (Inr c, w)
     \<and> map_of (x_rigs w) ''rig'' = Some 0 \<and> cn_handle c = 0"
    using first_rig(1,3)
    by (auto simp: fresh_rig_def split_def m e Let_def insert_if_absent_def put_session_def sv2_world_new_def)
qed

theorem rig_registries_exact_witness:
  "\<exists>w. world_reach w \<and> rig_get ''rig'' w = Some 0
     \<and> count_list (get_all (x_registry w) ''rig'') (Sv2 0) = 1"
proof -
  obtain c w where c: "connect_miner2 rig_env rig_env \<lparr>mo_spec = wide_spec, mo_worker = ''rig''\<rparr> sv2_world_new = (Inr c, w)"
    and t: "map_of (x_rigs w) ''rig'' = Some 0" using rig_env_connects(2) by blast
  have r: "world_reach w" by (rule world_reach.step [OF world_reach.start world_step.connect [OF c]])
  with rig_registries_exact [OF r, of "''rig''" 0] t show ?thesis by (auto simp: rig_get_def)
qed

end
