(* ===== verification/Sv2_Outage.thy ===== *)
theory Sv2_Outage
  imports Sv2_Swap_Props Sv1_Swap
begin

text \<open>
  The rig's supervisor and background retry during an outage of the pools: nothing but the
  attempt counter moves, no pool is translated because it was down, and both end on a wanted
  pool at the first attempt that can reach one; the retry also ends when the rental does.
\<close>

section \<open>Outages\<close>

text \<open>An attempt on a pool that is down leaves the rig as it is; only the attempt is counted.\<close>

definition down_pool :: "lib \<Rightarrow> net \<Rightarrow> upstream_target \<Rightarrow> bool" where
  "down_pool l n t \<longleftrightarrow> (\<exists>e. probe_sv2 l n t = Inl (Unreachable e))"

lemma swap_down_pool: "down_pool l n t \<Longrightarrow> swap_upstream2 l n t r s = (Inl UnreachableNoDowngrade, counted s)"
  by (auto simp: down_pool_def swap_cases)

text \<open>The pools of an order, and those the supervisor may use for the rig as it is routed.\<close>

definition order_pools :: "(string \<Rightarrow> order option) \<Rightarrow> string \<Rightarrow> upstream_target list" where
  "order_pools orders oid = (case orders oid of None \<Rightarrow> []
     | Some o' \<Rightarrow> o_target o' # (case o_fallback o' of None \<Rightarrow> [] | Some fb \<Rightarrow> [fb]))"

definition pools_of :: "(string \<Rightarrow> order option) \<Rightarrow> sv2_session \<Rightarrow> upstream_target list" where
  "pools_of orders s = (case v2_routing s of
       Rented oid \<Rightarrow> order_pools orders oid
     | Idle \<Rightarrow> (case v2_default_target s of None \<Rightarrow> [] | Some t \<Rightarrow> [t]))"

definition recounted :: "sv2_session \<Rightarrow> sv2_session \<Rightarrow> bool" where
  "recounted s s' \<longleftrightarrow> s' = s\<lparr>v2_generation_counter := v2_generation_counter s'\<rparr>"

lemma recounted_refl [simp]: "recounted s s"
  by (simp add: recounted_def)

lemma recounted_counted [simp]: "recounted s (counted s)"
  by (simp add: recounted_def counted_def)

lemma recounted_trans: "recounted s s1 \<Longrightarrow> recounted s1 s2 \<Longrightarrow> recounted s s2"
  unfolding recounted_def
proof -
  assume 1: "s1 = s\<lparr>v2_generation_counter := v2_generation_counter s1\<rparr>"
    and 2: "s2 = s1\<lparr>v2_generation_counter := v2_generation_counter s2\<rparr>"
  show "s2 = s\<lparr>v2_generation_counter := v2_generation_counter s2\<rparr>" by (subst 2, subst 1) simp
qed

lemma recounted_fields:
  assumes "recounted s s'"
  shows "v2_generation s' = v2_generation s" "v2_routing s' = v2_routing s" "v2_channels s' = v2_channels s"
    "v2_default_target s' = v2_default_target s" "v2_label s' = v2_label s" "v2_epoch s' = v2_epoch s"
    "v2_members s' = v2_members s" "v2_translating s' = v2_translating s" "v2_target s' = v2_target s"
    "v2_pending s' = v2_pending s"
  by (subst assms [unfolded recounted_def], simp)+

text \<open>Whether a swap succeeds does not depend on how many were attempted before.\<close>

lemma repoint_all_result: "fst (repoint_all members rp s) = fst (repoint_all members rp s')"
proof (induction members rp s arbitrary: s' rule: repoint_all.induct)
  case (1 members s)
  show ?case by simp
next
  case (2 members down owner prefix target rest s)
  show ?case
  proof (cases "owner \<in> set members")
    case False
    show ?thesis using 2(2) [OF False, of s'] by (simp add: False)
  next
    case True
    show ?thesis
    proof (cases "set_extranonce_prefix down prefix = None \<or> set_target down target = None")
      case False
      then obtain f g where "set_extranonce_prefix down prefix = Some f" "set_target down target = Some g"
        by auto
      with 2(1) [OF True this(1) refl this(2),
          of "send_snapshot members owner g (send_snapshot members owner f s')"]
      show ?thesis by (simp add: True Let_def)
    qed (auto simp: True Let_def split: option.split)
  qed
qed

lemma finish_repoint_result:
  "fst (finish_repoint members rp ab s) = fst (finish_repoint members rp ab' s')"
  using repoint_all_result [of members rp s s']
  by (auto simp: finish_repoint_def split: prod.splits sum.splits)

lemma swap_to_translate_result:
  assumes "recounted s s1"
  shows "fst (swap_to_sv1_translate l n t r g ident (counted s)) = fst (swap_to_sv1_translate l n t r g' ident (counted s1))"
proof -
  have f: "v2_channels (counted s) = v2_channels s" "v2_channels (counted s1) = v2_channels s"
    "v2_members (counted s) = v2_members s" "v2_members (counted s1) = v2_members s"
    using recounted_fields(3,7) [OF assms] by (simp_all add: counted_def)
  show ?thesis
  proof (cases "v2_channels s")
    case Nil
    then show ?thesis by (simp add: swap_to_sv1_translate_def f)
  next
    case (Cons c cs)
    show ?thesis
    proof (cases "connect_sv1_upstream l n t ident")
      case (Inl err)
      then show ?thesis by (simp add: swap_to_sv1_translate_def f Cons)
    next
      case (Inr conn)
      then show ?thesis
        by (simp add: swap_to_sv1_translate_def f Cons install_translate_state finish_repoint_result
            [of _ _ "abandoned_of (counted s)" _ "abandoned_of (counted s1)"
              "translate_state g' t r (ch_down c, ch_owner c, ch_spec c) conn (counted s1)"])
    qed
  qed
qed

lemma swap_result_recounted:
  assumes "recounted s s1"
  shows "fst (swap_upstream2 l n t r s1) = fst (swap_upstream2 l n t r s)"
proof (cases "probe_sv2 l n t")
  case (Inl f)
  show ?thesis
    using recounted_fields(5) [OF assms]
    by (cases f) (simp_all add: swap_cases Inl swap_to_translate_result [OF assms,
        where g' = "v2_generation_counter s1 + 1" and g = "v2_generation_counter s + 1"])
next
  case (Inr c)
  obtain tfs x where c: "c = (tfs, x)" by (cases c)
  let ?R = "reopen_all l n (t_url t) 1 (upstream_worker (t_user t) (v2_label s))
    (map (\<lambda>c. (ch_down c, ch_owner c, ch_spec c, ch_down_group c)) (v2_channels s)) tfs [] reopened_none"
  show ?thesis
  proof (cases ?R)
    case R: (Inl err)
    with Inr c recounted_fields [OF assms] show ?thesis by (simp add: swap_cases)
  next
    case R: (Inr res)
    obtain ro deferred rest where "res = (ro, deferred, rest)" by (cases res)
    with R Inr c recounted_fields [OF assms] show ?thesis
      by (simp add: swap_cases finish_repoint_result [of "map fst (v2_members s)" "ro_repoint ro"
          "abandoned_of s1" _ "abandoned_of s"])
  qed
qed

section \<open>One attempt\<close>

text \<open>A rig that has somewhere to go: rented, or idle with a pool of its seller.\<close>

definition homed :: "sv2_session \<Rightarrow> bool" where
  "homed s \<longleftrightarrow> (v2_routing s = Idle \<longrightarrow> v2_default_target s \<noteq> None)"

definition outage :: "lib \<Rightarrow> net \<Rightarrow> (string \<Rightarrow> order option) \<Rightarrow> sv2_session \<Rightarrow> bool" where
  "outage l n orders s \<longleftrightarrow> (\<forall>t\<in>set (pools_of orders s). down_pool l n t)"

text \<open>The first pool of the list that is up, and it takes the rig.\<close>

definition takes_rig :: "lib \<Rightarrow> net \<Rightarrow> (string \<Rightarrow> order option) \<Rightarrow> sv2_session \<Rightarrow> upstream_target \<Rightarrow> bool" where
  "takes_rig l n orders s t \<longleftrightarrow> (\<exists>ps qs. pools_of orders s = ps @ t # qs
     \<and> (\<forall>p\<in>set ps. down_pool l n p) \<and> fst (swap_upstream2 l n t (v2_routing s) s) = Inr ())"

lemma pools_of_recounted:
  assumes "recounted s s1"
  shows "pools_of orders s1 = pools_of orders s" "homed s1 = homed s"
    "outage l n orders s1 = outage l n orders s"
    "takes_rig l n orders s1 t = takes_rig l n orders s t"
proof -
  note f = recounted_fields(2,4) [OF assms]
  show p: "pools_of orders s1 = pools_of orders s"
    by (cases "v2_routing s") (simp_all add: pools_of_def f)
  show "homed s1 = homed s" by (simp add: homed_def f)
  show "outage l n orders s1 = outage l n orders s" by (simp add: outage_def p)
  show "takes_rig l n orders s1 t = takes_rig l n orders s t"
    by (simp add: takes_rig_def p f swap_result_recounted [OF assms])
qed

text \<open>A switch to an order whose pools are all down, and one whose first pool that is up takes
  the rig.\<close>

lemma switch_outage:
  assumes "\<forall>t\<in>set (order_pools orders oid). down_pool l n t"
  shows "\<exists>e s1. switch_to_order2 l n orders oid s = (Inl e, s1) \<and> recounted s s1"
proof (cases "orders oid")
  case None
  then show ?thesis by (simp add: switch_to_order2_def)
next
  case (Some o')
  have p: "swap_upstream2 l n (o_target o') (Rented oid) x = (Inl UnreachableNoDowngrade, counted x)" for x
    using assms Some by (intro swap_down_pool) (simp add: order_pools_def)
  show ?thesis
  proof (cases "o_fallback o'")
    case None
    with p Some show ?thesis by (simp add: switch_to_order2_def switch_to2_def)
  next
    case fb: (Some fb)
    have "swap_upstream2 l n fb (Rented oid) x = (Inl UnreachableNoDowngrade, counted x)" for x
      using assms Some fb by (intro swap_down_pool) (simp add: order_pools_def)
    with p Some fb show ?thesis
      by (simp add: switch_to_order2_def switch_to2_def recounted_trans [OF recounted_counted recounted_counted])
  qed
qed

lemma switch_reaches:
  assumes "order_pools orders oid = ps @ t # qs" "\<forall>p\<in>set ps. down_pool l n p"
    and ok: "fst (swap_upstream2 l n t (Rented oid) s) = Inr ()"
  shows "\<exists>s0 s1. recounted s s0 \<and> swap_upstream2 l n t (Rented oid) s0 = (Inr (), s1)
     \<and> switch_to_order2 l n orders oid s = (Inr (), s1)"
proof -
  obtain o' where o': "orders oid = Some o'"
    using assms(1) by (cases "orders oid") (simp_all add: order_pools_def)
  show ?thesis
  proof (cases "ps = []")
    case True
    with assms(1) o' have t: "o_target o' = t" by (simp add: order_pools_def)
    obtain s1 where "swap_upstream2 l n t (Rented oid) s = (Inr (), s1)"
      using ok by (cases "swap_upstream2 l n t (Rented oid) s") simp
    with o' t show ?thesis
      by (intro exI [of _ s] exI [of _ s1]) (simp add: switch_to_order2_def switch_to2_def)
  next
    case False
    with assms(1) o' have ps: "ps = [o_target o']" "o_fallback o' = Some t"
      by (auto simp: order_pools_def Cons_eq_append_conv split: option.splits)
    have "down_pool l n (o_target o')" using assms(2) ps(1) by simp
    note p = swap_down_pool [OF this, of "Rented oid" s]
    have "fst (swap_upstream2 l n t (Rented oid) (counted s)) = Inr ()"
      using ok swap_result_recounted [OF recounted_counted] by simp
    then obtain s1 where "swap_upstream2 l n t (Rented oid) (counted s) = (Inr (), s1)"
      by (cases "swap_upstream2 l n t (Rented oid) (counted s)") simp
    with o' ps p show ?thesis
      by (intro exI [of _ "counted s"] exI [of _ s1]) (simp add: switch_to_order2_def switch_to2_def)
  qed
qed

lemma attempt_outage:
  assumes "v2_generation s = gen" "homed s" "outage l n orders s"
  shows "\<exists>e s1. supervise_attempt2 l n orders gen s = Some (Inl e, s1) \<and> recounted s s1"
proof (cases "v2_routing s")
  case Idle
  with assms swap_down_pool [of l n _ Idle s] show ?thesis
    by (auto simp: supervise_attempt2_def revert2_def homed_def outage_def pools_of_def)
next
  case (Rented oid)
  with assms switch_outage [of orders oid l n s] show ?thesis
    by (simp add: supervise_attempt2_def outage_def pools_of_def)
qed

lemma attempt_reaches:
  assumes "v2_generation s = gen" "homed s" "takes_rig l n orders s t"
  shows "\<exists>s0 s1. recounted s s0 \<and> swap_upstream2 l n t (v2_routing s) s0 = (Inr (), s1)
     \<and> supervise_attempt2 l n orders gen s = Some (Inr (), s1)"
proof -
  from assms(3) obtain ps qs where pq: "pools_of orders s = ps @ t # qs" "\<forall>p\<in>set ps. down_pool l n p"
    and ok: "fst (swap_upstream2 l n t (v2_routing s) s) = Inr ()"
    by (auto simp: takes_rig_def)
  show ?thesis
  proof (cases "v2_routing s")
    case Idle
    with pq(1) have d: "v2_default_target s = Some t"
      by (auto simp: pools_of_def Cons_eq_append_conv split: option.splits)
    obtain s1 where "swap_upstream2 l n t Idle s = (Inr (), s1)"
      using ok Idle by (cases "swap_upstream2 l n t Idle s") simp
    with Idle d assms(1) show ?thesis
      by (intro exI [of _ s] exI [of _ s1]) (simp add: supervise_attempt2_def revert2_def)
  next
    case (Rented oid)
    with switch_reaches [of orders oid ps t qs l n s] pq ok assms(1) show ?thesis
      by (simp add: supervise_attempt2_def pools_of_def)
  qed
qed

section \<open>The supervisor\<close>

lemma supervise_loop2_recovers:
  assumes "v2_generation s = gen" "homed s" "\<forall>n\<in>set bad. outage l n orders s" "takes_rig l good orders s t"
  shows "\<exists>s0 s1. recounted s s0 \<and> swap_upstream2 l good t (v2_routing s) s0 = (Inr (), s1)
     \<and> supervise_loop2 l (bad @ good # rest) orders gen (min (500 * 2 ^ i) 30000) s =
        (map (\<lambda>j. min (500 * 2 ^ j) 30000) [i..<i + length bad], force_reconnect2 s1)"
  using assms
proof (induction bad arbitrary: s i)
  case Nil
  with attempt_reaches [of s gen l good orders t] show ?case by fastforce
next
  case (Cons n bad)
  obtain e x where a: "supervise_attempt2 l n orders gen s = Some (Inl e, x)" and x: "recounted s x"
    using attempt_outage [of s gen l n orders] Cons.prems by auto
  note f = recounted_fields [OF x] pools_of_recounted [OF x]
  obtain s0 s1 where h: "recounted x s0" "swap_upstream2 l good t (v2_routing x) s0 = (Inr (), s1)"
    "supervise_loop2 l (bad @ good # rest) orders gen (min (500 * 2 ^ Suc i) 30000) x =
        (map (\<lambda>j. min (500 * 2 ^ j) 30000) [Suc i..<Suc i + length bad], force_reconnect2 s1)"
    using Cons.IH [of x "Suc i"] Cons.prems f by auto
  have "[i..<i + length (n # bad)] = i # [Suc i..<Suc i + length bad]"
    by (simp add: upt_conv_Cons del: upt_Suc)
  with a h(3) have "supervise_loop2 l ((n # bad) @ good # rest) orders gen (min (500 * 2 ^ i) 30000) s =
        (map (\<lambda>j. min (500 * 2 ^ j) 30000) [i..<i + length (n # bad)], force_reconnect2 s1)"
    by (simp only: append_Cons supervise_loop2.simps backoff_step option.case sum.case prod.case Let_def) simp
  with h(1,2) f(2) recounted_trans [OF x h(1)] show ?case by auto
qed



section \<open>The background retry\<close>

text \<open>A round in which the worker's order of that moment is another than the rig's and all of
  its pools are down.\<close>

fun fruitless :: "lib \<Rightarrow> sv2_session \<Rightarrow> net \<times> (string \<Rightarrow> order option) \<times> order option \<Rightarrow> bool" where
  "fruitless l s (n, orders, active) \<longleftrightarrow> (\<exists>o'. active = Some o' \<and> routing_order (v2_routing s) \<noteq> Some (o_id o')
     \<and> (\<forall>t\<in>set (order_pools orders (o_id o')). down_pool l n t))"

definition takes_order :: "lib \<Rightarrow> net \<Rightarrow> (string \<Rightarrow> order option) \<Rightarrow> string \<Rightarrow> sv2_session
    \<Rightarrow> upstream_target \<Rightarrow> bool" where
  "takes_order l n orders oid s t \<longleftrightarrow> (\<exists>ps qs. order_pools orders oid = ps @ t # qs
     \<and> (\<forall>p\<in>set ps. down_pool l n p) \<and> fst (swap_upstream2 l n t (Rented oid) s) = Inr ())"

lemma fruitless_round:
  assumes "fruitless l s r"
  obtains s1 where "retry_loop l (r # rounds) backoff s =
      (let (slept, s'') = retry_loop l rounds (backoff_next backoff) s1 in (backoff # slept, s''))"
    "recounted s s1"
proof -
  obtain n orders active where r: "r = (n, orders, active)" by (cases r)
  with assms obtain o' where o': "active = Some o'" "routing_order (v2_routing s) \<noteq> Some (o_id o')"
    "\<forall>t\<in>set (order_pools orders (o_id o')). down_pool l n t" by auto
  from switch_outage [OF o'(3), of s] obtain e s1 where
    "switch_to_order2 l n orders (o_id o') s = (Inl e, s1)" "recounted s s1" by blast
  with o' r that show thesis by (simp add: retry_round_def)
qed

lemma fruitless_recounted: "recounted s s1 \<Longrightarrow> fruitless l s1 r = fruitless l s r"
  by (cases r) (simp add: recounted_fields(2))

lemma retry_loop_outage:
  assumes "\<forall>r\<in>set bad. fruitless l s r"
  shows "\<exists>s0. recounted s s0 \<and> retry_loop l (bad @ rounds) (min (500 * 2 ^ i) 30000) s =
     (let (slept, s'') = retry_loop l rounds (min (500 * 2 ^ (i + length bad)) 30000) s0
      in (map (\<lambda>j. min (500 * 2 ^ j) 30000) [i..<i + length bad] @ slept, s''))"
  using assms
proof (induction bad arbitrary: s i)
  case Nil
  show ?case by (intro exI [of _ s]) simp
next
  case (Cons r bad)
  obtain s1 where a: "retry_loop l (r # bad @ rounds) (min (500 * 2 ^ i) 30000) s =
      (let (slept, s'') = retry_loop l (bad @ rounds) (backoff_next (min (500 * 2 ^ i) 30000)) s1
       in (min (500 * 2 ^ i) 30000 # slept, s''))" and x: "recounted s s1"
    using fruitless_round [of l s r] Cons.prems by auto
  obtain s0 where h: "recounted s1 s0" "retry_loop l (bad @ rounds) (min (500 * 2 ^ Suc i) 30000) s1 =
     (let (slept, s'') = retry_loop l rounds (min (500 * 2 ^ (Suc i + length bad)) 30000) s0
      in (map (\<lambda>j. min (500 * 2 ^ j) 30000) [Suc i..<Suc i + length bad] @ slept, s''))"
    using Cons.IH [of s1 "Suc i"] Cons.prems by (auto simp: fruitless_recounted [OF x])
  show ?case
    using recounted_trans [OF x h(1)] a h(2)
    by (intro exI [of _ s0]) (simp add: upt_conv_Cons backoff_step split_def Let_def del: upt_Suc)
qed

text \<open>C20: The background retry of a failed rental switch always ends with the rental or on its
  pool. While every order it finds active has only unreachable pools, whichever orders these
  are, the rounds change nothing and are spaced 500 ms doubled up to 30 s. The first round that
  finds no active order ends it with the rig and its miners as they were; the first one whose
  order has a pool that is up and takes the rig ends it on that pool, routed to that order, with
  all miners dropped once; and the next failed switch can start a new retry.\<close>

theorem rental_retry_ends:
  assumes "\<forall>r\<in>set bad. fruitless l s r"
    and "\<forall>o'. active = Some o' \<longrightarrow> routing_order (v2_routing s) \<noteq> Some (o_id o')
       \<and> takes_order l n orders (o_id o') s t"
  shows "\<exists>s'. retry_loop l (bad @ (n, orders, active) # rest) 500 s =
        (map (\<lambda>j. min (500 * 2 ^ j) 30000) [0..<Suc (length bad)], s') \<and> \<not> v2_retrying s'
     \<and> (case active of
          None \<Rightarrow> v2_routing s' = v2_routing s \<and> v2_target s' = v2_target s \<and> v2_members s' = v2_members s
            \<and> v2_channels s' = v2_channels s \<and> v2_generation s' = v2_generation s \<and> v2_epoch s' = v2_epoch s
        | Some o' \<Rightarrow> v2_routing s' = Rented (o_id o') \<and> v2_target s' = t
            \<and> t \<in> set (order_pools orders (o_id o')) \<and> v2_epoch s' = v2_epoch s + 1)"
proof -
  let ?b = "min (500 * 2 ^ length bad) (30000 :: nat)"
  obtain s0 where s0: "recounted s s0" and bad: "retry_loop l (bad @ (n, orders, active) # rest) 500 s =
     (let (slept, s'') = retry_loop l ((n, orders, active) # rest) ?b s0
      in (map (\<lambda>j. min (500 * 2 ^ j) 30000) [0..<length bad] @ slept, s''))"
    using retry_loop_outage [OF assms(1), of "(n, orders, active) # rest" 0] by auto
  note f = recounted_fields [OF s0]
  show ?thesis
  proof (cases active)
    case None
    with bad f show ?thesis by (simp add: retry_round_def split_def Let_def)
  next
    case (Some o')
    with assms(2) obtain ps qs where pq: "order_pools orders (o_id o') = ps @ t # qs" "\<forall>p\<in>set ps. down_pool l n p"
      and ok: "fst (swap_upstream2 l n t (Rented (o_id o')) s) = Inr ()"
      and r: "routing_order (v2_routing s) \<noteq> Some (o_id o')"
      by (auto simp: takes_order_def)
    obtain s2 s3 where w: "recounted s0 s2" "swap_upstream2 l n t (Rented (o_id o')) s2 = (Inr (), s3)"
      "switch_to_order2 l n orders (o_id o') s0 = (Inr (), s3)"
      using switch_reaches [OF pq, of s0] ok swap_result_recounted [OF s0] by auto
    have "v2_epoch s2 = v2_epoch s" using recounted_fields(6) [OF w(1)] f(6) by simp
    with Some bad r f w(3) pq(1) swap_success [OF w(2)] show ?thesis
      by (simp add: retry_round_def split_def Let_def force_reconnect2_def)
  qed
qed

theorem rental_retry_ends_witness:
  "let o' = demo_order\<lparr>o_target := sample_pool, o_fallback := None\<rparr>; orders = [''o1'' \<mapsto> o']
   in \<exists>s'. retry_loop sample_lib (replicate 2 (net_with [], orders, Some o') @ [(pool_net, orders, Some o')])
        500 bundled_rig = ([500, 1000, 2000], s') \<and> v2_routing s' = Rented ''o1'' \<and> v2_epoch s' = 1"
proof -
  let ?o = "demo_order\<lparr>o_target := sample_pool, o_fallback := None\<rparr>"
  have i: "o_id ?o = ''o1''" "order_pools [''o1'' \<mapsto> ?o] ''o1'' = [sample_pool]"
    "v2_routing bundled_rig = Idle" "v2_epoch bundled_rig = 0"
    "routing_order Idle = None"
    by (simp_all add: demo_order_def order_pools_def bundled_rig_def sv2_new_def routing_order_def)
  have "down_pool sample_lib (net_with []) sample_pool"
    by (simp add: down_pool_def probe_sv2_def net_with_def)
  moreover have "takes_order sample_lib pool_net [''o1'' \<mapsto> ?o] ''o1'' bundled_rig sample_pool"
    using pool_net_swaps [of "Rented ''o1''"] by (auto simp: takes_order_def i intro!: exI [of _ "[]"])
  ultimately show ?thesis
    using rental_retry_ends [of "replicate 2 (net_with [], [''o1'' \<mapsto> ?o], Some ?o)" sample_lib bundled_rig
        "Some ?o" pool_net "[''o1'' \<mapsto> ?o]" sample_pool "[]"] i
    by (auto simp: Let_def upt_rec)
qed

end
