(* ===== verification/Sv2_Connect.thy ===== *)
theory Sv2_Connect
  imports Sv2_World Sv2_Outage
begin

text \<open>
  Which pool a connecting SV2 miner lands on (\<open>handle_seller_miner_sv2\<close>, \<open>reconcile_routing\<close>): a
  rig that is attached to is aligned with the rental of that moment first, a fresh one opens on
  the rental its worker had when it was resolved.
\<close>

section \<open>Aligning a rig with the rental\<close>

lemma switch_order_success:
  assumes "switch_to_order2 l n orders oid s = (Inr u, s')"
  shows "v2_routing s' = Rented oid" "v2_target s' \<in> set (order_pools orders oid)"
proof -
  have "v2_routing s' = Rented oid \<and> v2_target s' \<in> set (order_pools orders oid)"
  proof (cases "orders oid")
    case None
    with assms show ?thesis by (simp add: switch_to_order2_def)
  next
    case (Some o')
    obtain r1 s1 where p: "swap_upstream2 l n (o_target o') (Rented oid) s = (r1, s1)" by fastforce
    show ?thesis
    proof (cases r1)
      case (Inr v)
      with p Some assms have "s' = s1" by (simp add: switch_to_order2_def switch_to2_def)
      with p Inr Some show ?thesis
        using swap_success(3,4) [of l n "o_target o'" "Rented oid" s s1] by (simp add: order_pools_def)
    next
      case (Inl err)
      with p Some assms obtain fb where fb: "o_fallback o' = Some fb"
        "swap_upstream2 l n fb (Rented oid) s1 = (Inr u, s')"
        by (auto simp: switch_to_order2_def switch_to2_def split: option.splits)
      with Some show ?thesis
        using swap_success(3,4) [of l n fb "Rented oid" s1 s'] by (simp add: order_pools_def)
    qed
  qed
  then show "v2_routing s' = Rented oid" "v2_target s' \<in> set (order_pools orders oid)" by blast+
qed

text \<open>A rented rig is aligned or its retry runs; an idle one is aligned, or its miners are told to
  reconnect because the seller has no pool, or the seller's pool did not take it.\<close>

definition aligned :: "order option \<Rightarrow> sv2_session \<Rightarrow> bool" where
  "aligned desired s \<longleftrightarrow> routing_order (v2_routing s) = map_option o_id desired"

lemma aligned_routing:
  "aligned desired s \<longleftrightarrow> v2_routing s = (case desired of Some o' \<Rightarrow> Rented (o_id o') | None \<Rightarrow> Idle)"
  by (cases desired; cases "v2_routing s") (auto simp: aligned_def routing_order_def)

lemma reconcile_outcome:
  assumes s'_def: "s' = reconcile_routing l n orders desired s"
  shows "aligned desired s' \<or> (desired \<noteq> None \<and> v2_retrying s')
    \<or> (desired = None \<and> v2_epoch s' = v2_epoch s + 1)
    \<or> (desired = None \<and> (\<exists>err. fst (revert2 l n s) = Inl err))"
proof (cases desired)
  case (Some o')
  show ?thesis
  proof (cases "routing_order (v2_routing s) = Some (o_id o')")
    case True
    with Some show ?thesis by (simp add: s'_def reconcile_routing_def aligned_def)
  next
    case False
    obtain res s1 where w: "switch_to_order2 l n orders (o_id o') s = (res, s1)" by fastforce
    show ?thesis
    proof (cases res)
      case (Inl err)
      with w False Some show ?thesis by (simp add: s'_def reconcile_routing_def spawn_switch_retry_def)
    next
      case (Inr u)
      with w False Some switch_order_success(1) [of l n orders "o_id o'" s u s1] show ?thesis
        by (simp add: s'_def reconcile_routing_def aligned_def routing_order_def)
    qed
  qed
next
  case None
  show ?thesis
  proof (cases "routing_order (v2_routing s) = None")
    case True
    with None show ?thesis by (simp add: s'_def reconcile_routing_def aligned_def)
  next
    case False
    then have s': "s' = snd (revert2 l n s)" using None by (simp add: s'_def reconcile_routing_def)
    show ?thesis
    proof (cases "v2_default_target s")
      case d: None
      with s' None show ?thesis by (simp add: revert2_def force_reconnect2_def)
    next
      case d: (Some t)
      obtain res s1 where w: "swap_upstream2 l n t Idle s = (res, s1)" by fastforce
      with d s' None swap_success(4) [of l n t Idle s s1] show ?thesis
        by (cases res) (simp_all add: revert2_def aligned_def routing_order_def)
    qed
  qed
qed

section \<open>Joining\<close>

lemma send_keeps_member [simp]:
  "(map_of (v2_members (send_member m f s)) k = None) = (map_of (v2_members s) k = None)"
  by (simp add: send_member_def map_of_update split: option.split)

lemma send_keeps_flags [simp]:
  "v2_retrying (send_member m f s) = v2_retrying s" "v2_epoch (send_member m f s) = v2_epoch s"
  by (simp_all add: send_member_def split: option.split)

lemma attach_member_joins:
  assumes "attach_member sp s = (Some m, s')"
  shows "map_of (v2_members s') m \<noteq> None" "v2_routing s' = v2_routing s" "v2_retrying s' = v2_retrying s"
    "v2_epoch s' = v2_epoch s" "v2_target s' = v2_target s"
  using assms
  by (auto simp: attach_member_def add_member_def request_open_def send_upstream_def Let_def map_of_update
      split: if_splits option.splits)

lemma initial_joins:
  assumes "connect_and_install_initial l n t sp worker r m s = (res, s')"
  shows "(map_of (v2_members s') m = None) = (map_of (v2_members s) m = None)"
    "res = Inr u \<Longrightarrow> v2_routing s' = r \<and> v2_target s' = t"
    "v2_retrying s' = v2_retrying s" "v2_epoch s' = v2_epoch s"
  using assms
  by (auto simp: connect_and_install_initial_def install_sv2_initial_def install_sv1_translate_initial_def
      install_active_def send_upstream_def Let_def split: sum.splits option.splits prod.splits if_splits)

lemma first_upstream_joins:
  assumes "first_upstream l n active t sp worker r m s = (Inr u, s')"
  shows "(map_of (v2_members s') m = None) = (map_of (v2_members s) m = None)"
    "v2_routing s' = r" "v2_target s' = t \<or> Option.bind active o_fallback = Some (v2_target s')"
    "v2_retrying s' = v2_retrying s" "v2_epoch s' = v2_epoch s"
proof -
  obtain res s1 where i: "connect_and_install_initial l n t sp worker r m s = (res, s1)" by fastforce
  note j = initial_joins [OF i]
  have "(map_of (v2_members s') m = None) = (map_of (v2_members s) m = None) \<and> v2_routing s' = r
      \<and> (v2_target s' = t \<or> Option.bind active o_fallback = Some (v2_target s'))
      \<and> v2_retrying s' = v2_retrying s \<and> v2_epoch s' = v2_epoch s"
  proof (cases res)
    case (Inr v)
    with assms i have "s' = s1" by (simp add: first_upstream_def)
    with j Inr show ?thesis by simp
  next
    case (Inl err)
    with assms i obtain fb where fb: "Option.bind active o_fallback = Some fb"
      "connect_and_install_initial l n fb sp worker r m s1 = (Inr u, s')"
      by (auto simp: first_upstream_def split: option.splits)
    with initial_joins [OF fb(2)] j show ?thesis by simp
  qed
  then show "(map_of (v2_members s') m = None) = (map_of (v2_members s) m = None)"
    "v2_routing s' = r" "v2_target s' = t \<or> Option.bind active o_fallback = Some (v2_target s')"
    "v2_retrying s' = v2_retrying s" "v2_epoch s' = v2_epoch s" by blast+
qed

lemma attach_lands:
  assumes "attach_to_rig e worker sp h w = (Some c, w')"
  shows "cn_handle c = h \<and> (\<exists>s s'. map_of (x_sessions w) h = Some s \<and> map_of (x_sessions w') h = Some s'
    \<and> map_of (v2_members s') (cn_member c) \<noteq> None
    \<and> (aligned (active_order e worker) s' \<or> (active_order e worker \<noteq> None \<and> v2_retrying s')
       \<or> (active_order e worker = None \<and> v2_epoch s' = cn_seen c + 1)
       \<or> (active_order e worker = None \<and> (\<exists>err. fst (revert2 (e_lib e) (e_net e) s) = Inl err))))"
proof -
  obtain s where s: "map_of (x_sessions w) h = Some s"
    using assms by (auto simp: attach_to_rig_def split: option.splits)
  let ?r = "reconcile_routing (e_lib e) (e_net e) (orders_of e) (active_order e worker) s"
  obtain m s' where a: "attach_member sp ?r = (Some m, s')" and c: "c = \<lparr>cn_handle = h, cn_member = m, cn_seen = v2_epoch s\<rparr>"
    and w': "w' = put_session h s' w"
    using assms s by (auto simp: attach_to_rig_def Let_def split: prod.splits)
  note j = attach_member_joins [OF a]
  have "aligned d s' = aligned d ?r" for d by (simp add: aligned_def j)
  with reconcile_outcome [of ?r, OF refl] j s show ?thesis
    by (simp add: c w' put_session_def map_of_update)
qed

lemma fresh_lands:
  assumes "fresh_rig e worker sp active idle target r w = (Inr c, w')"
  shows "\<exists>s'. map_of (x_sessions w') (cn_handle c) = Some s' \<and> map_of (v2_members s') (cn_member c) \<noteq> None
    \<and> v2_routing s' = r \<and> (v2_target s' = target \<or> Option.bind active o_fallback = Some (v2_target s'))
    \<and> \<not> v2_retrying s' \<and> v2_epoch s' = cn_seen c"
proof -
  let ?s0 = "snd (add_member (sv2_new worker target r idle))"
  let ?m = "fst (add_member (sv2_new worker target r idle))"
  obtain u s1 where f: "first_upstream (e_lib e) (e_net e) active target sp worker r ?m ?s0 = (Inr u, s1)"
    using assms by (auto simp: fresh_rig_def Let_def split: prod.splits sum.splits)
  have c: "cn_handle c = x_next w" "cn_member c = ?m" "cn_seen c = v2_epoch ?s0"
    and w': "map_of (x_sessions w') (x_next w) = Some (s1\<lparr>v2_supervised := True\<rparr>)"
    using assms f by (auto simp: fresh_rig_def Let_def split_def put_session_def insert_if_absent_def map_of_update)
  have "map_of (v2_members ?s0) ?m \<noteq> None" "\<not> v2_retrying ?s0"
    by (simp_all add: add_member_def sv2_new_def map_of_update)
  with first_upstream_joins [OF f] show ?thesis by (simp add: c w')
qed

section \<open>Where a miner lands\<close>

lemma connect_lands:
  assumes "connect_miner2 e e2 mo w = (Inr c, w')" and "worker = mo_worker mo"
  shows "(active_order e worker \<noteq> None \<or> default_pool (e_db e) (e_sellers e) worker \<noteq> None)
    \<and> (\<exists>s'. map_of (x_sessions w') (cn_handle c) = Some s' \<and> map_of (v2_members s') (cn_member c) \<noteq> None
      \<and> ((rig_get worker w = Some (cn_handle c)
            \<and> (case active_order e2 worker of
                 Some o' \<Rightarrow> v2_routing s' = Rented (o_id o') \<or> v2_retrying s'
               | None \<Rightarrow> v2_routing s' = Idle \<or> v2_epoch s' = cn_seen c + 1
                   \<or> (\<exists>s err. map_of (x_sessions w) (cn_handle c) = Some s
                        \<and> fst (revert2 (e_lib e2) (e_net e2) s) = Inl err)))
         \<or> (case active_order e worker of
               Some o' \<Rightarrow> v2_routing s' = Rented (o_id o')
                 \<and> (v2_target s' = o_target o' \<or> o_fallback o' = Some (v2_target s'))
             | None \<Rightarrow> v2_routing s' = Idle
                 \<and> default_pool (e_db e) (e_sellers e) worker = Some (v2_target s'))))"
proof (cases "case rig_get worker w of None \<Rightarrow> (None, w) | Some h \<Rightarrow> attach_to_rig e2 worker (mo_spec mo) h w")
  case (Pair a w1)
  let ?idle = "default_pool (e_db e) (e_sellers e) worker"
  obtain target r where tr: "(case active_order e worker of Some o' \<Rightarrow> Some (o_target o', Rented (o_id o'))
      | None \<Rightarrow> map_option (\<lambda>t. (t, Idle)) ?idle) = Some (target, r)"
    using assms by (auto simp: connect_miner2_def Let_def split: option.splits)
  have rest: "(case a of Some c1 \<Rightarrow> (Inr c1, w1)
      | None \<Rightarrow> fresh_rig e2 worker (mo_spec mo) (active_order e worker) ?idle target r w1) = (Inr c, w')"
    using assms(1) unfolding connect_miner2_def Let_def assms(2) [symmetric] tr by (simp add: Pair)
  have known: "active_order e worker \<noteq> None \<or> ?idle \<noteq> None" using tr by (auto split: option.splits)
  show ?thesis
  proof (cases a)
    case (Some c1)
    with Pair rest obtain h where h: "rig_get worker w = Some h" "attach_to_rig e2 worker (mo_spec mo) h w = (Some c, w')"
      by (auto split: option.splits)
    from attach_lands [OF h(2)] obtain s s' where s: "cn_handle c = h" "map_of (x_sessions w) h = Some s"
      and s': "map_of (x_sessions w') h = Some s'" "map_of (v2_members s') (cn_member c) \<noteq> None"
      and out: "aligned (active_order e2 worker) s' \<or> (active_order e2 worker \<noteq> None \<and> v2_retrying s')
       \<or> (active_order e2 worker = None \<and> v2_epoch s' = cn_seen c + 1)
       \<or> (active_order e2 worker = None \<and> (\<exists>err. fst (revert2 (e_lib e2) (e_net e2) s) = Inl err))"
      by blast
    have "case active_order e2 worker of
            Some o' \<Rightarrow> v2_routing s' = Rented (o_id o') \<or> v2_retrying s'
          | None \<Rightarrow> v2_routing s' = Idle \<or> v2_epoch s' = cn_seen c + 1
              \<or> (\<exists>s err. map_of (x_sessions w) (cn_handle c) = Some s \<and> fst (revert2 (e_lib e2) (e_net e2) s) = Inl err)"
      using out s by (auto simp: aligned_routing split: option.splits)
    with h(1) s s' known show ?thesis by blast
  next
    case None
    with rest fresh_lands [of e2 worker "mo_spec mo" "active_order e worker" ?idle target r w1 c w'] tr known
    show ?thesis by (auto split: option.splits)
  qed
qed



text \<open>The order a fresh rig opens on is not looked up again: one that is created after the worker
  was resolved, and announced before the rig is in the session registry, is not noticed. Whatever
  is active when the rig is built (\<open>e2\<close>), it is idle, no retry runs and no reconnect is pending.\<close>

lemma fresh_rig_misses_rental:
  assumes "rig_get (mo_worker mo) w = None" "active_order e (mo_worker mo) = None"
    and "connect_miner2 e e2 mo w = (Inr c, w')"
  shows "\<exists>s'. map_of (x_sessions w') (cn_handle c) = Some s' \<and> v2_routing s' = Idle
    \<and> \<not> v2_retrying s' \<and> v2_epoch s' = cn_seen c"
proof -
  obtain idle where "default_pool (e_db e) (e_sellers e) (mo_worker mo) = Some idle"
    using assms by (auto simp: connect_miner2_def Let_def split: option.splits)
  with assms have "fresh_rig e2 (mo_worker mo) (mo_spec mo) None (Some idle) idle Idle w = (Inr c, w')"
    by (simp add: connect_miner2_def Let_def)
  from fresh_lands [OF this] show ?thesis by blast
qed

end
