(* ===== verification/Billing_Props.thy ===== *)
theory Billing_Props
  imports Orders_Props
begin

text \<open>
  Properties of the order store over time: credited work is billed exactly once, an order
  that has ended never becomes active again, and a cancelled order frees its rig.
\<close>

section \<open>Billing\<close>

text \<open>What accounting may change of a row: its three counters.\<close>

definition with_counters :: "f64 \<Rightarrow> i64 \<Rightarrow> i64 \<Rightarrow> order_row \<Rightarrow> order_row" where
  "with_counters w a u r = r\<lparr>r_delivered_work := w, r_accepted_shares := a, r_submitted_shares := u\<rparr>"

lemma with_counters_id: "with_counters (r_delivered_work r) (r_accepted_shares r) (r_submitted_shares r) r = r"
  by (simp add: with_counters_def)

definition same_terms :: "order_row \<Rightarrow> order_row \<Rightarrow> bool" where
  "same_terms r r' \<longleftrightarrow> (\<exists>w a u. r' = with_counters w a u r)"

lemma same_terms_refl [simp]: "same_terms r r"
  unfolding same_terms_def using with_counters_id [of r] by metis

lemma with_counters_twice [simp]:
  "with_counters w a u (with_counters w' a' u' r) = with_counters w a u r"
  by (simp add: with_counters_def)

lemma into_order_with_counters:
  "into_order (with_counters w a u r) = (into_order r)\<lparr>o_delivered_work := w,
     o_accepted_shares := u64_of_i64 a, o_submitted_shares := u64_of_i64 u\<rparr>"
  by (simp add: into_order_def with_counters_def)

lemma same_terms_trans: "same_terms r r' \<Longrightarrow> same_terms r' r'' \<Longrightarrow> same_terms r r''"
  unfolding same_terms_def by (metis with_counters_twice)

lemma same_terms_apply_delta [simp]: "same_terms r (apply_delta oid d r)"
proof (cases "r_id r = oid")
  case True
  then have "apply_delta oid d r = with_counters (r_delivered_work r + wd_work d)
     (r_accepted_shares r + i64_of_u64 (wd_accepted d)) (r_submitted_shares r + i64_of_u64 (wd_submitted d)) r"
    by (simp add: apply_delta_def with_counters_def)
  then show ?thesis unfolding same_terms_def by blast
qed (simp add: apply_delta_other)

lemma same_terms_row_flush [simp]: "same_terms r (row_flush db ds r)"
  by (simp add: row_flush_def split: option.split)

lemma acct_step_row:
  assumes "store_inv s" "row_of s oid = Some r"
  shows "\<exists>r'. row_of (os.acct_step e s) oid = Some r' \<and> same_terms r r'"
  using assms by (cases e) (simp_all add: row_of_flush [OF store_invD(4)])

lemma acct_run_row:
  "store_inv s \<Longrightarrow> row_of s oid = Some r \<Longrightarrow>
   \<exists>r'. row_of (fold os.acct_step es s) oid = Some r' \<and> same_terms r r'"
proof (induction es arbitrary: s r)
  case Nil
  then show ?case by simp
next
  case (Cons e es)
  obtain r' where r': "row_of (os.acct_step e s) oid = Some r'" "same_terms r r'"
    using acct_step_row [OF Cons.prems] by blast
  from Cons.IH [OF os.acct_step_inv [OF Cons.prems(1)] r'(1)] obtain r'' where
    "row_of (fold os.acct_step es (os.acct_step e s)) oid = Some r''" "same_terms r' r''" by blast
  with same_terms_trans [OF r'(2)] show ?case unfolding fold_simps by blast
qed

lemma ledger_row:
  "row_of s oid = Some r \<Longrightarrow> ledger_work s oid = r_delivered_work r + wd_work (pending_delta s oid)"
  "row_of s oid = Some r \<Longrightarrow>
     ledger_accepted s oid = u64_of_i64 (r_accepted_shares r) + wd_accepted (pending_delta s oid)"
  "row_of s oid = Some r \<Longrightarrow>
     ledger_submitted s oid = u64_of_i64 (r_submitted_shares r) + wd_submitted (pending_delta s oid)"
  by (simp_all add: ledger_work_def ledger_accepted_def ledger_submitted_def)

lemma credited_snoc_flush [simp]:
  "credited_work oid (es @ [Flush]) = credited_work oid es"
  "credited_shares oid (es @ [Flush]) = credited_shares oid es"
  "submitted_total oid (es @ [Flush]) = submitted_total oid es"
  by (induction es rule: credited_work.induct) simp_all

text \<open>The ledger of the store, read through the API after a flush.\<close>

lemma flush_reads_back:
  assumes "store_reach s" and "get_order db_up oid s = Some o'"
  shows "get_order db_up oid (flush db_up (fold os.acct_step es s)) = Some (o'\<lparr>
      o_delivered_work := o_delivered_work o' + wd_work (pending_delta s oid) + credited_work oid es,
      o_accepted_shares := o_accepted_shares o' + wd_accepted (pending_delta s oid) + credited_shares oid es,
      o_submitted_shares := o_submitted_shares o' + wd_submitted (pending_delta s oid) + submitted_total oid es\<rparr>)"
proof -
  let ?run = "fold os.acct_step (es @ [Flush]) s"
  note inv = store_reach_inv [OF assms(1)]
  obtain r where r: "row_of s oid = Some r" "o' = into_order r"
    using assms(2) by (auto simp: get_order_row)
  with inv have ok: "store_inv s \<and> order_known s oid" by (simp add: order_known_def)
  obtain w a u where run: "row_of ?run oid = Some (with_counters w a u r)"
    using acct_run_row [OF inv r(1), of "es @ [Flush]"] unfolding same_terms_def by blast
  have "pending_delta ?run oid = zero_delta" by simp
  then have "w = r_delivered_work r + wd_work (pending_delta s oid) + credited_work oid es"
    "u64_of_i64 a = u64_of_i64 (r_accepted_shares r) + wd_accepted (pending_delta s oid) + credited_shares oid es"
    "u64_of_i64 u = u64_of_i64 (r_submitted_shares r) + wd_submitted (pending_delta s oid) + submitted_total oid es"
    using os.work.run_val [OF ok, of "es @ [Flush]"] os.accepted.run_val [OF ok, of "es @ [Flush]"]
      os.submitted.run_val [OF ok, of "es @ [Flush]"] ledger_row [OF r(1)] ledger_row [OF run]
    by (simp_all add: with_counters_def)
  with run r(2) show ?thesis
    by (simp add: get_order_row into_order_with_counters)
qed

text \<open>Billing is exact. However credits, submits and flushes of any orders interleave, after
  the next flush the order reads back with what it had, plus the buffer at the start, plus
  every credit addressed to it: the work exactly, the share counts modulo $2^{64}$, nothing
  lost, nothing billed twice, nothing from another order; and no other field has changed.\<close>

theorem billing_conserved:
  assumes "store_reach s" and "get_order db_up oid s = Some o'"
  shows "get_order db_up oid (flush db_up (fold os.acct_step es s)) = Some (o'\<lparr>
      o_delivered_work := o_delivered_work o' + wd_work (pending_delta s oid) + credited_work oid es,
      o_accepted_shares := o_accepted_shares o' + wd_accepted (pending_delta s oid) + credited_shares oid es,
      o_submitted_shares := o_submitted_shares o' + wd_submitted (pending_delta s oid) + submitted_total oid es\<rparr>)"
  by (rule flush_reads_back [OF assms])

theorem billing_conserved_witness:
  "\<exists>o'. get_order db_up (order_key 1000 0) demo_store = Some o' \<and>
     get_order db_up (order_key 1000 0) (flush db_up (fold os.acct_step
        [Submit (order_key 1000 0) 2, Credit (order_key 1000 0) 5 1, Flush, Credit ''x'' 9 1,
         Credit (order_key 1000 0) 7 1] demo_store))
     = Some (o'\<lparr>o_delivered_work := 12, o_accepted_shares := 2, o_submitted_shares := 2\<rparr>)"
proof -
  have k: "order_key 1000 0 \<noteq> ''x''" by (simp add: order_key_def)
  obtain r where r: "os_rows demo_store = [r]" "r_id r = order_key 1000 0" "r_delivered_work r = 0"
    "r_accepted_shares r = 0" "r_submitted_shares r = 0"
    by (simp add: demo_store_def create_def order_store_new_def Let_def)
  have p: "os_pending demo_store = []"
    by (simp add: demo_store_def create_def order_store_new_def Let_def)
  have g: "get_order db_up (order_key 1000 0) demo_store = Some (into_order r)"
    by (simp add: get_order_def r)
  show ?thesis
    using billing_conserved [OF demo_store_reach g, of "[Submit (order_key 1000 0) 2,
        Credit (order_key 1000 0) 5 1, Flush, Credit ''x'' 9 1, Credit (order_key 1000 0) 7 1]"] k r p g
    by (simp add: pending_delta_def)
qed

section \<open>Ended orders\<close>

text \<open>One operation of the store, with whatever outcome its statements have.\<close>

inductive store_step :: "order_store \<Rightarrow> order_store \<Rightarrow> bool" where
  step_create: "store_step s (snd (create db now w t fb until p b s))"
| step_work: "store_step s (add_work oid x n s)"
| step_submitted: "store_step s (add_submitted oid n s)"
| step_flush: "store_step s (flush db s)"
| step_cancel: "store_step s (snd (cancel db now oid s))"
| step_expire: "store_step s (snd (take_expired db now s))"
| step_restart: "store_step s (order_store_new (os_rows s) seq)"

inductive_cases store_stepE: "store_step s s'"

lemma store_step_reach: "store_step s s' \<Longrightarrow> store_reach s \<Longrightarrow> store_reach s'"
  by (induction rule: store_step.induct) (blast intro: store_reach.intros)+

lemma map_rows_dead:
  assumes "row_of s oid = Some r" "\<not> row_active r" "os_rows s' = map f (os_rows s)"
    and "\<And>x. r_id (f x) = r_id x" "\<And>x. row_active (f x) \<Longrightarrow> row_active x"
  shows "\<exists>r'. row_of s' oid = Some r' \<and> \<not> row_active r'"
  using assms by (auto simp: row_of_def find_map_id)

lemma find_append_Some: "List.find P xs = Some x \<Longrightarrow> List.find P (xs @ ys) = Some x"
  by (induction xs) (auto split: if_splits)

lemma store_step_dead:
  assumes "store_step s s'" "store_reach s" "row_of s oid = Some r" "\<not> row_active r"
  shows "\<exists>r'. row_of s' oid = Some r' \<and> \<not> row_active r'"
  using assms(1)
proof cases
  case (step_create db now w t fb until p b)
  then have "\<exists>new. os_rows s' = os_rows s @ new"
    by (auto simp: create_def Let_def)
  with assms(3,4) show ?thesis by (auto simp: row_of_def find_append_Some)
next
  case (step_flush db)
  then have "os_rows s' = map (row_flush db (os_pending s)) (os_rows s)"
    using store_reach_inv [OF assms(2)] by (simp add: flush_rows store_inv_def)
  then show ?thesis by (rule map_rows_dead [OF assms(3,4)]) simp_all
next
  case (step_cancel db now i)
  then have "os_rows s' = os_rows s \<or> os_rows s' = map (set_status i ''cancelled'' now) (os_rows s)"
    by (auto simp: cancel_def split: option.split)
  then show ?thesis
  proof
    assume "os_rows s' = map (set_status i ''cancelled'' now) (os_rows s)"
    then show ?thesis
      by (rule map_rows_dead [OF assms(3,4)]) (auto simp: set_status_def row_active_def split: if_splits)
  qed (use assms(3,4) in \<open>simp add: row_of_def\<close>)
next
  case (step_expire db now)
  then have "os_rows s' = map (row_expire db now
      (if db SelectActive then map into_order (filter row_active (os_rows s)) else [])) (os_rows s)"
    by (simp add: take_expired_eq Let_def)
  then show ?thesis
    by (rule map_rows_dead [OF assms(3,4)]) (auto simp: row_expire_def row_active_def split: if_splits)
qed (use assms(3,4) in \<open>auto simp: add_work_def add_submitted_def order_store_new_def row_of_def Let_def\<close>)

lemma store_steps_dead:
  "store_step\<^sup>*\<^sup>* s s' \<Longrightarrow> store_reach s \<Longrightarrow> row_of s oid = Some r \<Longrightarrow> \<not> row_active r \<Longrightarrow>
   store_reach s' \<and> (\<exists>r'. row_of s' oid = Some r' \<and> \<not> row_active r')"
proof (induction rule: rtranclp_induct)
  case base
  then show ?case by blast
next
  case (step y z)
  then obtain r' where "store_reach y" "row_of y oid = Some r'" "\<not> row_active r'" by blast
  with step.hyps(2) show ?case using store_step_dead store_step_reach by blast
qed

text \<open>C34: An order that is over stays over: once an order reads as ended or cancelled, no
  sequence of operations, restarts, clock readings or failing statements makes it active
  again or loses it, so it is never resumed for any worker.\<close>

theorem ended_order_stays_ended:
  assumes "store_reach s" and "get_order db_up oid s = Some o'" and "o_status o' \<noteq> Active"
    and "store_step\<^sup>*\<^sup>* s s'"
  shows "(\<exists>n. get_order db_up oid s' = Some n \<and> o_status n \<noteq> Active)
    \<and> (\<forall>db w now n. active_for_worker db w now s' = Some n \<longrightarrow> o_id n \<noteq> oid)"
proof -
  obtain r where r: "row_of s oid = Some r" "o' = into_order r"
    using assms(2) by (auto simp: get_order_row)
  have r_dead: "\<not> row_active r"
    using assms(3) r(2) by (auto simp: row_active_def)
  from store_steps_dead [OF assms(4,1) r(1) r_dead] obtain r' where
    s': "store_reach s'" "row_of s' oid = Some r'" "\<not> row_active r'" by blast
  note inv = store_reach_inv [OF s'(1)]
  from row_of_Some [OF s'(2)] have m: "r' \<in> set (os_rows s')" "r_id r' = oid" by auto
  with store_invD(3) [OF inv] s'(3) have "from_db (r_status r') \<noteq> Active"
    using status_ok_active by blast
  with s'(2) have "\<exists>n. get_order db_up oid s' = Some n \<and> o_status n \<noteq> Active"
    by (simp add: get_order_row)
  moreover have "o_id n \<noteq> oid" if a: "active_for_worker db w now s' = Some n" for db w now n
  proof
    assume "o_id n = oid"
    with active_for_worker_Some_live(3) [OF inv a] obtain x where
      "x \<in> set (os_rows s')" "row_active x" "r_id x = oid" by auto
    with row_of_mem [OF store_invD(1) [OF inv]] s'(2,3) show False by auto
  qed
  ultimately show ?thesis by blast
qed

lemma demo_order_read:
  "\<exists>o'. get_order db_up (order_key 1000 0) demo_store = Some o' \<and> o_status o' = Active
     \<and> o_worker o' = ''w1'' \<and> o_id o' = order_key 1000 0"
  by (simp add: demo_store_def create_def order_store_new_def get_order_def Let_def)

lemma cancel_read:
  assumes "get_order db oid s = Some o'" "cancel db now oid s = (r, s')"
  shows "r = Some (o'\<lparr>o_status := Cancelled, o_ended_ms := now\<rparr>)"
    "db (UpdateCancelled oid) \<Longrightarrow> get_order db oid s' = r"
    "\<not> db (UpdateCancelled oid) \<Longrightarrow> s' = s"
    "oid2 \<noteq> oid \<Longrightarrow> get_order db oid2 s' = get_order db oid2 s"
proof -
  from assms(1) have db: "db SelectOrder" by (auto simp: get_order_def split: if_splits)
  with assms(1) obtain x where x: "row_of s oid = Some x" "o' = into_order x"
    by (auto simp: get_order_row)
  show "r = Some (o'\<lparr>o_status := Cancelled, o_ended_ms := now\<rparr>)"
    "\<not> db (UpdateCancelled oid) \<Longrightarrow> s' = s"
    using assms by (auto simp: cancel_def)
  have rows: "row_of s' i = (if db (UpdateCancelled oid)
      then map_option (set_status oid ''cancelled'' now) (row_of s i) else row_of s i)" for i
    using assms by (auto simp: cancel_def row_of_def find_map_id)
  show "db (UpdateCancelled oid) \<Longrightarrow> get_order db oid s' = r"
    using x row_of_Some [OF x(1)] \<open>r = _\<close> rows [of oid] db
    by (simp add: get_order_row set_status_def into_order_def)
  show "oid2 \<noteq> oid \<Longrightarrow> get_order db oid2 s' = get_order db oid2 s"
    using rows [of oid2] db row_of_Some [of s oid2]
    by (cases "row_of s oid2") (simp_all add: get_order_row set_status_other)
qed

theorem ended_order_stays_ended_witness:
  "\<exists>s n. store_reach s \<and> get_order db_up (order_key 1000 0) s = Some n \<and> o_status n = Cancelled
    \<and> (\<forall>now m. active_for_worker db_up ''w1'' now (order_store_new (os_rows s) 7) = Some m
        \<longrightarrow> o_id m \<noteq> order_key 1000 0)"
proof -
  let ?k = "order_key 1000 0"
  obtain o' where o': "get_order db_up ?k demo_store = Some o'" using demo_order_read by blast
  obtain r s where c: "cancel db_up 2000 ?k demo_store = (r, s)" by fastforce
  have s: "store_reach s" using store_reach.cancel [OF demo_store_reach, of db_up 2000 ?k] c by simp
  have g: "get_order db_up ?k s = Some (o'\<lparr>o_status := Cancelled, o_ended_ms := 2000\<rparr>)"
    using cancel_read(1,2) [OF o' c] by simp
  have "store_step\<^sup>*\<^sup>* s (order_store_new (os_rows s) 7)" by (rule r_into_rtranclp) (rule step_restart)
  from ended_order_stays_ended [OF s g _ this] have "\<forall>db w now n.
      active_for_worker db w now (order_store_new (os_rows s) 7) = Some n \<longrightarrow> o_id n \<noteq> ?k" by simp
  with s g show ?thesis by (intro exI conjI) auto
qed

section \<open>Cancelling\<close>

text \<open>Cancelling an order that exists answers with it cancelled now, touches no other order,
  and frees its rig: if the order was active, no clock reading lets any order of that worker
  count as active any more. When the statement fails the answer is the same but the store
  is unchanged.\<close>

theorem cancel_outcome:
  assumes "store_reach s" and "get_order db oid s = Some o'" and "cancel db now oid s = (r, s')"
  shows "r = Some (o'\<lparr>o_status := Cancelled, o_ended_ms := now\<rparr>)
    \<and> (if db (UpdateCancelled oid)
       then get_order db oid s' = r
         \<and> (o_status o' = Active \<longrightarrow> (\<forall>db2 now2. active_for_worker db2 (o_worker o') now2 s' = None))
       else s' = s)
    \<and> (\<forall>i. i \<noteq> oid \<longrightarrow> get_order db i s' = get_order db i s)"
proof -
  note c = cancel_read [OF assms(2,3)]
  have "active_for_worker db2 (o_worker o') now2 s' = None"
    if up: "db (UpdateCancelled oid)" and act: "o_status o' = Active" for db2 now2
  proof (rule ccontr)
    assume "active_for_worker db2 (o_worker o') now2 s' \<noteq> None"
    then obtain n where n: "active_for_worker db2 (o_worker o') now2 s' = Some n" by blast
    have s': "store_reach s'" "os_rows s' = map (set_status oid ''cancelled'' now) (os_rows s)"
      using store_reach.cancel [OF assms(1), of db now oid] assms(2,3) up by (auto simp: cancel_def)
    note inv' = store_reach_inv [OF s'(1)] and inv = store_reach_inv [OF assms(1)]
    from active_for_worker_Some_live(1,3) [OF inv' n] s'(2) obtain x where
      x: "x \<in> set (os_rows s)" "row_active (set_status oid ''cancelled'' now x)" "r_worker x = o_worker o'"
      by auto
    then have x': "r_id x \<noteq> oid" "row_active x"
      by (auto simp: set_status_def row_active_def split: if_splits)
    from assms(2) obtain y where y: "row_of s oid = Some y" "o' = into_order y"
      by (auto simp: get_order_def row_of_def split: if_splits)
    with row_of_Some have my: "y \<in> set (os_rows s)" "r_id y = oid" by auto
    then have "row_active y" using act y(2) status_ok_active store_invD(3) [OF inv] by auto
    have "inj_on r_worker (set (filter row_active (os_rows s)))"
      using store_invD(2) [OF inv] by (simp add: active_workers_def distinct_map)
    with x x' my \<open>row_active y\<close> y(2) have "x = y" by (auto simp: inj_on_def)
    with x' my show False by simp
  qed
  with c show ?thesis by simp
qed

theorem cancel_outcome_witness:
  "\<exists>s' r. cancel db_up 2000 (order_key 1000 0) demo_store = (r, s')
     \<and> get_order db_up (order_key 1000 0) s' = r \<and> active_for_worker db_up ''w1'' 2000 s' = None"
proof -
  obtain o' where o': "get_order db_up (order_key 1000 0) demo_store = Some o'"
    "o_status o' = Active" "o_worker o' = ''w1''" using demo_order_read by blast
  obtain r s' where c: "cancel db_up 2000 (order_key 1000 0) demo_store = (r, s')" by fastforce
  from cancel_outcome [OF demo_store_reach o'(1) c] o'(2,3) c show ?thesis by auto
qed

section \<open>A failed flush\<close>

text \<open>The buffer is emptied before the statements run, so a statement that fails loses the
  work it carried.\<close>

lemma failed_flush_loses_work:
  assumes "store_reach s" "order_known s oid" "\<not> db (UpdateWork oid)"
  shows "ledger_work (flush db s) oid = ledger_work s oid - wd_work (pending_delta s oid)"
proof -
  obtain r where r: "row_of s oid = Some r" using assms(2) by (auto simp: order_known_def)
  with row_of_Some have "r_id r = oid" by blast
  with assms(3) have "row_flush db (os_pending s) r = r"
    by (simp add: row_flush_def split: option.split)
  with r row_of_flush [OF store_invD(4) [OF store_reach_inv [OF assms(1)]], of db oid]
  show ?thesis by (simp add: ledger_work_def)
qed

end
