(* ===== verification/Rental_Cycle.thy ===== *)
theory Rental_Cycle
  imports Sv2_Connect Billing_Props Api_Reach
begin

text \<open>
  The life of a rental across the components: the API stores the order (\<open>src/api.rs\<close>), the order
  store lives on (\<open>src/orders.rs\<close>), and the relays ask it where a miner that connects belongs
  (\<open>src/proto/relay.rs\<close>, \<open>src/proto/sv2/relay.rs\<close>). What was agreed at the create holds until the
  order is over, whatever happens in between.
\<close>

section \<open>The deal\<close>

text \<open>What the parties agreed on: everything of an order but its status and its counters.\<close>

definition same_deal :: "order \<Rightarrow> order \<Rightarrow> bool" where
  "same_deal o1 o2 \<longleftrightarrow> o_id o2 = o_id o1 \<and> o_worker o2 = o_worker o1 \<and> o_target o2 = o_target o1
     \<and> o_fallback o2 = o_fallback o1 \<and> o_created_ms o2 = o_created_ms o1
     \<and> o_until_ms o2 = o_until_ms o1 \<and> o_price_per_th_day o2 = o_price_per_th_day o1
     \<and> o_budget o2 = o_budget o1"

lemma same_deal_refl [simp]: "same_deal o' o'"
  by (simp add: same_deal_def)

lemma same_deal_trans: "same_deal a b \<Longrightarrow> same_deal b c \<Longrightarrow> same_deal a c"
  by (simp add: same_deal_def)

lemma row_ops_deal [simp]:
  "same_deal (into_order r) (into_order (set_status oid st now r))"
  "same_deal (into_order r) (into_order (row_flush db ds r))"
  "same_deal (into_order r) (into_order (row_expire db now os r))"
  by (simp_all add: same_deal_def into_order_def set_status_def row_flush_def apply_delta_def row_expire_def
      split: option.split)

lemma map_rows_deal:
  assumes "row_of s oid = Some r" "os_rows s' = map f (os_rows s)"
    and "\<And>x. r_id (f x) = r_id x" "\<And>x. same_deal (into_order x) (into_order (f x))"
  shows "\<exists>r'. row_of s' oid = Some r' \<and> same_deal (into_order r) (into_order r')"
  using assms by (auto simp: row_of_def find_map_id)

lemma store_step_deal:
  assumes "store_step s s'" "store_inv s" "row_of s oid = Some r"
  shows "\<exists>r'. row_of s' oid = Some r' \<and> same_deal (into_order r) (into_order r')"
  using assms(1)
proof cases
  case (step_create db now w t fb until p b)
  then have "\<exists>new. os_rows s' = os_rows s @ new"
    by (auto simp: create_def Let_def)
  with assms(3) show ?thesis by (auto simp: row_of_def find_append_Some)
next
  case (step_flush db)
  then have "os_rows s' = map (row_flush db (os_pending s)) (os_rows s)"
    using assms(2) by (simp add: flush_rows store_inv_def)
  then show ?thesis by (rule map_rows_deal [OF assms(3)]) simp_all
next
  case (step_cancel db now i)
  then have "os_rows s' = os_rows s \<or> os_rows s' = map (set_status i ''cancelled'' now) (os_rows s)"
    by (auto simp: cancel_def split: option.split)
  then show ?thesis
  proof
    assume "os_rows s' = map (set_status i ''cancelled'' now) (os_rows s)"
    then show ?thesis by (rule map_rows_deal [OF assms(3)]) simp_all
  qed (use assms(3) in \<open>simp add: row_of_def\<close>)
next
  case (step_expire db now)
  then have "os_rows s' = map (row_expire db now
      (if db SelectActive then map into_order (filter row_active (os_rows s)) else [])) (os_rows s)"
    by (simp add: take_expired_eq Let_def)
  then show ?thesis by (rule map_rows_deal [OF assms(3)]) simp_all
qed (use assms(3) in \<open>auto simp: add_work_def add_submitted_def order_store_new_def row_of_def Let_def\<close>)

lemma store_steps_deal:
  "store_step\<^sup>*\<^sup>* s s' \<Longrightarrow> store_reach s \<Longrightarrow> row_of s oid = Some r \<Longrightarrow>
   store_reach s' \<and> (\<exists>r'. row_of s' oid = Some r' \<and> same_deal (into_order r) (into_order r'))"
proof (induction rule: rtranclp_induct)
  case base
  then show ?case by fastforce
next
  case (step y z)
  then obtain r' where r': "store_reach y" "row_of y oid = Some r'" "same_deal (into_order r) (into_order r')"
    by blast
  from store_step_deal [OF step.hyps(2) store_reach_inv [OF r'(1)] r'(2)] obtain r'' where
    "row_of z oid = Some r''" "same_deal (into_order r') (into_order r'')" by blast
  with r' store_step_reach [OF step.hyps(2) r'(1)] same_deal_trans show ?case by blast
qed

section \<open>Where the deal takes a miner\<close>

text \<open>The active order of the worker is the rental as long as that one is live.\<close>

lemma rental_active:
  assumes "store_inv (e_orders e)" "e_db e = db_up" "row_of (e_orders e) oid = Some r"
  shows "is_live (e_now_ms e) (into_order r) \<Longrightarrow> active_order e (r_worker r) = Some (into_order r)"
    "\<not> is_live (e_now_ms e) (into_order r) \<Longrightarrow> active_order e worker = Some p \<Longrightarrow> o_id p \<noteq> oid"
proof -
  note m = row_of_Some [OF assms(3)]
  show "active_order e (r_worker r) = Some (into_order r)" if "is_live (e_now_ms e) (into_order r)"
    unfolding active_order_def
    by (rule active_for_worker_found) (use assms that m in auto)
  assume dead: "\<not> is_live (e_now_ms e) (into_order r)" and a: "active_order e worker = Some p"
  note live = active_for_worker_Some_live [OF assms(1) a [unfolded active_order_def]]
  from live(3) obtain x where x: "x \<in> set (os_rows (e_orders e))" "p = into_order x" by blast
  show "o_id p \<noteq> oid"
  proof
    assume "o_id p = oid"
    with row_of_mem [OF store_invD(1) [OF assms(1)] x(1)] x(2) assms(3) have "x = r" by simp
    with live(2) dead x(2) show False by simp
  qed
qed

text \<open>An SV1 miner of the worker, once authorized: on the rental's pool and billed to it, or in the
  grace window on its way there, or left where it was because the pool did not answer.\<close>

definition sv1_on_rental :: "sv1_env \<Rightarrow> order \<Rightarrow> sv1_world \<Rightarrow> sv1_world \<Rightarrow> bool" where
  "sv1_on_rental e o' w w' \<longleftrightarrow>
     (s1_routing (w_session w') = Rented (o_id o') \<and> s1_target (w_session w') = o_target o')
     \<or> w_phase w' = Grace (o_worker o') (Some o') (o_target o')
     \<or> (s1_target (w_session w') = s1_target (w_session w) \<and> (\<exists>err. connect_raw (e_lib e) (e_net e) (o_target o')
          (s1_configure (w_session w)) (upstream_worker (t_user (o_target o')) (o_worker o')) = Inl err))"

lemma authorize_on_rental:
  assumes "active_order e (o_worker o') = Some o'"
  shows "sv1_on_rental e o' w (on_authorize e m (o_worker o') w)"
proof -
  let ?w = "admit m (o_worker o') w" and ?c = "connect_raw (e_lib e) (e_net e) (o_target o')
      (s1_configure (w_session w)) (upstream_worker (t_user (o_target o')) (o_worker o'))"
  have a: "on_authorize e m (o_worker o') w = route_admitted e (o_worker o') (Some o') (o_target o') ?w"
    using assms by (simp add: on_authorize_def authorize_resolved_def active_order_def Let_def)
  have w: "s1_target (w_session ?w) = s1_target (w_session w)" "s1_capable (w_session ?w) = s1_capable (w_session w)"
    "s1_configure (w_session ?w) = s1_configure (w_session w)" "s1_label (w_session ?w) = o_worker o'"
    by (simp_all add: admit_def reply_miner_def with_session_def send_miner_def)
  consider (there) "s1_target (w_session w) = o_target o'"
    | (grace) "s1_target (w_session w) \<noteq> o_target o'" "\<not> s1_capable (w_session w)"
    | (live) "s1_target (w_session w) \<noteq> o_target o'" "s1_capable (w_session w)" by blast
  then show ?thesis
  proof cases
    case there
    then show ?thesis
      by (simp add: a route_admitted_def w with_session_def attach_order_def sv1_on_rental_def)
  next
    case grace
    then show ?thesis by (simp add: a route_admitted_def w sv1_on_rental_def)
  next
    case live
    then show ?thesis
      by (cases ?c) (simp_all add: a route_admitted_def w finish_grace_def with_session_def live_switch_def
          switch_to_def swap_upstream_cases relay_simps sv1_on_rental_def)
  qed
qed

text \<open>An SV2 miner of the worker: in the rig that is live, routed to the rental or with its retry
  running, or in a fresh one on the rental's pool or its fallback.\<close>

definition sv2_on_rental :: "order \<Rightarrow> bool \<Rightarrow> sv2_session \<Rightarrow> bool" where
  "sv2_on_rental o' fresh s \<longleftrightarrow> v2_routing s = Rented (o_id o') \<and>
       (fresh \<longrightarrow> v2_target s = o_target o' \<or> o_fallback o' = Some (v2_target s))
     \<or> \<not> fresh \<and> v2_retrying s"

lemma connect_on_rental:
  assumes "connect_miner2 e e mo w = (Inr c, w')" "mo_worker mo = o_worker o'"
    and "active_order e (o_worker o') = Some o'"
  shows "\<exists>s. map_of (x_sessions w') (cn_handle c) = Some s \<and> map_of (v2_members s) (cn_member c) \<noteq> None
    \<and> sv2_on_rental o' (rig_get (o_worker o') w \<noteq> Some (cn_handle c)) s"
  using connect_lands [OF assms(1) assms(2) [symmetric]] assms(3) by (auto simp: sv2_on_rental_def)

lemma connect_off_rental:
  assumes "connect_miner2 e e mo w = (Inr c, w')" "rig_get (mo_worker mo) w \<noteq> Some (cn_handle c)"
    and "\<And>p. active_order e (mo_worker mo) = Some p \<Longrightarrow> o_id p \<noteq> oid"
  shows "\<exists>s. map_of (x_sessions w') (cn_handle c) = Some s \<and> v2_routing s \<noteq> Rented oid"
  using connect_lands [OF assms(1) refl] assms(2,3) by (auto split: option.splits)

text \<open>The order a request has created is there at any later time, on the terms of the request.\<close>

lemma created_order_lives:
  assumes "create_order e req s = (Inr j, s1, rc)" and "ae_db e = db_up" and "store_reach (as_orders s)"
    and "store_step\<^sup>*\<^sup>* (as_orders s1) st"
  obtains r where "store_reach st" "row_of st (r_id r) = Some r" "o_worker (into_order r) = oq_worker req"
    "t_user (o_target (into_order r)) = oq_user req" "o_until_ms (into_order r) = oq_until_ms req"
    "o_price_per_th_day (into_order r) = oq_price_per_th_day req" "o_budget (into_order r) = oq_budget req"
proof -
  from assms(1) obtain t fb o1 os1 where chk: "create_order_check e req s = Inr (t, fb)"
    and cr: "create db_up (ae_clk e 3) (oq_worker req) t fb (oq_until_ms req)
       (oq_price_per_th_day req) (oq_budget req) (as_orders s) = (Inr o1, os1)"
    and s1: "as_orders s1 = os1"
    by (rule create_orderD) (simp add: assms(2))
  have reach: "store_reach os1"
    using store_reach.create [OF assms(3), of db_up "ae_clk e 3"] cr by (metis snd_conv)
  obtain r1 where r1: "os_rows os1 = os_rows (as_orders s) @ [r1]" "into_order r1 = o1" "r_id r1 = o_id o1"
    using create_Inr(3) [OF cr] by blast
  have "r1 \<in> set (os_rows os1)" by (simp add: r1(1))
  from row_of_mem [OF store_invD(1) [OF store_reach_inv [OF reach]] this]
  have row1: "row_of os1 (r_id r1) = Some r1" .
  obtain r where r: "store_reach st" "row_of st (r_id r1) = Some r" "same_deal o1 (into_order r)"
    using store_steps_deal [OF assms(4) [unfolded s1] reach row1] r1(2) by blast
  show thesis
    using that [of r] r row_of_Some [OF r(2)] create_Inr(1) [OF cr] create_order_checkD(1) [OF chk]
    by (simp add: same_deal_def del: into_order_simps)
qed


definition later_env :: "lib \<Rightarrow> order_store \<Rightarrow> sv1_env" where
  "later_env l os = (demo_conn_env l 7)\<lparr>e_orders := os, e_now_ms := 1500\<rparr>"


end
