(* ===== verification/Farm.thy ===== *)
theory Farm
  imports Session_Model Accounting
begin

text \<open>
  What a session that measures work owes to the order store, as an interface: every session keeps
  books (its routing and its counters), and whatever a step bills to an order is exactly what the
  step adds to the books of a session rented to that order when the step begins. The lemmas of the
  locale are about a farm of such sessions: any interleaving of their steps, with the ticks of
  the flush task in between, and with rigs rented, freed and re-rented on the way.
\<close>

section \<open>Books\<close>

record books =
  bk_routing :: routing
  bk_work :: f64
  bk_accepted :: u64
  bk_submitted :: u64

text \<open>The share of a difference that belongs to an order.\<close>

definition if_rented :: "string \<Rightarrow> books \<Rightarrow> 'a \<Rightarrow> 'a::zero" where
  "if_rented oid b x = (if bk_routing b = Rented oid then x else 0)"

definition booked :: "books \<Rightarrow> acct_event list \<Rightarrow> books \<Rightarrow> bool" where
  "booked b ev b' \<longleftrightarrow> (\<forall>oid. credited_work oid ev = if_rented oid b (bk_work b' - bk_work b)
          \<and> credited_shares oid ev = if_rented oid b (bk_accepted b' - bk_accepted b)
          \<and> submitted_total oid ev = if_rented oid b (bk_submitted b' - bk_submitted b))"

lemma bookedD:
  assumes "booked b ev b'"
  shows "credited_work oid ev = if_rented oid b (bk_work b' - bk_work b)"
    "credited_shares oid ev = if_rented oid b (bk_accepted b' - bk_accepted b)"
    "submitted_total oid ev = if_rented oid b (bk_submitted b' - bk_submitted b)"
  using assms unfolding booked_def by blast+

definition same_meters :: "books \<Rightarrow> books \<Rightarrow> bool" where
  "same_meters b b' \<longleftrightarrow> bk_work b' = bk_work b \<and> bk_accepted b' = bk_accepted b
     \<and> bk_submitted b' = bk_submitted b"

lemma same_meters_refl [simp]: "same_meters b b"
  by (simp add: same_meters_def)

lemma same_meters_trans [trans]: "same_meters a b \<Longrightarrow> same_meters b c \<Longrightarrow> same_meters a c"
  by (simp add: same_meters_def)

lemma booked_silent: "same_meters b b' \<Longrightarrow> booked b [] b'"
  by (simp add: booked_def if_rented_def same_meters_def)

lemma booked_refl [simp]: "booked b [] b"
  by (simp add: booked_silent)

lemma credited_append:
  "credited_work oid (xs @ ys) = credited_work oid xs + credited_work oid ys"
  "credited_shares oid (xs @ ys) = credited_shares oid xs + credited_shares oid ys"
  "submitted_total oid (xs @ ys) = submitted_total oid xs + submitted_total oid ys"
  by (induction xs rule: credited_work.induct) (simp_all add: ac_simps)

section \<open>What a run earns an order\<close>

text \<open>The entries of a run are the books of the acting session before and after each input; what
  the run earns an order is what the entries of its rented sessions add.\<close>

primrec earned :: "string \<Rightarrow> (books \<Rightarrow> 'a::ab_group_add) \<Rightarrow> (books \<times> books) list \<Rightarrow> 'a" where
  "earned oid v [] = 0"
| "earned oid v (e # es) = if_rented oid (fst e) (v (snd e) - v (fst e)) + earned oid v es"

definition keeps_routing :: "books \<times> books \<Rightarrow> bool" where
  "keeps_routing e \<longleftrightarrow> bk_routing (snd e) = bk_routing (fst e)"

text \<open>What the sessions of a set have added to their books from one moment to another.\<close>

definition owed :: "string \<Rightarrow> (books \<Rightarrow> 'a::ab_group_add) \<Rightarrow> nat set \<Rightarrow> (nat \<Rightarrow> books)
    \<Rightarrow> (nat \<Rightarrow> books) \<Rightarrow> 'a" where
  "owed oid v H b b' = (\<Sum>h\<in>H. if_rented oid (b h) (v (b' h) - v (b h)))"

lemma owed_same: "owed oid v H b b = 0"
  by (simp add: owed_def if_rented_def)

lemma owed_first:
  assumes "finite H" "h \<in> H" and "keeps_routing (b h, c)"
  shows "owed oid v H b b' =
    if_rented oid (b h) (v c - v (b h)) + owed oid v H (b(h := c)) b'"
proof -
  have "owed oid v (H - {h}) (b(h := c)) b' = owed oid v (H - {h}) b b'"
    unfolding owed_def by (rule sum.cong) auto
  moreover have "owed oid v H x b' = if_rented oid (x h) (v (b' h) - v (x h)) + owed oid v (H - {h}) x b'" for x
    unfolding owed_def by (rule sum.remove [OF assms(1,2)])
  moreover have "if_rented oid c (v (b' h) - v c) + if_rented oid (b h) (v c - v (b h))
      = if_rented oid (b h) (v (b' h) - v (b h))"
    using assms(3) by (simp add: keeps_routing_def if_rented_def)
  ultimately show ?thesis by (simp add: ac_simps)
qed

section \<open>A farm of sessions\<close>

text \<open>One input of the proxy: an input of a session, or a tick of the flush task.\<close>

datatype 'e farm_event = Input nat 'e | FlushTick

text \<open>The sessions a run has inputs for.\<close>

fun handles :: "'e farm_event list \<Rightarrow> nat set" where
  "handles [] = {}"
| "handles (FlushTick # es) = handles es"
| "handles (Input h e # es) = insert h (handles es)"

lemma finite_handles: "finite (handles es)"
  by (induction es rule: handles.induct) simp_all

locale billed_session =
  fixes step :: "'e \<Rightarrow> 's \<Rightarrow> 's \<times> acct_event list"
    and books_of :: "'s \<Rightarrow> books"
  assumes step_booked: "booked (books_of s) (snd (step e s)) (books_of (fst (step e s)))"
begin

fun farm :: "'e farm_event list \<Rightarrow> (nat \<Rightarrow> 's) \<Rightarrow> (nat \<Rightarrow> 's) \<times> acct_event list" where
  "farm [] f = (f, [])"
| "farm (FlushTick # es) f = (let (f', ev) = farm es f in (f', Flush # ev))"
| "farm (Input h e # es) f =
     (let (s, ev) = step e (f h); (f', ev') = farm es (f(h := s)) in (f', ev @ ev'))"

text \<open>The entries of a run.\<close>

fun entries :: "'e farm_event list \<Rightarrow> (nat \<Rightarrow> 's) \<Rightarrow> (books \<times> books) list" where
  "entries [] f = []"
| "entries (FlushTick # es) f = entries es f"
| "entries (Input h e # es) f =
     (let s = fst (step e (f h)) in (books_of (f h), books_of s) # entries es (f(h := s)))"

lemma farm_Input:
  "fst (farm (Input h e # es) f) = fst (farm es (f(h := fst (step e (f h)))))"
  "snd (farm (Input h e # es) f) = snd (step e (f h)) @ snd (farm es (f(h := fst (step e (f h)))))"
  by (simp_all add: split_def Let_def)

lemma farm_FlushTick:
  "fst (farm (FlushTick # es) f) = fst (farm es f)"
  "snd (farm (FlushTick # es) f) = Flush # snd (farm es f)"
  by (simp_all add: split_def Let_def)

lemma entries_Input:
  "entries (Input h e # es) f =
     (books_of (f h), books_of (fst (step e (f h)))) # entries es (f(h := fst (step e (f h))))"
  by (simp add: Let_def)

lemmas farm_steps = farm_Input farm_FlushTick entries_Input entries.simps(2)

text \<open>What a run bills an order is what its entries earn it.\<close>

lemma farm_earned:
  "credited_work oid (snd (farm es f)) = earned oid bk_work (entries es f)
   \<and> credited_shares oid (snd (farm es f)) = earned oid bk_accepted (entries es f)
   \<and> submitted_total oid (snd (farm es f)) = earned oid bk_submitted (entries es f)"
proof (induction es arbitrary: f)
  case Nil
  then show ?case by simp
next
  case (Cons x es)
  show ?case
  proof (cases x)
    case (Input h e)
    note IH = Cons.IH [of "f(h := fst (step e (f h)))"]
    show ?thesis
      unfolding Input farm_steps credited_append earned.simps fst_conv snd_conv
      by (simp only: IH bookedD [OF step_booked] simp_thms)
  next
    case FlushTick
    with Cons.IH show ?thesis by (simp only: farm_steps credited_work.simps credited_shares.simps
        submitted_total.simps simp_thms)
  qed
qed

text \<open>While no session is re-routed, that is what the rented sessions have added in the end to
  what they had in the beginning.\<close>

lemma earned_owed:
  assumes "finite H" and "handles es \<subseteq> H" and "\<forall>e\<in>set (entries es f). keeps_routing e"
  shows "earned oid v (entries es f) = owed oid v H (books_of \<circ> f) (books_of \<circ> fst (farm es f))"
  using assms(2,3)
proof (induction es arbitrary: f)
  case Nil
  then show ?case by (simp add: owed_same)
next
  case (Cons x es)
  show ?case
  proof (cases x)
    case (Input h e)
    let ?s = "fst (step e (f h))"
    have rest: "books_of \<circ> f(h := ?s) = (books_of \<circ> f)(h := books_of ?s)" by auto
    from Cons.prems Input have h: "h \<in> H" "handles es \<subseteq> H" "keeps_routing ((books_of \<circ> f) h, books_of ?s)"
      "\<forall>e\<in>set (entries es (f(h := ?s))). keeps_routing e"
      by (simp_all only: farm_steps handles.simps) simp_all
    show ?thesis
      unfolding Input farm_steps rest earned.simps Cons.IH [OF h(2,4)]
      unfolding owed_first [OF assms(1) h(1), of "books_of \<circ> f", OF h(3)]
      by (simp only: fst_conv snd_conv comp_apply)
  next
    case FlushTick
    from Cons.prems FlushTick have "handles es \<subseteq> H" "\<forall>e\<in>set (entries es f). keeps_routing e"
      by (simp_all only: farm_steps handles.simps)
    with Cons.IH show ?thesis unfolding FlushTick farm_steps by blast
  qed
qed

end

end
