(* ===== verification/Sv1_Trans_Props.thy ===== *)
theory Sv1_Trans_Props
  imports Sv1_Auth Sample_Lib
begin

text \<open>
  Properties of the translated SV1 session: the queue between the writer that turns the
  miner's submits into SV2 shares and the reader that turns the pool's acknowledgements back
  into answers.
\<close>

definition queue_ok :: "sv2_up_state \<Rightarrow> bool" where
  "queue_ok st \<longleftrightarrow> sorted_wrt (<) (map fst (us_pending_submits st))
     \<and> (\<forall>(seq, i)\<in>set (us_pending_submits st). seq < us_next_seq st)"

lemma queue_ok_new: "queue_ok (up_state_new cid)"
  by (simp add: queue_ok_def up_state_new_def)

lemma translate_submit_cases:
  "snd (translate_submit l wl st) = st \<or> (\<exists>i. snd (translate_submit l wl st) =
     st\<lparr>us_next_seq := us_next_seq st + 1, us_pending_submits := us_pending_submits st @ [(us_next_seq st, i)]\<rparr>)"
  by (auto simp: translate_submit_def Let_def split: option.split)

lemma queue_ok_submit:
  assumes "queue_ok st" and "us_next_seq st \<noteq> - 1"
  shows "queue_ok (snd (translate_submit l wl st))"
proof -
  have lt: "us_next_seq st < us_next_seq st + 1"
    using assms(2) by (simp add: not_le [symmetric] inc_less_eq_iff)
  from translate_submit_cases [of l wl st] show ?thesis
  proof
    assume "snd (translate_submit l wl st) = st"
    with assms(1) show ?thesis by simp
  next
    assume "\<exists>i. snd (translate_submit l wl st) = st\<lparr>us_next_seq := us_next_seq st + 1,
        us_pending_submits := us_pending_submits st @ [(us_next_seq st, i)]\<rparr>"
    with assms(1) lt less_trans [OF _ lt] show ?thesis
      by (fastforce simp: queue_ok_def sorted_wrt_append)
  qed
qed

lemma drain_acked_sorted:
  assumes "sorted_wrt (<) (map fst q)"
  shows "drain_acked q k = (map snd (filter (\<lambda>(seq, _). seq \<le> k) q), filter (\<lambda>(seq, _). \<not> seq \<le> k) q)"
  using assms
proof (induction q)
  case Nil
  show ?case by simp
next
  case (Cons e q)
  obtain seq i where e: "e = (seq, i)" by (cases e)
  show ?case
  proof (cases "seq \<le> k")
    case True
    with Cons e show ?thesis by simp
  next
    case False
    with Cons.prems e have "\<forall>(x, j)\<in>set q. \<not> x \<le> k" by fastforce
    then have "filter (\<lambda>(x, _). x \<le> k) q = []" "filter (\<lambda>(x, _). \<not> x \<le> k) q = q"
      by (auto simp: filter_empty_conv filter_id_conv)
    with False e show ?thesis by simp
  qed
qed

definition submit_answer :: "json option \<Rightarrow> bool \<Rightarrow> line" where
  "submit_answer i ok = to_line (rpc_reply i (JBool ok)
     (if ok then JNull else JArr [JInt 20, JStr ''rejected'', JNull]))"

lemma fold_submit_result:
  "s1_to_miner (fold (\<lambda>i. send_submit_result i ok) ids s) = s1_to_miner s @ map (\<lambda>i. submit_answer i ok) ids"
  "s1_delivered_work (fold (\<lambda>i. send_submit_result i ok) ids s) = s1_delivered_work s"
  by (induction ids arbitrary: s) (simp_all add: send_submit_result_def submit_answer_def relay_simps)

lemma credit_translate_fields:
  "s1_to_miner (fst (credit_translate_accepted now gen count s)) = s1_to_miner s"
  by (simp add: credit_translate_accepted_def note_low_ratio_def Let_def)

lemma credit_translate_work:
  assumes "gen = s1_generation s" and "0 < s1_difficulty s * f64_of_u32 count"
  shows "s1_delivered_work (fst (credit_translate_accepted now gen count s))
      = s1_delivered_work s + s1_difficulty s * f64_of_u32 count"
    "snd (credit_translate_accepted now gen count s) = (case s1_routing s of
       Rented oid \<Rightarrow> [Credit oid (s1_difficulty s * f64_of_u32 count) (u64_of_u32 count)] | Idle \<Rightarrow> [])"
  using assms by (simp_all add: credit_translate_accepted_def Let_def relay_simps)


definition demo_reader :: translate_reader where
  "demo_reader = \<lparr>tr_prev = None, tr_job = None, tr_state = (up_state_new 3)\<lparr>us_next_seq := 3,
     us_pending_submits := [(0, Some (JInt 10)), (1, Some (JInt 11)), (2, Some (JInt 12))]\<rparr>\<rparr>"


end
