(* ===== verification/Sv1_Quiet.thy ===== *)
theory Sv1_Quiet
  imports Sv1_Conn
begin

text \<open>
  What the messages of an SV1 session leave alone, as an interface, the counterpart of \<open>Sv2_Quiet\<close>. A
  view of a session that does not look at its queues, its pending submits and what it has learnt
  from its miner and its pool is untouched by what they say; where shares are credited or
  submitted, what holds of that one step holds of the whole message.
\<close>

locale sv1_view =
  fixes view :: "sv1_session \<Rightarrow> 'a"
  assumes view_queues: "view (s\<lparr>s1_to_miner := q\<rparr>) = view s" "view (s\<lparr>s1_to_up := q\<rparr>) = view s"
      "view (s\<lparr>s1_prelude := q\<rparr>) = view s"
    and view_shares: "view (s\<lparr>s1_pending := p\<rparr>) = view s" "view (s\<lparr>s1_difficulty := d\<rparr>) = view s"
      "view (s\<lparr>s1_low_logged := b\<rparr>) = view s"
    and view_miner: "view (s\<lparr>s1_configure := c\<rparr>) = view s" "view (s\<lparr>s1_capable := b\<rparr>) = view s"
      "view (s\<lparr>s1_subscribed := b\<rparr>) = view s" "view (s\<lparr>s1_label := x\<rparr>) = view s"
    and view_ids: "view (s\<lparr>s1_generation_counter := n\<rparr>) = view s"
      "view (s\<lparr>s1_default_target := t\<rparr>) = view s"
begin

lemma view_send: "view (send_miner wl s) = view s" "view (send_up wl s) = view s"
  by (simp_all add: send_miner_def send_up_def view_queues)

lemma view_fold_send: "view (fold send_miner ls s) = view s"
  by (induction ls arbitrary: s) (simp_all add: view_send)

lemma view_stash: "view (send_or_stash g wl s) = view s"
  by (simp add: send_or_stash_def view_send view_queues)

lemma view_notify: "view (emit_translate_notify l g p j c s) = view s"
  by (simp add: emit_translate_notify_def view_stash split: option.split)

lemma view_results:
  "view (send_submit_result i b s) = view s"
  "view (fold (\<lambda>i. send_submit_result i b) ids s) = view s"
proof -
  show r: "view (send_submit_result i b s) = view s" for i s
    by (simp add: send_submit_result_def view_send)
  show "view (fold (\<lambda>i. send_submit_result i b) ids s) = view s"
    by (induction ids arbitrary: s) (simp_all add: r)
qed

lemma view_low: "view (note_low_ratio s) = view s"
  by (simp add: note_low_ratio_def view_shares)

lemma view_swap_begin: "view (snd (swap_begin s)) = view s"
  by (simp add: swap_begin_def Let_def view_ids)

text \<open>The messages the connection answers itself.\<close>

lemma view_reply: "view (w_session (reply_miner m w)) = view (w_session w)"
  by (simp add: reply_miner_def with_session_def view_send)

lemma view_handshake:
  "view (w_session (on_configure m w)) = view (w_session w)"
  "view (w_session (on_subscribe m w)) = view (w_session w)"
  "view (w_session (on_extranonce_subscribe m w)) = view (w_session w)"
  "view (w_session (admit m worker w)) = view (w_session w)"
proof -
  show "view (w_session (on_configure m w)) = view (w_session w)"
    by (simp add: on_configure_def view_reply) (simp add: with_session_def view_miner)
  show "view (w_session (on_subscribe m w)) = view (w_session w)"
    by (simp add: on_subscribe_def Let_def view_fold_send view_queues view_miner view_send)
  show "view (w_session (on_extranonce_subscribe m w)) = view (w_session w)"
    by (simp add: on_extranonce_subscribe_def view_reply) (simp add: with_session_def view_miner)
  show "view (w_session (admit m worker w)) = view (w_session w)"
    by (simp add: admit_def Let_def view_reply) (simp add: with_session_def view_miner)
qed

end

text \<open>Shares: \<open>ok s ev s'\<close> is what a step from \<open>s\<close> to \<open>s'\<close> that reports \<open>ev\<close> promises.\<close>

locale sv1_meter = sv1_view view for view :: "sv1_session \<Rightarrow> 'a" +
  fixes ok :: "'a \<Rightarrow> acct_event list \<Rightarrow> 'a \<Rightarrow> bool"
  assumes ok_silent: "ok a [] a"
    and ok_credit: "ok (view s) (case s1_routing s of Rented oid \<Rightarrow> [Credit oid x n] | Idle \<Rightarrow> [])
      (view (s\<lparr>s1_hashrate := h, s1_delivered_work := s1_delivered_work s + x, s1_accepted := s1_accepted s + n\<rparr>))"
    and ok_submit: "ok (view s) (case s1_routing s of Rented oid \<Rightarrow> [Submit oid 1] | Idle \<Rightarrow> [])
      (view (s\<lparr>s1_submitted := s1_submitted s + 1\<rparr>))"
begin

lemma response_metered:
  "ok (view s) (snd (on_upstream_response now g m s)) (view (fst (on_upstream_response now g m s)))"
proof -
  have "ok (view s) (snd (credit_one now d (s\<lparr>s1_pending := p\<rparr>))) (view (fst (credit_one now d (s\<lparr>s1_pending := p\<rparr>))))" for d p
    using ok_credit [of "s\<lparr>s1_pending := p\<rparr>" d 1] by (simp add: credit_one_def view_shares)
  then show ?thesis
    by (auto simp: on_upstream_response_def Let_def view_low view_shares ok_silent split_def split: option.split)
qed

lemma line_metered: "ok (view s) (snd (upstream_line now g wl s)) (view (fst (upstream_line now g wl s)))"
proof (cases "rpc_parse wl")
  case None
  then show ?thesis by (simp add: upstream_line_def ok_silent)
next
  case (Some m)
  have "ok (view s) (snd (snd (on_upstream_msg now g m s))) (view (fst (snd (on_upstream_msg now g m s))))"
    using response_metered [of s now g m]
    by (auto simp: on_upstream_msg_def split_def Let_def view_shares ok_silent split: option.split)
  with Some show ?thesis
    by (auto simp: upstream_line_def view_send split: prod.split option.split)
qed

lemma miner_metered: "ok (view s) (snd (on_miner_msg m s)) (view (fst (on_miner_msg m s)))"
proof -
  have "ok (view s) (case s1_routing s of Rented oid \<Rightarrow> [Submit oid 1] | Idle \<Rightarrow> [])
     (view (s\<lparr>s1_pending := p, s1_submitted := s1_submitted s + 1\<rparr>))" for p
    using ok_submit [of "s\<lparr>s1_pending := p\<rparr>"] by (simp add: view_shares)
  then show ?thesis
    using ok_submit [of s]
    by (simp add: on_miner_msg_def Let_def view_send view_miner ok_silent)
qed

lemma forward_metered:
  "ok (view (w_session w)) (snd (forward_miner m w)) (view (w_session (fst (forward_miner m w))))"
  using miner_metered [of "w_session w" m] by (simp add: forward_miner_def split_def Let_def)

lemma translated_metered:
  "ok (view s) (snd (credit_translate_accepted now g n s)) (view (fst (credit_translate_accepted now g n s)))"
  using ok_credit [of s "s1_difficulty s * f64_of_u32 n" "u64_of_u32 n"]
  by (simp add: credit_translate_accepted_def Let_def view_low ok_silent)

lemma frame_metered:
  "ok (view (snd rs)) (snd (translate_frame l now g tf rs)) (view (snd (fst (translate_frame l now g tf rs))))"
proof -
  have c: "ok (view s) e (view s1)" if "credit_translate_accepted now g n s = (s1, e)" for n s s1 e
    using translated_metered [of s now g n] that by simp
  have d: "view s1 = view s" if "set_translate_difficulty g d s = (b, s1)" for d s b s1
    using that by (auto simp: set_translate_difficulty_def view_shares split: if_splits)
  have j: "view (snd (on_sv2_job l g j rs)) = view (snd rs)"
    "view (snd (on_sv2_prev_hash l g p rs)) = view (snd rs)" for j p
    by (simp_all add: on_sv2_job_def on_sv2_prev_hash_def Let_def view_notify split: option.split)
  show ?thesis
    by (auto simp: translate_frame_def Let_def j view_stash ok_silent view_results intro: c dest: d split: option.split prod.split)
qed

end

end
