(* ===== verification/Sv2_Quiet.thy ===== *)
theory Sv2_Quiet
  imports Sv2_Readers
begin

text \<open>
  What the messages of an SV2 rig leave alone, as an interface. A view of a session that does not
  look at its channels, members, opens, queues and counters of ids is untouched by everything a
  frame or a line makes the rig send; where shares are credited or submitted, what holds of that
  one step holds of the whole message.
\<close>

text \<open>What is sent, to members and to the pool, lies in queues.\<close>

locale sv2_sends =
  fixes view :: "sv2_session \<Rightarrow> 'a"
  assumes view_queues: "view (s\<lparr>v2_members := m\<rparr>) = view s" "view (s\<lparr>v2_to_up := q\<rparr>) = view s"
begin

lemma view_send:
  "view (send_member m f s) = view s" "view (send_built m g s) = view s"
  "view (send_upstream u s) = view s"
proof -
  show m: "view (send_member m f s) = view s" for f
    by (simp add: send_member_def view_queues split: option.split)
  show "view (send_built m g s) = view s" by (simp add: send_built_def m split: option.split)
  show "view (send_upstream u s) = view s" by (simp add: send_upstream_def view_queues)
qed

lemma view_fold: "(\<And>x y. view (F x y) = view y) \<Longrightarrow> view (fold F xs s) = view s"
  by (induction xs arbitrary: s) simp_all

lemma view_forward: "view (forward_down f up s) = view s"
  by (auto simp: forward_down_def Let_def view_send intro!: view_fold split: option.split prod.split)

lemma view_translate_send: "view (send_translate_frame g f s) = view s"
  by (simp add: send_translate_frame_def view_send split: list.split)

lemma view_repoint: "view (snd (finish_repoint ms rp ab s)) = view s"
proof -
  have s: "view (send_snapshot ms m f x) = view x" for ms m f x
    by (simp add: send_snapshot_def view_send)
  have "view (snd (repoint_all ms rp x)) = view x" for x
    by (induction ms rp x rule: repoint_all.induct) (simp_all add: s Let_def split: option.split)
  moreover have "view (notify_abandoned ms ab x) = view x" for x
    unfolding notify_abandoned_def by (rule view_fold) (simp add: s split: prod.split option.split)
  ultimately show ?thesis
    by (simp add: finish_repoint_def split: prod.split sum.split) (metis snd_conv)
qed

end

locale sv2_view = sv2_sends view for view :: "sv2_session \<Rightarrow> 'a" +
  assumes view_maps: "view (s\<lparr>v2_channels := c\<rparr>) = view s" "view (s\<lparr>v2_up_to_down := u\<rparr>) = view s"
      "view (s\<lparr>v2_group_down := g\<rparr>) = view s" "view (s\<lparr>v2_pending := p\<rparr>) = view s"
    and view_ids: "view (s\<lparr>v2_next_down_cid := d\<rparr>) = view s" "view (s\<lparr>v2_next_up_req := r\<rparr>) = view s"
      "view (s\<lparr>v2_next_member_id := i\<rparr>) = view s" "view (s\<lparr>v2_generation_counter := n\<rparr>) = view s"
begin

lemma view_target:
  "view (on_set_target l f up s) = view s" "view (set_translate_diff g down d s) = view s"
  by (simp_all add: on_set_target_def set_translate_diff_def view_maps split: option.split)

lemma view_open:
  "view (on_open_success l f s) = view s" "view (on_open_error l f s) = view s"
  "view (request_open m sp s) = view s"
proof -
  have g: "view (snd (map_group up e x)) = view x" for up e x
    by (simp add: map_group_def view_maps view_ids split: option.split)
  have "view (finish_open l info member sp x) = view x" for info member sp x
    using g [of "ci_group_channel_id info" "is_extended sp" "x\<lparr>v2_next_down_cid := v2_next_down_cid x + 1\<rparr>"]
    by (simp add: finish_open_def split_def Let_def register_channel_def view_maps view_ids view_send del: if_split)
  then show "view (on_open_success l f s) = view s"
    by (simp add: on_open_success_def view_maps split: option.split)
  show "view (on_open_error l f s) = view s"
    by (auto simp: on_open_error_def view_maps view_send intro!: view_fold split: option.split)
  show "view (request_open m sp s) = view s"
    by (simp add: request_open_def Let_def view_maps view_ids view_send split: option.split)
qed

lemma view_snapshot: "view (snd (swap_snapshot_of s)) = view s"
  by (simp add: swap_snapshot_of_def Let_def view_ids)

lemma view_members: "view (snd (attach_member sp s)) = view s" "view (snd (detach_member m s)) = view s"
proof -
  show "view (snd (attach_member sp s)) = view s"
    by (simp add: attach_member_def add_member_def split_def Let_def view_ids view_queues view_open)
  show "view (snd (detach_member m s)) = view s"
    by (simp add: detach_member_def Let_def view_maps view_queues view_send view_fold split: option.split)
qed

end

text \<open>Shares: \<open>ok s ev s'\<close> is what a step from \<open>s\<close> to \<open>s'\<close> that reports \<open>ev\<close> promises.\<close>

locale sv2_meter = sv2_view view for view :: "sv2_session \<Rightarrow> 'a" +
  fixes ok :: "'a \<Rightarrow> acct_event list \<Rightarrow> 'a \<Rightarrow> bool"
  assumes ok_silent: "ok a [] a"
    and ok_credit: "ok (view s) (snd (credit_shares now d n s)) (view (fst (credit_shares now d n s)))"
    and ok_submit: "ok (view s)
      (case v2_routing s of Rented oid \<Rightarrow> [Submit oid 1] | Idle \<Rightarrow> []) (view (s\<lparr>v2_submitted := v2_submitted s + 1\<rparr>))"
begin

lemma upstream_metered: "ok (view s) (snd (on_upstream_frame l now g f s)) (view (fst (on_upstream_frame l now g f s)))"
proof -
  have c: "ok (view x) (snd (on_submit_success l now f up x)) (view (fst (on_submit_success l now f up x)))" for up x
    by (simp add: on_submit_success_def Let_def ok_credit)
  have "ok (view s)
     (snd (let (s2, ev) = (if b then on_submit_success l now f up x else (x, [])) in (forward_down f up s2, ev))) (view (fst (let (s2, ev) = (if b then on_submit_success l now f up x else (x, [])) in (forward_down f up s2, ev))))"
    if "view x = view s" for b up x
    using c [of x up] that by (simp add: split_def Let_def view_forward ok_silent)
  then show ?thesis
    unfolding on_upstream_frame_def Let_def [of "if _ then on_set_target _ _ _ _ else _"]
    by (simp add: view_open view_target ok_silent split: option.split)
qed

lemma line_metered:
  "ok (view (snd ss)) (snd (handle_sv1_line l now g down wl ss)) (view (snd (fst (handle_sv1_line l now g down wl ss))))"
proof -
  have "view (send_job g j p s) = view s" for j p s
    by (simp add: send_job_def Let_def view_translate_send split: option.split)
  then have n: "view (snd (on_sv1_notify l g down n ss)) = view (snd ss)" for n
    by (auto simp: on_sv1_notify_def Let_def split: prod.split sum.split)
  have d: "view (on_sv1_difficulty g down d s) = view s" for d s
    by (simp add: on_sv1_difficulty_def Let_def view_translate_send view_target split: option.split)
  have c: "ok (view s) e (view s1)" if "credit_translate now g down s = (s1, e)" for s s1 e
    using ok_credit [of s now _ 1] that ok_silent
    by (auto simp: credit_translate_def split: if_splits) (metis fst_conv snd_conv)
  have "ok (view (snd ss)) (snd (on_sv1_result now g down m ss)) (view (snd (fst (on_sv1_result now g down m ss))))" for m
    by (auto simp: on_sv1_result_def Let_def view_translate_send ok_silent intro: c split: option.split prod.split)
  with n d show ?thesis by (simp add: handle_sv1_line_def ok_silent split: option.split)
qed

lemma react_metered: "ok (view s) (snd (v2_react l g i s)) (view (fst (v2_react l g i s)))"
  using line_metered [of "(_, s)" l]
  by (cases i) (auto simp: upstream_metered split_def Let_def)

lemma miner_metered: "ok (view s) (snd (on_miner_frame l m f s)) (view (fst (on_miner_frame l m f s)))"
  using ok_submit by (auto simp: on_miner_frame_def Let_def view_send view_open view_translate_send ok_silent split: option.split)

end

end
