(* ===== verification/Billing_Flow.thy ===== *)
theory Billing_Flow
  imports Farm Billing_Props Sv1_Trans_Props Sv1_Quiet Sv2_Quiet
begin

text \<open>
  The composition of the sessions (\<open>src/proto/relay.rs\<close>, \<open>src/proto/sv2/relay.rs\<close>) with the order
  store (\<open>src/orders.rs\<close>): both kinds of session keep books in the sense of \<open>Farm\<close>, whatever reaches
  them: their upstream's reader, their miner (admission and live switch included), a swap in its
  two critical sections, the members of a bundled rig.
\<close>

section \<open>The SV1 session\<close>

definition books1 :: "sv1_session \<Rightarrow> books" where
  "books1 s = \<lparr>bk_routing = s1_routing s, bk_work = s1_delivered_work s,
     bk_accepted = s1_accepted s, bk_submitted = s1_submitted s\<rparr>"

interpretation books1: sv1_meter books1 booked
  by unfold_locales (auto simp: booked_def books1_def if_rented_def split: routing.split)

text \<open>The miner's connection: only a forwarded message bills anything; admission and the switches
  leave the counters alone.\<close>

lemma meters1_swap_finish [simp]: "same_meters (books1 s) (books1 (swap_finish l raw c g t r s))"
proof -
  have u: "same_meters (books1 s) (books1 (snd (install_raw l raw g t r s)))"
    by (cases raw) (simp_all add: install_raw_def same_meters_def books1_def)
  have "books1 (force_reconnect x) = books1 x" for x
    by (simp add: books1_def force_reconnect_def)
  with u show ?thesis
    by (simp add: swap_finish_def split_def Let_def books1.view_fold_send books1.view_send books1.view_queues)
qed

lemma meters1_swap [simp]: "same_meters (books1 s) (books1 (snd (swap_upstream l n t r s)))"
  using meters1_swap_finish [of "s\<lparr>s1_generation_counter := s1_generation_counter s + 1\<rparr>"]
  by (simp add: swap_upstream_cases books1.view_ids split: sum.split)

lemma meters1_live_switch [simp]: "same_meters (books1 s) (books1 (live_switch e ord want s))"
  using meters1_swap [of "s\<lparr>s1_default_target := want\<rparr>"]
  by (simp add: live_switch_def switch_to_def set_default_def books1.view_ids split: option.split)

abbreviation meters_kept :: "sv1_world \<Rightarrow> sv1_world \<Rightarrow> bool" where
  "meters_kept w w' \<equiv> same_meters (books1 (w_session w)) (books1 (w_session w'))"

lemma meters_grace [simp]: "meters_kept w (finish_grace e ord want w)"
  by (simp add: finish_grace_def books1.view_reply) (simp add: with_session_def)

lemma meters_authorize: "meters_kept w (on_authorize e m worker w)"
proof -
  have "same_meters (books1 x) (books1 (attach_order oid x))" for oid x
    by (simp add: attach_order_def same_meters_def books1_def)
  then have "meters_kept x (route_admitted e worker ord want x)" for ord want x
    by (simp add: route_admitted_def with_session_def split: option.split)
  from this [of "admit m worker w"] show ?thesis
    by (simp add: on_authorize_def authorize_resolved_def Let_def books1.view_reply books1.view_handshake split: option.split)
qed

lemma connection_booked:
  "booked (books1 (w_session w)) (snd (sv1_step e x w)) (books1 (w_session (fst (sv1_step e x w))))"
proof -
  note msg = books1.forward_metered booked_silent books1.view_handshake
  have serve: "booked (books1 (w_session w)) (snd (serve_msg e m w)) (books1 (w_session (fst (serve_msg e m w))))" for m
    by (simp add: serve_msg_def msg meters_authorize split: option.split)
  have "meters_kept w (finish_grace e ord want (on_extranonce_subscribe m w))" for ord want m
    using meters_grace [of "on_extranonce_subscribe m w"] by (simp add: books1.view_handshake)
  then have grace: "booked (books1 (w_session w)) (snd (grace_msg e ord want m w))
      (books1 (w_session (fst (grace_msg e ord want m w))))" for ord want m
    by (simp add: grace_msg_def msg)
  have r: "books1 (s\<lparr>s1_reconnect := b\<rparr>) = books1 s" for s b by (simp add: books1_def)
  show ?thesis
    using serve grace
    by (simp add: sv1_step_def with_session_def r booked_silent split: phase.split miner_event.split option.split)
qed

section \<open>The SV2 session\<close>

definition books2 :: "sv2_session \<Rightarrow> books" where
  "books2 s = \<lparr>bk_routing = v2_routing s, bk_work = v2_delivered_work s,
     bk_accepted = v2_accepted s, bk_submitted = v2_submitted s\<rparr>"

interpretation books2: sv2_meter books2 booked
proof unfold_locales
  show "booked (books2 s) (snd (credit_shares now d n s)) (books2 (fst (credit_shares now d n s)))" for now d n s
    by (auto simp: credit_shares_def note_low_ratio2_def Let_def booked_def books2_def if_rented_def split: routing.split)
qed (auto simp: booked_def books2_def if_rented_def split: routing.split)

text \<open>A swap of a rig and the coming and going of its members bill nothing.\<close>

lemma books2_install_active [simp]: "books2 (install_active g t s) = books2 s"
  by (simp add: install_active_def books2_def)

lemma meters2_install:
  "same_meters (books2 s) (books2 (snd (install_native sn t r ro s)))"
  "same_meters (books2 s) (books2 (snd (install_translate g t r ms first conn s)))"
  by (simp_all add: install_native_def install_translate_def split_def Let_def same_meters_def books2.view_repoint)
    (simp_all add: books2_def install_active_def)

section \<open>Both kinds of session\<close>

text \<open>What happens to a session, whichever its kind. An SV1 session is the one of a miner's
  connection: its inputs are the events of the connection's task, what the reader of an upstream
  hands over (a translated one has a state of its own), and the two critical sections of a swap,
  whoever runs it; connecting touches no session. An SV2 rig has its upstream's reader, the frames of
  its members, their coming and going, and the critical sections of its swaps. Sections run with
  any snapshot and any connection.\<close>

datatype proxy_session = Sv1Rig sv1_world | Sv2Rig sv2_session

datatype proxy_input =
    Sv1Event sv1_env miner_event
  | Sv1Line u64 instant line
  | Sv1Frame u64 instant transport_frame translate_reader
  | Sv1SwapBegin
  | Sv1SwapFinish raw_upstream bool u64 upstream_target routing
  | Sv1Default upstream_target
  | Sv1Reconnect
  | Sv2Upstream u64 sv2_input
  | Sv2Miner u32 sv2_frame
  | Sv2Attach open_spec
  | Sv2Detach u32
  | Sv2Snapshot
  | Sv2Native swap_snapshot upstream_target routing reopened
  | Sv2Translated u64 upstream_target routing "u32 list" "u32 \<times> u32 \<times> open_spec" sv1_up_conn
  | Sv2Reconnect

definition on_session :: "(sv1_session \<Rightarrow> sv1_session \<times> acct_event list) \<Rightarrow> sv1_world
    \<Rightarrow> proxy_session \<times> acct_event list" where
  "on_session f w = (let (s, ev) = f (w_session w) in (Sv1Rig (w\<lparr>w_session := s\<rparr>), ev))"

primrec step1 :: "lib \<Rightarrow> proxy_input \<Rightarrow> sv1_world \<Rightarrow> proxy_session \<times> acct_event list" where
  "step1 l (Sv1Event e x) w = map_prod Sv1Rig id (sv1_step e x w)"
| "step1 l (Sv1Line g now wl) w = on_session (upstream_line now g wl) w"
| "step1 l (Sv1Frame g now tf r) w =
     on_session (\<lambda>s. map_prod snd id (translate_frame l now g tf (r, s))) w"
| "step1 l Sv1SwapBegin w = on_session (\<lambda>s. (snd (swap_begin s), [])) w"
| "step1 l (Sv1SwapFinish raw c g t r) w = on_session (\<lambda>s. (swap_finish l raw c g t r s, [])) w"
| "step1 l (Sv1Default t) w = on_session (\<lambda>s. (s\<lparr>s1_default_target := t\<rparr>, [])) w"
| "step1 l Sv1Reconnect w = on_session (\<lambda>s. (force_reconnect s, [])) w"
| "step1 l (Sv2Upstream g i) w = (Sv1Rig w, [])"
| "step1 l (Sv2Miner m f) w = (Sv1Rig w, [])"
| "step1 l (Sv2Attach sp) w = (Sv1Rig w, [])"
| "step1 l (Sv2Detach m) w = (Sv1Rig w, [])"
| "step1 l Sv2Snapshot w = (Sv1Rig w, [])"
| "step1 l (Sv2Native sn t r ro) w = (Sv1Rig w, [])"
| "step1 l (Sv2Translated g t r ms first conn) w = (Sv1Rig w, [])"
| "step1 l Sv2Reconnect w = (Sv1Rig w, [])"

fun step2 :: "lib \<Rightarrow> proxy_input \<Rightarrow> sv2_session \<Rightarrow> sv2_session \<times> acct_event list" where
  "step2 l (Sv2Upstream g i) s = v2_react l g i s"
| "step2 l (Sv2Miner m f) s = on_miner_frame l m f s"
| "step2 l (Sv2Attach sp) s = (snd (attach_member sp s), [])"
| "step2 l (Sv2Detach m) s = (snd (detach_member m s), [])"
| "step2 l Sv2Snapshot s = (snd (swap_snapshot_of s), [])"
| "step2 l (Sv2Native sn t r ro) s = (snd (install_native sn t r ro s), [])"
| "step2 l (Sv2Translated g t r ms first conn) s = (snd (install_translate g t r ms first conn s), [])"
| "step2 l Sv2Reconnect s = (force_reconnect2 s, [])"
| "step2 l _ s = (s, [])"

primrec proxy_step :: "lib \<Rightarrow> proxy_input \<Rightarrow> proxy_session \<Rightarrow> proxy_session \<times> acct_event list" where
  "proxy_step l i (Sv1Rig w) = step1 l i w"
| "proxy_step l i (Sv2Rig s) = map_prod Sv2Rig id (step2 l i s)"

primrec books_of :: "proxy_session \<Rightarrow> books" where
  "books_of (Sv1Rig w) = books1 (w_session w)"
| "books_of (Sv2Rig s) = books2 s"

lemma on_session_booked:
  "booked (books1 (w_session w)) (snd (f (w_session w))) (books1 (fst (f (w_session w)))) \<Longrightarrow>
   booked (books1 (w_session w)) (snd (on_session f w)) (books_of (fst (on_session f w)))"
  by (simp add: on_session_def split_def Let_def)

lemma step1_booked: "booked (books1 (w_session w)) (snd (step1 l i w)) (books_of (fst (step1 l i w)))"
proof -
  have "books1 (force_reconnect s) = books1 s" for s by (simp add: force_reconnect_def books1_def)
  then show ?thesis
    using books1.frame_metered [of "(_, w_session w)"]
    by (cases i) (simp_all add: connection_booked books1.line_metered books1.view_swap_begin books1.view_ids
        booked_silent on_session_booked)
qed

lemma step2_booked: "booked (books2 s) (snd (step2 l i s)) (books2 (fst (step2 l i s)))"
proof -
  have "books2 (force_reconnect2 s) = books2 s" by (simp add: force_reconnect2_def books2_def)
  then show ?thesis
    by (cases i) (simp_all add: books2.react_metered books2.miner_metered books2.view_members books2.view_snapshot
        meters2_install booked_silent)
qed

interpretation proxy: billed_session "proxy_step l" books_of for l
proof unfold_locales
  fix e s
  show "booked (books_of s) (snd (proxy_step l e s)) (books_of (fst (proxy_step l e s)))"
    by (cases s) (simp_all add: step1_booked step2_booked)
qed

end
