(* ===== verification/Control.thy ===== *)
theory Control
  imports Rental_Cycle Billing_Flow
begin

text \<open>
  \<open>src/control.rs\<close>, the handle over sessions of both protocols as the API and the expiry task use it,
  on the sessions of the relays: what becomes of the miners of a rig that is told to reconnect, and
  so how a rental ends.
\<close>

section \<open>The handles\<close>

text \<open>A handle is a shared pointer, so it always leads to its session: the heap is total.\<close>

record session_heap =
  hp_sv1 :: "nat \<Rightarrow> sv1_session"
  hp_sv2 :: "nat \<Rightarrow> sv2_session"

fun any_status :: "instant \<Rightarrow> session_heap \<Rightarrow> any_session \<Rightarrow> session_status" where
  "any_status now hp (Sv1 a) = sv1_status now (hp_sv1 hp a)"
| "any_status now hp (Sv2 a) = sv2_status now (hp_sv2 hp a)"

fun any_force_reconnect :: "any_session \<Rightarrow> session_heap \<Rightarrow> session_heap" where
  "any_force_reconnect (Sv1 a) hp = hp\<lparr>hp_sv1 := (hp_sv1 hp)(a := force_reconnect (hp_sv1 hp a))\<rparr>"
| "any_force_reconnect (Sv2 a) hp = hp\<lparr>hp_sv2 := (hp_sv2 hp)(a := force_reconnect2 (hp_sv2 hp a))\<rparr>"

definition reconnect_sessions :: "any_session list \<Rightarrow> session_heap \<Rightarrow> session_heap" where
  "reconnect_sessions ss hp = fold any_force_reconnect ss hp"

lemma force_reconnect_twice: "force_reconnect (force_reconnect s) = force_reconnect s"
  by (simp add: force_reconnect_def)

lemma reconnect_cells:
  "hp_sv1 (reconnect_sessions ss hp) a = (if Sv1 a \<in> set ss then force_reconnect (hp_sv1 hp a) else hp_sv1 hp a)"
  "hp_sv2 (reconnect_sessions ss hp) a =
     (hp_sv2 hp a)\<lparr>v2_epoch := v2_epoch (hp_sv2 hp a) + of_nat (count_list ss (Sv2 a))\<rparr>"
proof -
  show "hp_sv1 (reconnect_sessions ss hp) a = (if Sv1 a \<in> set ss then force_reconnect (hp_sv1 hp a) else hp_sv1 hp a)"
    unfolding reconnect_sessions_def
  proof (induction ss arbitrary: hp)
    case (Cons h ss)
    then show ?case by (cases h) (auto simp: force_reconnect_twice)
  qed simp
  show "hp_sv2 (reconnect_sessions ss hp) a =
     (hp_sv2 hp a)\<lparr>v2_epoch := v2_epoch (hp_sv2 hp a) + of_nat (count_list ss (Sv2 a))\<rparr>"
    unfolding reconnect_sessions_def
  proof (induction ss arbitrary: hp)
    case (Cons h ss)
    then show ?case by (cases h) (auto simp: force_reconnect2_def ac_simps)
  qed simp
qed

text \<open>Telling a session to reconnect does not show in its status.\<close>

lemma reconnect_status: "any_status now (reconnect_sessions ss hp) h = any_status now hp h"
proof -
  have "sv1_status now (force_reconnect s) = sv1_status now s" for s
    by (simp add: sv1_status_def force_reconnect_def)
  moreover have "sv2_status now (s\<lparr>v2_epoch := e\<rparr>) = sv2_status now s" for s e
    by (simp add: sv2_status_def)
  ultimately show ?thesis by (cases h) (simp_all add: reconnect_cells)
qed

section \<open>A pending reconnect of an SV1 session\<close>

definition runs :: "lib \<Rightarrow> proxy_input list \<Rightarrow> proxy_session \<Rightarrow> proxy_session" where
  "runs l is p = fold (\<lambda>i p. fst (proxy_step l i p)) is p"

lemma runs_simps [simp]: "runs l [] p = p" "runs l (i # is) p = runs l is (fst (proxy_step l i p))"
  by (simp_all add: runs_def)

text \<open>Nothing but the end of the connection takes the request back.\<close>

interpretation pending: sv1_meter s1_reconnect "\<lambda>b ev b'. b' = b"
  by unfold_locales (auto split: routing.split)

definition leaving :: "sv1_world \<Rightarrow> bool" where
  "leaving w \<longleftrightarrow> w_phase w = Closed \<or> s1_reconnect (w_session w)"

lemma kept_live_switch: "s1_reconnect s \<Longrightarrow> s1_reconnect (live_switch e ord want s)"
  by (auto simp: live_switch_def switch_to_def set_default_def swap_upstream_cases relay_simps
      split: option.split sum.split)

lemma leaving_step: "leaving w \<Longrightarrow> leaving (fst (sv1_step e ev w))"
proof -
  assume l: "leaving w"
  have fwd: "leaving (fst (forward_miner m w))" for m
    using l by (simp add: leaving_def forward_miner_def split_def Let_def pending.miner_metered)
  have fin: "leaving (finish_grace e ord want x)" if "s1_reconnect (w_session x)" for ord want x
    using that by (simp add: leaving_def finish_grace_def with_session_def kept_live_switch)
  show ?thesis
  proof (cases "w_phase w")
    case (Grace worker ord want)
    with l have f: "s1_reconnect (w_session w)" by (simp add: leaving_def)
    then have "s1_reconnect (w_session (on_extranonce_subscribe m w))" for m
      by (simp add: pending.view_handshake)
    with Grace f fwd fin l show ?thesis
      by (auto simp: sv1_step_def grace_msg_def split: miner_event.split option.split)
  qed (use l in \<open>auto simp: sv1_step_def leaving_def\<close>)
qed

lemma leaving_runs: "leaving w \<Longrightarrow> \<exists>w'. runs l is (Sv1Rig w) = Sv1Rig w' \<and> leaving w'"
proof (induction "is" arbitrary: w)
  case (Cons i "is")
  have "\<exists>x. fst (step1 l i w) = Sv1Rig x \<and> leaving x"
  proof (cases i)
    case (Sv1Event e ev)
    with Cons.prems show ?thesis by (simp add: leaving_step)
  next
    case (Sv1Frame g now tf r)
    with Cons.prems pending.frame_metered [where rs = "(r, w_session w)"] show ?thesis
      by (simp add: on_session_def split_def Let_def leaving_def)
  qed (use Cons.prems in \<open>auto simp: on_session_def split_def Let_def leaving_def pending.line_metered relay_simps
      swap_begin_def force_reconnect_def\<close>)
  with Cons.IH show ?case by auto
qed auto

section \<open>A pending reconnect of an SV2 rig\<close>

text \<open>The epoch only ever counts requests.\<close>

interpretation epoch: sv2_meter v2_epoch "\<lambda>e ev e'. e' = e"
proof unfold_locales
  show "v2_epoch (fst (credit_shares now d n s)) = v2_epoch s" for now d n s
    by (simp add: credit_shares_def note_low_ratio2_def Let_def)
qed (auto split: routing.split)

lemma epoch_step: "v2_epoch (fst (step2 l i s)) = v2_epoch s \<or> v2_epoch (fst (step2 l i s)) = v2_epoch s + 1"
proof -
  have "v2_epoch (snd (install_native sn t r ro s)) = v2_epoch s"
    "v2_epoch (snd (install_translate g t r ms first conn s)) = v2_epoch s" for sn t r ro g ms first conn
    by (simp_all add: install_native_def install_translate_def split_def Let_def epoch.view_repoint install_active_def)
  then show ?thesis
    by (cases i) (simp_all add: epoch.react_metered epoch.miner_metered epoch.view_members epoch.view_snapshot
        force_reconnect2_def)
qed

lemma epoch_runs: "\<exists>s' k. runs l is (Sv2Rig s) = Sv2Rig s' \<and> v2_epoch s' = v2_epoch s + of_nat k \<and> k \<le> length is"
proof (induction "is" arbitrary: s)
  case Nil
  show ?case by (intro exI [of _ s] exI [of _ 0]) simp
next
  case (Cons i "is")
  let ?s = "fst (step2 l i s)"
  from Cons.IH [of ?s] obtain s' k where r: "runs l is (Sv2Rig ?s) = Sv2Rig s'"
    "v2_epoch s' = v2_epoch ?s + of_nat k" "k \<le> length is" by blast
  from epoch_step [of l i s] show ?case
  proof
    assume "v2_epoch ?s = v2_epoch s"
    with r show ?thesis by (intro exI [of _ s'] exI [of _ k]) simp
  next
    assume "v2_epoch ?s = v2_epoch s + 1"
    with r show ?thesis by (intro exI [of _ s'] exI [of _ "Suc k"]) (simp add: ac_simps)
  qed
qed

lemma epoch_moved:
  fixes e :: u64
  assumes "0 < k" "k < 2 ^ 64"
  shows "e + of_nat k \<noteq> e"
proof
  assume "e + of_nat k = e"
  then have "unat (of_nat k :: u64) = 0" by simp
  with assms show False by (simp add: unat_of_nat take_bit_eq_mod)
qed

section \<open>The end of a rental\<close>

lemma api_reach_store: "api_reach s \<Longrightarrow> store_reach (as_orders s)"
proof (induction rule: api_reach.induct)
  case (boot seq tok)
  show ?case by (simp add: store_reach.start)
next
  case (request s e hdr req)
  have "store_reach (as_orders (fst (snd (dispatch e req s))))"
  proof (cases req)
    case (CreateOrder r)
    with request.IH show ?thesis
      by (auto simp: create_order_def create_order_commit_def reject_def Let_def
          split: sum.split prod.split create_order_error.split) (metis store_reach.create snd_conv)+
  next
    case (CancelOrder i)
    with request.IH show ?thesis
      by (auto simp: cancel_order_def reject_def Let_def split: prod.split option.split)
        (metis store_reach.cancel snd_conv)+
  qed (use request.IH in \<open>simp_all add: set_seller_def delete_seller_def set_rentable_req_def reject_def Let_def
      split: sum.split prod.split\<close>)
  with request.IH show ?case by (auto simp: router_def split: sum.split)
next
  case (race s e req s0 t fb)
  then show ?case
    by (auto simp: create_order_commit_def reject_def Let_def split: sum.split prod.split create_order_error.split)
      (metis store_reach.create snd_conv)+
next
  case (account s ev)
  then show ?case by (cases ev) (simp_all add: store_reach.add_work store_reach.add_submitted store_reach.flush)
next
  case (expiry s db now)
  have "store_reach (snd (take_expired db now (flush db (as_orders s))))"
    by (rule store_reach.take_expired, rule store_reach.flush) (rule expiry.IH)
  then show ?case by (simp add: expiry_tick_def split_def Let_def)
next
  case (restart s seq)
  then show ?case by (simp add: store_reach.restart)
qed simp_all

text \<open>A rental ends by a cancel, or because a tick of the expiry task finds it finished; both hand the
  sessions of its rig to \<open>reconnect_sessions\<close>.\<close>

inductive rental_over :: "app_state \<Rightarrow> order \<Rightarrow> order_store \<Rightarrow> any_session list \<Rightarrow> bool" where
  cancelled: "cancel_order e (o_id o') s = (Inr j, s', rc) \<Longrightarrow> ae_db e = db_up \<Longrightarrow>
     rental_over s o' (as_orders s') rc"
| expired: "expiry_tick db_up now (as_registry s) (as_orders s) = (os', rc) \<Longrightarrow>
     get_order db_up (o_id o') (flush db_up (as_orders s)) = Some o2 \<Longrightarrow>
     o_status o2 = Active \<Longrightarrow> \<not> is_live now o2 \<Longrightarrow> rental_over s o' os' rc"

lemma tick_ends_row:
  assumes "store_inv st" "deadlines_ok st" "row_of st oid = Some r" "row_active r"
    and "\<not> is_live now (into_order r)"
  shows "mark_ended now (into_order r) \<in> set (fst (take_expired db_up now st))"
    "\<exists>r'. row_of (snd (take_expired db_up now st)) oid = Some r' \<and> \<not> row_active r'"
proof -
  let ?act = "map into_order (filter row_active (os_rows st))"
  note m = row_of_Some [OF assms(3)]
  have "o_status (into_order r) = Active"
    using store_invD(3) [OF assms(1), of r] m assms(4) status_ok_active by simp
  moreover have "0 \<le> o_until_ms (into_order r)"
    using assms(2) m by (simp add: deadlines_ok_def)
  ultimately have fin: "order_finished now (into_order r)"
    using assms(5) active_order_finished by blast
  have a: "into_order r \<in> set ?act" using m assms(4) by auto
  note te = take_expired_parts [of db_up now st, simplified]
  from fin a show "mark_ended now (into_order r) \<in> set (fst (take_expired db_up now st))"
    unfolding te(1) by auto
  have id: "o_id (into_order r) = r_id r" by simp
  have "row_expire db_up now ?act r = r\<lparr>r_status := ''ended'', r_ended_ms := now\<rparr>"
    using fin a id unfolding row_expire_def by (auto simp del: into_order_simps)
  then have "\<not> row_active (row_expire db_up now ?act r)" by (simp add: row_active_def)
  moreover have "row_of (snd (take_expired db_up now st)) oid = Some (row_expire db_up now ?act r)"
    using assms(3) unfolding row_of_def te(2) by (simp add: find_map_id)
  ultimately show "\<exists>r'. row_of (snd (take_expired db_up now st)) oid = Some r' \<and> \<not> row_active r'" by blast
qed

text \<open>After either, the order is off, and the sessions of its rig are among those to reconnect.\<close>

definition freed :: "app_state \<Rightarrow> order \<Rightarrow> order_store \<Rightarrow> any_session list \<Rightarrow> bool" where
  "freed s o' os' rc \<longleftrightarrow> store_reach os' \<and> (\<exists>r. row_of os' (o_id o') = Some r \<and> \<not> row_active r)
     \<and> set (get_all (as_registry s) (o_worker o')) \<subseteq> set rc"

lemma cancel_frees:
  assumes "api_reach s" "get_order db_up (o_id o') (as_orders s) = Some o'"
    and "cancel_order e (o_id o') s = (Inr j, s', rc)" "ae_db e = db_up"
  shows "freed s o' (as_orders s') rc"
proof -
  obtain oc where c: "cancel db_up (ae_clk e 0) (o_id o') (as_orders s) = (Some oc, as_orders s')"
    "rc = get_all (as_registry s) (o_worker oc)"
    using assms(3,4) by (auto simp: cancel_order_def reject_def Let_def split: prod.splits option.splits)
  note cr = cancel_read [OF assms(2) c(1)]
  have "store_reach (as_orders s')"
    using store_reach.cancel [OF api_reach_store [OF assms(1)], of db_up "ae_clk e 0" "o_id o'"] c(1) by simp
  moreover have "get_order db_up (o_id o') (as_orders s') = Some oc" "o_status oc = Cancelled" "o_worker oc = o_worker o'"
    using cr(1,2) by auto
  then obtain x where x: "row_of (as_orders s') (o_id o') = Some x" "from_db (r_status x) = Cancelled"
    by (auto simp: get_order_row)
  moreover from x(2) have "\<not> row_active x" by (auto simp: row_active_def)
  ultimately show ?thesis using c(2) cr(1) by (auto simp: freed_def)
qed

lemma expiry_frees:
  assumes "api_reach s" "get_order db_up (o_id o') (as_orders s) = Some o'"
    and "expiry_tick db_up now (as_registry s) (as_orders s) = (os', rc)"
    and "get_order db_up (o_id o') (flush db_up (as_orders s)) = Some o2"
    and "o_status o2 = Active" "\<not> is_live now o2"
  shows "freed s o' os' rc"
proof -
  let ?f = "flush db_up (as_orders s)"
  note reach = api_reach_store [OF assms(1)]
  have f: "store_inv ?f" "deadlines_ok ?f"
    using api_reach_inv [OF assms(1)] by (simp_all add: app_inv_def store_inv_flush)
  obtain r where r: "row_of (as_orders s) (o_id o') = Some r" "o' = into_order r"
    using assms(2) by (auto simp: get_order_row)
  from store_step_deal [OF step_flush store_reach_inv [OF reach] r(1)] obtain r2 where
    r2: "row_of ?f (o_id o') = Some r2" "same_deal o' (into_order r2)" using r(2) by blast
  with assms(4) have o2: "o2 = into_order r2" by (simp add: get_order_row)
  with assms(5) have act: "row_active r2"
    using store_invD(3) [OF f(1), of r2] row_of_Some [OF r2(1)] status_ok_active by simp
  note t = tick_ends_row [OF f r2(1) act assms(6) [unfolded o2]]
  have te: "os' = snd (take_expired db_up now ?f)"
    "rc = concat (map (\<lambda>x. get_all (as_registry s) (o_worker x)) (fst (take_expired db_up now ?f)))"
    using assms(3) by (simp_all add: expiry_tick_def split_def Let_def)
  have "store_reach os'" unfolding te(1) by (rule store_reach.take_expired, rule store_reach.flush) (rule reach)
  moreover have "o_worker (mark_ended now (into_order r2)) = o_worker o'"
    using r2(2) by (simp add: mark_ended_def same_deal_def del: into_order_simps)
  with t(1) have "set (get_all (as_registry s) (o_worker o')) \<subseteq> set rc"
    unfolding te(2) by (auto intro!: bexI [OF _ t(1)])
  ultimately show ?thesis using t(2) te(1) by (simp add: freed_def)
qed

lemma rental_overD:
  assumes "api_reach s" "get_order db_up (o_id o') (as_orders s) = Some o'" "rental_over s o' os' rc"
  shows "store_reach os'" "\<exists>r. row_of os' (o_id o') = Some r \<and> \<not> row_active r"
    "set (get_all (as_registry s) (o_worker o')) \<subseteq> set rc"
proof -
  from assms(3) have "freed s o' os' rc"
    by cases (use cancel_frees [OF assms(1,2)] expiry_frees [OF assms(1,2)] in blast)+
  then show "store_reach os'" "\<exists>r. row_of os' (o_id o') = Some r \<and> \<not> row_active r"
    "set (get_all (as_registry s) (o_worker o')) \<subseteq> set rc" by (simp_all add: freed_def)
qed

lemma over_for_good:
  assumes "store_reach os'" "row_of os' oid = Some r" "\<not> row_active r" "store_step\<^sup>*\<^sup>* os' (e_orders e)"
    and "active_order e worker = Some p"
  shows "o_id p \<noteq> oid"
proof
  assume "o_id p = oid"
  from store_steps_dead [OF assms(4,1,2,3)] obtain r' where
    s: "store_reach (e_orders e)" "row_of (e_orders e) oid = Some r'" "\<not> row_active r'" by blast
  note inv = store_reach_inv [OF s(1)]
  from active_for_worker_Some_live(3) [OF inv assms(5) [unfolded active_order_def]] \<open>o_id p = oid\<close> obtain x
    where "x \<in> set (os_rows (e_orders e))" "row_active x" "r_id x = oid" by auto
  with row_of_mem [OF store_invD(1) [OF inv]] s(2,3) show False by auto
qed

text \<open>An SV1 connection that is not routed to an order, nor in the grace window on its way to it.\<close>

definition off_rental :: "string \<Rightarrow> sv1_world \<Rightarrow> bool" where
  "off_rental oid w \<longleftrightarrow> s1_routing (w_session w) \<noteq> Rented oid
     \<and> (\<forall>worker p want. w_phase w = Grace worker (Some p) want \<longrightarrow> o_id p \<noteq> oid)"

lemma resolved_off_rental:
  assumes "off_rental oid w" "\<And>p. ord = Some p \<Longrightarrow> o_id p \<noteq> oid"
  shows "off_rental oid (authorize_resolved e m worker ord rig w)"
proof -
  have rep: "s1_routing (w_session (reply_miner x w)) = s1_routing (w_session w)" "w_phase (reply_miner x w) = w_phase w"
    for x w by (simp_all add: reply_miner_def with_session_def relay_simps)
  have ad: "s1_routing (w_session (admit m worker w)) = s1_routing (w_session w)"
    "w_phase (admit m worker w) = w_phase w"
    by (simp_all add: admit_def rep Let_def) (simp_all add: with_session_def)
  have live: "s1_routing (live_switch e ord want s) \<noteq> Rented oid" if "s1_routing s \<noteq> Rented oid" for want s
    using that assms(2) by (auto simp: live_switch_def switch_to_def set_default_def swap_upstream_cases relay_simps
        split: option.split sum.split)
  have "off_rental oid (route_admitted e worker ord want x)" if "off_rental oid x" for want x
    using that live assms(2) by (auto simp: route_admitted_def finish_grace_def off_rental_def with_session_def
        attach_order_def rep split: option.split)
  moreover have "off_rental oid (admit m worker w)" using assms(1) by (simp add: off_rental_def ad)
  ultimately show ?thesis
    using assms(1) by (auto simp: authorize_resolved_def Let_def rep off_rental_def [of oid "_\<lparr>w_phase := _\<rparr>"]
        off_rental_def [of oid w] split: option.split)
qed

lemma authorize_off_rental:
  assumes "off_rental oid w" "\<And>p. active_order e worker = Some p \<Longrightarrow> o_id p \<noteq> oid"
  shows "off_rental oid (on_authorize e m worker w)"
  unfolding on_authorize_def Let_def
  by (rule resolved_off_rental [OF assms(1)]) (use assms(2) in \<open>simp add: active_order_def\<close>)

text \<open>The other side of this: an order that is created after a worker was looked up, and announced
  before its session is registered, is missed. Whatever is active by then, the miner is not put
  on its way to it, and no reconnect is pending.\<close>

lemma late_order_missed:
  assumes "off_rental oid w"
  shows "off_rental oid (authorize_resolved e m worker None rig w)"
    "s1_reconnect (w_session (authorize_resolved e m worker None rig w)) = s1_reconnect (w_session w)"
proof -
  show "off_rental oid (authorize_resolved e m worker None rig w)"
    by (rule resolved_off_rental [OF assms]) simp
  have "s1_reconnect (live_switch e None want s) = s1_reconnect s" if "s1_capable s" for want s
    using that by (simp add: live_switch_def set_default_def swap_upstream_cases relay_simps split: sum.split)
  then have "s1_reconnect (w_session (route_admitted e worker None want x)) = s1_reconnect (w_session x)" for want x
    by (simp add: route_admitted_def finish_grace_def with_session_def)
  then show "s1_reconnect (w_session (authorize_resolved e m worker None rig w)) = s1_reconnect (w_session w)"
    by (simp add: authorize_resolved_def Let_def pending.view_handshake pending.view_reply split: option.split)
qed

lemma reconnected_miner:
  assumes "Sv1 a \<in> set rc" "w_session w = hp_sv1 (reconnect_sessions rc hp) a"
  shows "\<exists>w'. runs l is (Sv1Rig w) = Sv1Rig w' \<and> leaving w'"
  by (rule leaving_runs) (use assms in \<open>simp add: leaving_def reconnect_cells force_reconnect_def\<close>)

lemma reconnected_rig:
  assumes "Sv2 a \<in> set rc" "length rc + length is < 2 ^ 64"
  shows "\<exists>s'. runs l is (Sv2Rig (hp_sv2 (reconnect_sessions rc hp) a)) = Sv2Rig s'
    \<and> v2_epoch s' \<noteq> v2_epoch (hp_sv2 hp a)"
proof -
  obtain s' k where r: "runs l is (Sv2Rig (hp_sv2 (reconnect_sessions rc hp) a)) = Sv2Rig s'"
    "v2_epoch s' = v2_epoch (hp_sv2 (reconnect_sessions rc hp) a) + of_nat k" "k \<le> length is"
    using epoch_runs by blast
  let ?j = "count_list rc (Sv2 a)"
  have j: "0 < ?j" using assms(1) by (metis count_list_0_iff gr0I)
  have "?j \<le> length rc" by (rule count_le_length)
  with assms(2) r(3) have "?j + k < 2 ^ 64" by simp
  from epoch_moved [OF _ this, of "v2_epoch (hp_sv2 hp a)"] j r(1,2) show ?thesis
    by (intro exI [of _ s']) (simp add: reconnect_cells add.assoc)
qed

text \<open>The next turn of a connection that serves its miner while a reconnect is pending.\<close>

lemma leaving_drops:
  assumes "leaving w" "w_phase w = Serving"
  shows "sv1_step e ev w = (w\<lparr>w_session := (w_session w)\<lparr>s1_reconnect := False\<rparr>, w_phase := Closed\<rparr>, [])"
  using assms by (simp add: leaving_def sv1_step_def with_session_def)

lemma stale_epoch_drops:
  assumes "map_of (x_sessions w) (cn_handle c) = Some s" "v2_epoch s \<noteq> cn_seen c"
  shows "sv2_step e c ev w = (False, leave c w, [])"
  using assms by (simp add: sv2_step_def)


text \<open>The example's order is cancelled while its one miner, an SV1 session, is served.\<close>

definition rented_miner :: "sv1_session \<Rightarrow> sv1_world" where
  "rented_miner s = \<lparr>w_session = s, w_handle = Sv1 0, w_ip = ''1.2.3.4'', w_phase = Serving,
     w_registry = [], w_hints = []\<rparr>"


end
