(* ===== verification/Buyer_Pool.thy ===== *)
theory Buyer_Pool
  imports Rental_Cycle Billing_Flow
begin

text \<open>
  Whose pool the billed work goes to: the sessions of both relays (\<open>src/proto/relay.rs\<close>,
  \<open>src/proto/sv2/relay.rs\<close>) beside the order store (\<open>src/orders.rs\<close>). A session that is rented is on
  a pool of the order it is rented to, in every state it can get into: whoever switches it has
  read that order, and the pools of an order never change.
\<close>

section \<open>Places\<close>

text \<open>Where a session is: the pool of its upstream and its routing.\<close>

type_synonym place = "upstream_target \<times> routing"

definition place1 :: "sv1_session \<Rightarrow> place" where
  "place1 s = (s1_target s, s1_routing s)"

definition place2 :: "sv2_session \<Rightarrow> place" where
  "place2 s = (v2_target s, v2_routing s)"

primrec place_of :: "proxy_session \<Rightarrow> place" where
  "place_of (Sv1Rig w) = place1 (w_session w)"
| "place_of (Sv2Rig s) = place2 s"

text \<open>The order an accounting event is billed to.\<close>

primrec bills :: "acct_event \<Rightarrow> string \<Rightarrow> bool" where
  "bills (Credit i x n) oid = (i = oid)"
| "bills (Submit i n) oid = (i = oid)"
| "bills Flush oid = False"

definition billed_at :: "place \<Rightarrow> acct_event list \<Rightarrow> place \<Rightarrow> bool" where
  "billed_at p ev p' \<longleftrightarrow> p' = p \<and> (\<forall>e\<in>set ev. \<forall>oid. bills e oid \<longrightarrow> snd p = Rented oid)"

lemma billed_at_silent [simp]: "billed_at p [] p' \<longleftrightarrow> p' = p"
  by (simp add: billed_at_def)

lemma billed_at_place: "billed_at p ev p' \<Longrightarrow> p' = p"
  by (simp add: billed_at_def)

text \<open>What a session's messages do neither moves it nor bills another order.\<close>

interpretation at1: sv1_meter place1 billed_at
  by unfold_locales (auto simp: place1_def billed_at_def split: routing.splits)

interpretation at2: sv2_meter place2 billed_at
proof unfold_locales
  show "billed_at (place2 s) (snd (credit_shares now d n s)) (place2 (fst (credit_shares now d n s)))" for now d n s
    by (auto simp: credit_shares_def note_low_ratio2_def Let_def place2_def billed_at_def split: routing.split)
qed (auto simp: place2_def billed_at_def split: routing.splits)

section \<open>Licensed places\<close>

abbreviation read_order :: "db_oracle \<Rightarrow> order_store \<Rightarrow> string \<Rightarrow> order option" where
  "read_order db st \<equiv> \<lambda>oid. get_order db oid st"

text \<open>A place is licensed when it is idle, or on a pool of the order it is rented to.\<close>

definition licensed :: "order_store \<Rightarrow> place \<Rightarrow> bool" where
  "licensed st p \<longleftrightarrow> (case snd p of Idle \<Rightarrow> True
     | Rented oid \<Rightarrow> fst p \<in> set (order_pools (read_order db_up st) oid))"

lemma licensed_idle [simp]: "licensed st (t, Idle)"
  by (simp add: licensed_def)

lemma order_pools_mem: "t \<in> set (order_pools orders oid) \<longleftrightarrow>
    (\<exists>o'. orders oid = Some o' \<and> (t = o_target o' \<or> o_fallback o' = Some t))"
  by (cases "orders oid") (auto simp: order_pools_def split: option.split)

lemma order_pools_row: "t \<in> set (order_pools (read_order db_up st) oid) \<longleftrightarrow>
    (\<exists>r. row_of st oid = Some r \<and> (t = o_target (into_order r) \<or> o_fallback (into_order r) = Some t))"
  by (auto simp: order_pools_mem get_order_row simp del: into_order_simps)

lemma licensed_pool:
  "t \<in> set (order_pools (read_order db st) oid) \<Longrightarrow> licensed st (t, Rented oid)"
  by (auto simp: licensed_def order_pools_mem get_order_def split: if_splits)

text \<open>The order that is active for a worker licenses its pools.\<close>

lemma licensed_active:
  assumes "store_inv st" "active_for_worker db worker now st = Some o'"
    and "t = o_target o' \<or> o_fallback o' = Some t"
  shows "licensed st (t, Rented (o_id o'))"
proof -
  obtain r where r: "r \<in> set (os_rows st)" "o' = into_order r"
    using active_for_worker_Some_live(3) [OF assms(1,2)] by blast
  from row_of_mem [OF store_invD(1) [OF assms(1)] r(1)] r(2) assms(3) show ?thesis
    by (auto simp: licensed_def order_pools_row)
qed

lemma licensed_later:
  assumes "store_step st st'" "store_inv st" "licensed st p"
  shows "licensed st' p"
proof (cases "snd p")
  case Idle
  then show ?thesis by (simp add: licensed_def)
next
  case (Rented oid)
  with assms(3) obtain r where r: "row_of st oid = Some r"
    "fst p = o_target (into_order r) \<or> o_fallback (into_order r) = Some (fst p)"
    by (auto simp: licensed_def order_pools_row simp del: into_order_simps)
  from store_step_deal [OF assms(1,2) r(1)] obtain r' where
    "row_of st' oid = Some r'" "same_deal (into_order r) (into_order r')" by blast
  with r(2) Rented show ?thesis
    by (auto simp: licensed_def order_pools_row same_deal_def simp del: into_order_simps)
qed

lemma licensed_steps:
  "store_step\<^sup>*\<^sup>* st st' \<Longrightarrow> store_reach st \<Longrightarrow> licensed st p \<Longrightarrow> store_reach st' \<and> licensed st' p"
  by (induction rule: rtranclp_induct) (blast intro: licensed_later store_reach_inv store_step_reach)+

section \<open>Whoever switches a session\<close>

text \<open>Both relays build their switch to an order on their swap, the primary pool first. A swap leaves
  the session where it was or where it was told to go, whatever it reports.\<close>

locale switcher =
  fixes place :: "'s \<Rightarrow> place"
    and swap :: "upstream_target \<Rightarrow> routing \<Rightarrow> 's \<Rightarrow> (net_error + unit) \<times> 's"
    and to_order :: "(string \<Rightarrow> order option) \<Rightarrow> string \<Rightarrow> 's \<Rightarrow> (net_error + unit) \<times> 's"
  assumes swap_place: "place (snd (swap t r s)) = place s \<or> place (snd (swap t r s)) = (t, r)"
    and to_order_def: "to_order orders oid s = (case orders oid of
       None \<Rightarrow> (Inl OrderNotFound, s)
     | Some o' \<Rightarrow> (case swap (o_target o') (Rented oid) s of
           (Inr _, s') \<Rightarrow> (Inr (), s')
         | (Inl primary_err, s') \<Rightarrow> (case o_fallback o' of
               Some fb \<Rightarrow> swap fb (Rented oid) s'
             | None \<Rightarrow> (Inl primary_err, s'))))"
begin

lemma swap_licensed:
  "licensed st (place s) \<Longrightarrow> licensed st (t, r) \<Longrightarrow> licensed st (place (snd (swap t r s)))"
  using swap_place [of t r s] by auto

lemma to_order_licensed:
  assumes "licensed st (place s)"
  shows "licensed st (place (snd (to_order (read_order db st) oid s)))"
proof (cases "read_order db st oid")
  case None
  with assms show ?thesis by (simp add: to_order_def)
next
  case (Some o')
  have pool: "licensed st (t, Rented oid)" if "t = o_target o' \<or> o_fallback o' = Some t" for t
    by (rule licensed_pool [of t db]) (use Some that in \<open>auto simp: order_pools_mem\<close>)
  obtain res s1 where s1: "swap (o_target o') (Rented oid) s = (res, s1)" by fastforce
  with swap_licensed [OF assms pool, of "o_target o'"] have "licensed st (place s1)" by simp
  with swap_licensed [OF this pool] Some s1 show ?thesis
    by (simp add: to_order_def split: sum.split option.split)
qed

end

interpretation switch1: switcher place1 "swap_upstream l n" "switch_to_order l n" for l n
proof unfold_locales
  show "place1 (snd (swap_upstream l n t r s)) = place1 s \<or> place1 (snd (swap_upstream l n t r s)) = (t, r)" for t r s
    by (simp add: swap_upstream_cases at1.view_ids split: sum.split) (simp add: place1_def relay_simps)
qed (unfold switch_to_order_def switch_to_def, rule refl)

lemma install2_place:
  "place2 (snd (install_native sn t r ro s)) = (t, r)"
  "place2 (snd (install_translate g t r ms first conn s)) = (t, r)"
  by (simp_all add: install_native_def install_translate_def split_def Let_def at2.view_repoint)
    (simp_all add: place2_def install_active_def)

interpretation switch2: switcher place2 "swap_upstream2 l n" "switch_to_order2 l n" for l n
proof unfold_locales
  fix t r and s :: sv2_session
  note keep = at2.view_snapshot [of s]
  have "place2 (snd (swap_to_sv1_translate l n t r g i x)) \<in> {place2 x, (t, r)}" for g i x
    by (simp add: swap_to_sv1_translate_def install2_place split: list.split sum.split)
  from this [of _ _ "snd (swap_snapshot_of s)"]
  show "place2 (snd (swap_upstream2 l n t r s)) = place2 s \<or> place2 (snd (swap_upstream2 l n t r s)) = (t, r)"
    by (simp add: swap_upstream2_def split_def Let_def keep install2_place split: sum.split)
qed (unfold switch_to_order2_def switch_to2_def, rule refl)

text \<open>The supervisors, the retry, the alignment of a rig and the live switch of a miner.\<close>

lemma supervisor_licensed:
  "licensed st (place1 s) \<Longrightarrow> supervise_attempt l n (read_order db st) g s = Some (res, s') \<Longrightarrow>
     licensed st (place1 s')"
  using switch1.to_order_licensed [of st s l n db] switch1.swap_licensed [of st s "s1_default_target s" Idle l n]
  by (auto simp: supervise_attempt_def revert_def split: if_splits routing.splits) (metis snd_conv)+

lemma revert2_licensed: "licensed st (place2 s) \<Longrightarrow> licensed st (place2 (snd (revert2 l n s)))"
  using switch2.swap_licensed [of st s _ Idle l n]
  by (simp add: revert2_def split: option.split) (simp add: force_reconnect2_def place2_def)

lemma supervisor2_licensed:
  "licensed st (place2 s) \<Longrightarrow> supervise_attempt2 l n (read_order db st) g s = Some (res, s') \<Longrightarrow>
     licensed st (place2 s')"
  using switch2.to_order_licensed [of st s l n db] revert2_licensed [of st s l n]
  by (auto simp: supervise_attempt2_def split: if_splits routing.splits) (metis snd_conv)+

lemma reconcile_licensed:
  assumes "licensed st (place2 s)"
  shows "licensed st (place2 (reconcile_routing l n (read_order db st) desired s))"
proof -
  have r: "place2 (spawn_switch_retry x) = place2 x" for x
    by (simp add: spawn_switch_retry_def place2_def)
  have "licensed st (place2 (case switch_to_order2 l n (read_order db st) oid s of
      (Inl _, s') \<Rightarrow> spawn_switch_retry s' | (Inr _, s') \<Rightarrow> s'))" for oid
    using switch2.to_order_licensed [OF assms, of l n db oid] by (auto simp: r split: prod.split sum.split)
  with assms revert2_licensed [OF assms] show ?thesis
    by (simp add: reconcile_routing_def Let_def split: option.split)
qed

lemma retry_licensed:
  assumes "licensed st (place2 s)"
  shows "licensed st (place2 (snd (retry_round l n (read_order db st) active s)))"
proof -
  have f: "place2 (force_reconnect2 x) = place2 x" for x
    by (simp add: force_reconnect2_def place2_def)
  have "licensed st (place2 (snd (case switch_to_order2 l n (read_order db st) oid s of
      (Inr _, s') \<Rightarrow> (Some True, force_reconnect2 s') | (Inl _, s') \<Rightarrow> (None, s'))))" for oid
    using switch2.to_order_licensed [OF assms, of l n db oid] by (auto simp: f split: prod.split sum.split)
  with assms show ?thesis by (simp add: retry_round_def split: option.split)
qed

section \<open>The connection of an SV1 miner\<close>

text \<open>The order a miner in the grace window waits for has been read when it was authorized.\<close>

definition awaits :: "order_store \<Rightarrow> phase \<Rightarrow> bool" where
  "awaits st ph \<longleftrightarrow> (\<forall>worker o' want. ph = Grace worker (Some o') want \<longrightarrow>
     licensed st (o_target o', Rented (o_id o')))"

lemma awaits_simps [simp]:
  "awaits st Serving" "awaits st Closed" "awaits st (Grace worker None want)"
  "awaits st (Grace worker (Some o') want) \<longleftrightarrow> licensed st (o_target o', Rented (o_id o'))"
  by (auto simp: awaits_def)

definition settled :: "order_store \<Rightarrow> sv1_world \<Rightarrow> bool" where
  "settled st w \<longleftrightarrow> licensed st (place1 (w_session w)) \<and> awaits st (w_phase w)"

lemma settled_fields [simp]:
  "settled st (w\<lparr>w_phase := ph\<rparr>) \<longleftrightarrow> licensed st (place1 (w_session w)) \<and> awaits st ph"
  "settled st (w\<lparr>w_registry := r\<rparr>) = settled st w" "settled st (w\<lparr>w_hints := h\<rparr>) = settled st w"
  by (simp_all add: settled_def)

lemma phase_kept [simp]:
  "w_phase (reply_miner m w) = w_phase w" "w_phase (with_session f w) = w_phase w"
  by (simp_all add: reply_miner_def with_session_def)

lemma live_switch_licensed:
  assumes "licensed st (place1 s)" "\<And>o'. ord = Some o' \<Longrightarrow> licensed st (o_target o', Rented (o_id o'))"
  shows "licensed st (place1 (live_switch e ord want s))"
proof (cases ord)
  case None
  have "licensed st (place1 (s\<lparr>s1_default_target := want\<rparr>))" using assms(1) by (simp add: at1.view_ids)
  from switch1.swap_licensed [OF this licensed_idle] None show ?thesis
    by (simp add: live_switch_def set_default_def)
next
  case (Some o')
  with assms show ?thesis by (simp add: live_switch_def switch_to_def switch1.swap_licensed)
qed

lemma finish_grace_settled:
  assumes "licensed st (place1 (w_session w))" "\<And>o'. ord = Some o' \<Longrightarrow> licensed st (o_target o', Rented (o_id o'))"
  shows "settled st (finish_grace e ord want w)"
  using live_switch_licensed [OF assms] assms(1)
  by (simp add: finish_grace_def at1.view_reply) (simp add: with_session_def)

lemma resolved_settled:
  assumes "settled st w" "\<And>o'. ord = Some o' \<Longrightarrow> licensed st (o_target o', Rented (o_id o'))"
  shows "settled st (authorize_resolved e m worker ord rig w)"
proof -
  let ?w = "admit m worker w"
  have adm: "settled st ?w"
    using assms(1) by (simp add: settled_def at1.view_handshake) (simp add: admit_def Let_def)
  have route: "settled st (route_admitted e worker ord want ?w)" if "\<And>o'. ord = Some o' \<Longrightarrow> want = o_target o'" for want
  proof (cases "s1_target (w_session ?w) = want")
    case True
    with that assms(2) adm show ?thesis
      by (auto simp: route_admitted_def settled_def attach_order_def place1_def with_session_def split: option.split)
  next
    case False
    with assms(2) adm finish_grace_settled [of st ?w ord e want] show ?thesis
      by (cases ord) (auto simp: route_admitted_def settled_def)
  qed
  show ?thesis
    using assms(1) adm route
    by (auto simp: authorize_resolved_def Let_def settled_def at1.view_reply split: option.split)
qed

lemma authorize_settled:
  assumes "settled st w" "store_inv st" "e_orders e = st"
  shows "settled st (on_authorize e m worker w)"
  unfolding on_authorize_def Let_def
  by (rule resolved_settled [OF assms(1)]) (use licensed_active [OF assms(2)] assms(3) in auto)

text \<open>A step that bills anything leaves the session where it is; any other may move it.\<close>

lemma connection_settled:
  assumes "settled st w" "store_inv st" "e_orders e = st"
  shows "settled st (fst (sv1_step e x w))"
    "snd (sv1_step e x w) \<noteq> [] \<Longrightarrow>
       billed_at (place1 (w_session w)) (snd (sv1_step e x w)) (place1 (w_session (fst (sv1_step e x w))))"
proof -
  have same: "settled st w'" if "place1 (w_session w') = place1 (w_session w)" "w_phase w' = w_phase w" for w'
    using assms(1) that by (simp add: settled_def)
  have fwd: "settled st (fst (forward_miner m w))" for m
    using billed_at_place [OF at1.forward_metered [of w m]] by (rule same) (simp add: forward_miner_def split_def Let_def)
  note hs = at1.view_handshake at1.view_reply
  have hand: "settled st (on_configure m w)" "settled st (on_subscribe m w)" "settled st (on_extranonce_subscribe m w)" for m
    by (rule same, simp add: hs, simp add: on_configure_def on_subscribe_def on_extranonce_subscribe_def Let_def)+
  have serve: "settled st (fst (serve_msg e m w))" for m
    by (simp add: serve_msg_def hand fwd authorize_settled [OF assms] split: option.split)
  have r: "place1 (s\<lparr>s1_reconnect := b\<rparr>) = place1 s" for s b by (simp add: place1_def)
  show "settled st (fst (sv1_step e x w))"
  proof (cases "w_phase w")
    case Serving
    with assms(1) serve show ?thesis
      by (auto simp: sv1_step_def settled_def r with_session_def split: miner_event.split option.split)
  next
    case (Grace worker ord want)
    with assms(1) have l: "licensed st (place1 (w_session w))"
      "\<And>o'. ord = Some o' \<Longrightarrow> licensed st (o_target o', Rented (o_id o'))" by (auto simp: settled_def)
    have "settled st (finish_grace e ord want w')" if "place1 (w_session w') = place1 (w_session w)" for w'
      by (rule finish_grace_settled) (use l that in auto)
    with Grace assms(1) fwd show ?thesis
      by (auto simp: sv1_step_def grace_msg_def hs split: miner_event.split option.split)
  next
    case Closed
    with assms(1) show ?thesis by (simp add: sv1_step_def)
  qed
  have fb: "billed_at (place1 (w_session w)) (snd (forward_miner m w)) (place1 (w_session (fst (forward_miner m w))))" for m
    by (rule at1.forward_metered)
  show "billed_at (place1 (w_session w)) (snd (sv1_step e x w)) (place1 (w_session (fst (sv1_step e x w))))"
    if "snd (sv1_step e x w) \<noteq> []"
    using that fb
    by (auto simp: sv1_step_def serve_msg_def grace_msg_def split: phase.splits miner_event.splits option.splits if_splits)
qed

section \<open>A rig beside the order store\<close>

text \<open>One session, the store, and the swaps that have been asked for: the pools and routings that
  callers have decided on and that are being connected. A swap is never taken off the list, so a
  caller may install as late and as often as it likes.\<close>

record site =
  si_store :: order_store
  si_rig :: proxy_session
  si_asked :: "place list"

text \<open>The inputs of \<open>Billing_Flow\<close> that can come now: a miner's connection looks the order up in the
  store of this moment, a swap installs what has been asked for.\<close>

fun may_come :: "order_store \<Rightarrow> place list \<Rightarrow> proxy_input \<Rightarrow> bool" where
  "may_come st asked (Sv1Event e x) \<longleftrightarrow> e_orders e = st"
| "may_come st asked (Sv1SwapFinish raw c g t r) \<longleftrightarrow> (t, r) \<in> set asked"
| "may_come st asked (Sv2Native sn t r ro) \<longleftrightarrow> (t, r) \<in> set asked"
| "may_come st asked (Sv2Translated g t r ms first conn) \<longleftrightarrow> (t, r) \<in> set asked"
| "may_come st asked i \<longleftrightarrow> True"

text \<open>The store lives on; a caller reads an order and asks for one of its pools, or for any pool
  with the rig idle; an input comes; an authorize goes on with the order it has read before; a supervisor, the retry or the alignment of a rig runs in one
  go, reading the store as it is.\<close>

inductive site_step :: "site \<Rightarrow> acct_event list \<Rightarrow> site \<Rightarrow> bool" where
  store: "store_step (si_store h) st \<Longrightarrow> site_step h [] (h\<lparr>si_store := st\<rparr>)"
| ask_rented: "t \<in> set (order_pools (read_order db (si_store h)) oid) \<Longrightarrow>
    site_step h [] (h\<lparr>si_asked := (t, Rented oid) # si_asked h\<rparr>)"
| ask_idle: "site_step h [] (h\<lparr>si_asked := (t, Idle) # si_asked h\<rparr>)"
| input: "may_come (si_store h) (si_asked h) i \<Longrightarrow> proxy_step l i (si_rig h) = (p, ev) \<Longrightarrow> site_step h ev (h\<lparr>si_rig := p\<rparr>)"
| authorize: "si_rig h = Sv1Rig w \<Longrightarrow>
    (case ord of None \<Rightarrow> True | Some o' \<Rightarrow> (o_target o', Rented (o_id o')) \<in> set (si_asked h)) \<Longrightarrow>
    site_step h [] (h\<lparr>si_rig := Sv1Rig (authorize_resolved e m worker ord rig w)\<rparr>)"
| supervise: "si_rig h = Sv1Rig w \<Longrightarrow>
    supervise_attempt l n (read_order db (si_store h)) g (w_session w) = Some (res, s) \<Longrightarrow>
    site_step h [] (h\<lparr>si_rig := Sv1Rig (w\<lparr>w_session := s\<rparr>)\<rparr>)"
| supervise2: "si_rig h = Sv2Rig s \<Longrightarrow>
    supervise_attempt2 l n (read_order db (si_store h)) g s = Some (res, s') \<Longrightarrow>
    site_step h [] (h\<lparr>si_rig := Sv2Rig s'\<rparr>)"
| align: "si_rig h = Sv2Rig s \<Longrightarrow>
    reconcile_routing l n (read_order db (si_store h)) desired s = s' \<Longrightarrow>
    site_step h [] (h\<lparr>si_rig := Sv2Rig s'\<rparr>)"
| retry: "si_rig h = Sv2Rig s \<Longrightarrow>
    retry_round l n (read_order db (si_store h)) active s = (res, s') \<Longrightarrow>
    site_step h [] (h\<lparr>si_rig := Sv2Rig s'\<rparr>)"

text \<open>A session starts with the connection of an SV1 miner, or with the rig an SV2 miner opens; the
  store may have moved on between the look-up of its order and the end of its opening.\<close>

inductive site_reach :: "site \<Rightarrow> bool" where
  accept: "store_reach st \<Longrightarrow> accept_miner e peer handle dflt reg hints = Inr w \<Longrightarrow>
    site_reach \<lparr>si_store = st, si_rig = Sv1Rig w, si_asked = []\<rparr>"
| connect: "store_reach (e_orders e) \<Longrightarrow> store_step\<^sup>*\<^sup>* (e_orders e) (e_orders e2) \<Longrightarrow>
    connect_miner2 e e2 mo w = (Inr c, w') \<Longrightarrow> rig_get (mo_worker mo) w \<noteq> Some (cn_handle c) \<Longrightarrow>
    map_of (x_sessions w') (cn_handle c) = Some s \<Longrightarrow>
    site_reach \<lparr>si_store = e_orders e2, si_rig = Sv2Rig s, si_asked = []\<rparr>"
| step: "site_reach h \<Longrightarrow> site_step h ev h' \<Longrightarrow> site_reach h'"

primrec rig_settled :: "order_store \<Rightarrow> proxy_session \<Rightarrow> bool" where
  "rig_settled st (Sv1Rig w) \<longleftrightarrow> settled st w"
| "rig_settled st (Sv2Rig s) \<longleftrightarrow> licensed st (place2 s)"

definition site_ok :: "site \<Rightarrow> bool" where
  "site_ok h \<longleftrightarrow> store_reach (si_store h) \<and> rig_settled (si_store h) (si_rig h)
     \<and> (\<forall>p\<in>set (si_asked h). licensed (si_store h) p)"

lemma settled_later:
  assumes "store_step st st'" "store_reach st"
  shows "rig_settled st p \<Longrightarrow> rig_settled st' p"
  using licensed_later [OF assms(1) store_reach_inv [OF assms(2)]]
  by (cases p) (auto simp: settled_def awaits_def)

lemma finish1_place: "place1 (swap_finish l raw c g t r s) = (t, r)"
  by (simp add: place1_def relay_simps)

text \<open>An input keeps the session settled, and what it bills, it bills to the order of the place.\<close>

definition honest :: "order_store \<Rightarrow> place \<Rightarrow> acct_event list \<Rightarrow> proxy_session \<Rightarrow> bool" where
  "honest st pl ev p \<longleftrightarrow> rig_settled st p
     \<and> (\<forall>e\<in>set ev. \<forall>oid. bills e oid \<longrightarrow> snd pl = Rented oid \<and> place_of p = pl)"

lemma honest_silent [simp]: "honest st pl [] p = rig_settled st p"
  by (simp add: honest_def)

lemma honest_billed:
  "billed_at pl ev (place_of p) \<Longrightarrow> rig_settled st p \<Longrightarrow> honest st pl ev p"
  by (simp add: honest_def billed_at_def)

lemma step1_honest:
  assumes "settled st w" "store_inv st" "may_come st asked i" "\<forall>p\<in>set asked. licensed st p"
  shows "honest st (place1 (w_session w)) (snd (step1 l i w)) (fst (step1 l i w))"
proof -
  note os = on_session_def split_def Let_def settled_def
  have f: "place1 (force_reconnect s) = place1 s" for s by (simp add: place1_def relay_simps)
  have fin: "place1 (swap_finish l raw c g t r s) = (t, r)" for raw c g t r s
    by (simp add: place1_def relay_simps)
  have keep: "honest st (place1 (w_session w)) ev (Sv1Rig (w\<lparr>w_session := s\<rparr>))"
    if "billed_at (place1 (w_session w)) ev (place1 s)" for ev s
    by (rule honest_billed) (use that assms(1) billed_at_place [OF that] in \<open>simp_all add: settled_def\<close>)
  show ?thesis
  proof (cases i)
    case (Sv1Event e x)
    with assms(3) connection_settled [OF assms(1,2), of e x] show ?thesis
      by (cases "snd (sv1_step e x w) = []") (auto intro: honest_billed)
  next
    case (Sv1Line g now wl)
    then show ?thesis using keep [OF at1.line_metered] by (simp add: os)
  next
    case (Sv1Frame g now tf r)
    then show ?thesis
      using keep [OF at1.frame_metered [where rs = "(r, w_session w)", unfolded snd_conv]] by (simp add: os)
  qed (use assms in \<open>auto simp: os f fin at1.view_swap_begin at1.view_ids\<close>)
qed

lemma step2_honest:
  assumes "licensed st (place2 s)" "may_come st asked i" "\<forall>p\<in>set asked. licensed st p"
  shows "honest st (place2 s) (snd (step2 l i s)) (Sv2Rig (fst (step2 l i s)))"
proof -
  have f: "place2 (force_reconnect2 s) = place2 s" by (simp add: place2_def force_reconnect2_def)
  have keep: "honest st (place2 s) ev (Sv2Rig s')" if "billed_at (place2 s) ev (place2 s')" for ev s'
    by (rule honest_billed) (use that assms(1) billed_at_place [OF that] in simp_all)
  show ?thesis
    by (cases i) (use assms in \<open>auto simp: f install2_place at2.view_members at2.view_snapshot
        intro: keep at2.react_metered at2.miner_metered\<close>)
qed

lemma input_honest:
  assumes "site_ok h" "may_come (si_store h) (si_asked h) i" "proxy_step l i (si_rig h) = (p, ev)"
  shows "honest (si_store h) (place_of (si_rig h)) ev p"
proof -
  have ok: "store_inv (si_store h)" "rig_settled (si_store h) (si_rig h)"
    "\<forall>p\<in>set (si_asked h). licensed (si_store h) p"
    using assms(1) store_reach_inv by (auto simp: site_ok_def)
  show ?thesis
  proof (cases "si_rig h")
    case (Sv1Rig w)
    with step1_honest [OF _ ok(1) assms(2) ok(3), of w l] ok(2) assms(3) show ?thesis by simp
  next
    case (Sv2Rig s)
    with step2_honest [OF _ assms(2) ok(3), of s l] ok(2) assms(3) show ?thesis
      by (cases "step2 l i s") auto
  qed
qed

lemma site_step_ok: "site_step h ev h' \<Longrightarrow> site_ok h \<Longrightarrow> site_ok h'"
proof (induction rule: site_step.induct)
  case (store h st)
  then show ?case
    using settled_later [OF store(1)] licensed_later [OF store(1) store_reach_inv] store_step_reach [OF store(1)]
    by (auto simp: site_ok_def)
next
  case (ask_rented t db h oid)
  then show ?case using licensed_pool by (simp add: site_ok_def)
next
  case (ask_idle h)
  then show ?case by (simp add: site_ok_def)
next
  case (input h i l p ev)
  then show ?case using input_honest [OF input(3,1,2)] by (simp add: site_ok_def honest_def)
next
  case (authorize h w ord e m worker rig)
  have "settled (si_store h) (authorize_resolved e m worker ord rig w)"
    by (rule resolved_settled) (use authorize in \<open>auto simp: site_ok_def\<close>)
  with authorize(3) show ?case by (simp add: site_ok_def)
next
  case (supervise h w l n db g res s)
  then show ?case using supervisor_licensed [OF _ supervise(2)] by (simp add: site_ok_def settled_def)
next
  case (supervise2 h s l n db g res s')
  then show ?case using supervisor2_licensed [OF _ supervise2(2)] by (simp add: site_ok_def)
next
  case (align h s l n db desired s')
  then show ?case using reconcile_licensed [of "si_store h" s l n db desired] by (auto simp: site_ok_def)
next
  case (retry h s l n db active res s')
  then show ?case using retry_licensed [of "si_store h" s l n db active] by (auto simp: site_ok_def)
qed

lemma site_reach_ok: "site_reach h \<Longrightarrow> site_ok h"
proof (induction rule: site_reach.induct)
  case (accept st e peer handle dflt reg hints w)
  then have "s1_routing (w_session w) = Idle" "w_phase w = Serving"
    by (auto simp: accept_miner_def Let_def relay_simps split: prod.splits option.splits sum.splits)
  with accept show ?case by (simp add: site_ok_def settled_def place1_def)
next
  case (connect e e2 mo w c w' s)
  have "licensed (e_orders e) (place2 s)"
  proof (cases "active_order e (mo_worker mo)")
    case None
    with connect_lands [OF connect(3) refl] connect(4,5) show ?thesis by (simp add: place2_def)
  next
    case (Some o')
    with connect_lands [OF connect(3) refl] connect(4,5) have
      "v2_routing s = Rented (o_id o')" "v2_target s = o_target o' \<or> o_fallback o' = Some (v2_target s)" by auto
    with Some licensed_active [OF store_reach_inv [OF connect(1)], of "e_db e" "mo_worker mo" "e_now_ms e" o']
    show ?thesis by (simp add: place2_def active_order_def)
  qed
  with licensed_steps [OF connect(2,1)] show ?case by (simp add: site_ok_def)
next
  case (step h ev h')
  then show ?case by (blast intro: site_step_ok)
qed

lemma site_step_bills:
  assumes "site_step h ev h'" "site_ok h" "e \<in> set ev" "bills e oid"
  shows "snd (place_of (si_rig h)) = Rented oid" "place_of (si_rig h') = place_of (si_rig h)"
proof -
  have "snd (place_of (si_rig h)) = Rented oid \<and> place_of (si_rig h') = place_of (si_rig h)"
    using assms
  proof (induction rule: site_step.induct)
    case (input h i l p ev)
    from input_honest [OF input(3,1,2)] input(4,5) show ?case by (auto simp: honest_def)
  qed simp_all
  then show "snd (place_of (si_rig h)) = Rented oid" "place_of (si_rig h') = place_of (si_rig h)" by blast+
qed


text \<open>An authorize compares the pool and attaches the order in two critical sections. When the session's
  supervisor runs in between and reverts it, as it may while the session is still idle, the
  session is billed to the order on the seller's pool. (In \<open>route_admitted\<close> the two are one step.)\<close>

lemma attach_after_revert:
  assumes "s1_routing s = Idle" "supervise_attempt l n orders g s = Some (Inr u, s')"
  shows "place1 (attach_order oid s') = (s1_default_target s, Rented oid)"
proof -
  from assms have "swap_upstream l n (s1_default_target s) Idle s = (Inr u, s')"
    by (simp add: supervise_attempt_def revert_def split: if_splits)
  then show ?thesis
    by (auto simp: swap_upstream_cases attach_order_def place1_def relay_simps split: sum.splits)
qed

text \<open>A miner whose worker is rented connects while the boot pool is the order's pool, authorizes and
  submits a share.\<close>

definition buyer_store :: order_store where
  "buyer_store = snd (create db_up 0 ''acct.rig'' demo_pool None 0 1 0 (order_store_new [] 0))"

definition buyer_env :: sv1_env where
  "buyer_env = (demo_conn_env sample_lib 0)\<lparr>e_orders := buyer_store\<rparr>"

definition buyer_authorize :: rpc_message where
  "buyer_authorize = authorize_request (JInt 3) ''acct.rig'' ''x''"

lemma buyer_order:
  "\<exists>o'. active_for_worker db_up ''acct.rig'' 0 buyer_store = Some o' \<and> o_target o' = demo_pool"
  by (simp add: buyer_store_def create_def order_store_new_def active_for_worker_def row_active_def Let_def
      funding_exhausted_def into_order_def demo_pool_def)

lemma buyer_parsed: "rpc_parse (to_line buyer_authorize) = Some buyer_authorize"
  "rpc_parse (to_line demo_submit) = Some demo_submit"
  by (simp_all add: rpc_roundtrip buyer_authorize_def authorize_request_def demo_submit_def rpc_norm_def
      rpc_request_def opt_value_def)

lemma buyer_messages: "m_method buyer_authorize = Some ''mining.authorize''" "auth_worker buyer_authorize = Some ''acct.rig''"
  "m_method demo_submit = Some ''mining.submit''" "auth_worker demo_submit = None"
  by (simp_all add: auth_worker_def buyer_authorize_def authorize_request_def demo_submit_def rpc_request_def jfirst_def)

lemma buyer_env_fields [simp]:
  "e_orders buyer_env = buyer_store" "e_db buyer_env = db_up" "e_now_ms buyer_env = 0"
  by (simp_all add: buyer_env_def demo_conn_env_def)

lemma serving_line:
  assumes "w_phase w = Serving" "\<not> s1_reconnect (w_session w)" "rpc_parse wl = Some m"
  shows "sv1_step e (MinerLine wl) w = serve_msg e m w"
  using assms by (simp add: sv1_step_def)

lemma buyer_accepted:
  "\<exists>w. accept_miner buyer_env ''1.2.3.4:5'' 0 (Some demo_pool) [] [] = Inr w \<and> w_phase w = Serving
     \<and> \<not> s1_reconnect (w_session w) \<and> s1_target (w_session w) = demo_pool"
  by (simp add: accept_miner_def take_hint_def buyer_env_def demo_conn_env_def connect_net_with_up
      demo_pool_def relay_simps new_session_def)

lemma buyer_accepts:
  assumes "accept_miner buyer_env ''1.2.3.4:5'' 0 (Some demo_pool) [] [] = Inr w"
  shows "site_reach \<lparr>si_store = buyer_store, si_rig = Sv1Rig w, si_asked = []\<rparr>"
proof (rule site_reach.accept [OF _ assms])
  show "store_reach buyer_store"
    unfolding buyer_store_def by (rule store_reach.create) (rule store_reach.start)
qed

lemma buyer_event:
  assumes "sv1_step buyer_env x w = (w', ev)"
  shows "site_step \<lparr>si_store = buyer_store, si_rig = Sv1Rig w, si_asked = []\<rparr> ev
     \<lparr>si_store = buyer_store, si_rig = Sv1Rig w', si_asked = []\<rparr>"
  using site_step.input [of "\<lparr>si_store = buyer_store, si_rig = Sv1Rig w, si_asked = []\<rparr>" "Sv1Event buyer_env x"] assms
  by simp

lemma buyer_authorized:
  assumes "w_phase w = Serving" "\<not> s1_reconnect (w_session w)" "s1_target (w_session w) = demo_pool"
  obtains o' :: order and w' where "sv1_step buyer_env (MinerLine (to_line buyer_authorize)) w = (w', [])"
    "w_phase w' = Serving" "\<not> s1_reconnect (w_session w')" "place1 (w_session w') = (demo_pool, Rented (o_id o'))"
proof -
  obtain o' where o: "active_for_worker db_up ''acct.rig'' 0 buyer_store = Some o'" "o_target o' = demo_pool"
    using buyer_order by blast
  let ?w = "on_authorize buyer_env buyer_authorize ''acct.rig'' w"
  have "sv1_step buyer_env (MinerLine (to_line buyer_authorize)) w = (?w, [])"
    by (simp add: serving_line [OF assms(1,2) buyer_parsed(1)] serve_msg_def buyer_messages)
  moreover have "w_phase ?w = Serving" "\<not> s1_reconnect (w_session ?w)" "place1 (w_session ?w) = (demo_pool, Rented (o_id o'))"
    using o assms by (simp_all add: on_authorize_def authorize_resolved_def admit_def route_admitted_def reply_miner_def with_session_def
        attach_order_def relay_simps Let_def place1_def)
  ultimately show thesis using that by blast
qed


end
