(* ===== verification/Sv2_Weights.thy ===== *)
theory Sv2_Weights
  imports Billing_Flow Sv2_Props
begin

text \<open>
  The weight of a rig's shares (\<open>src/proto/sv2/relay.rs\<close>): the pool acknowledges shares by number, and
  each is credited at the difficulty the rig has on record for the channel. That record is the
  target the pool last set for the channel, whatever the rig's machines and the rest of the
  pool's messages do meanwhile.
\<close>

section \<open>The record of a channel\<close>

text \<open>The owner and the difficulty of the channel the pool knows as \<open>up\<close>.\<close>

definition on_record :: "u32 \<Rightarrow> sv2_session \<Rightarrow> (u32 \<times> xf64) option" where
  "on_record up s = map_option (\<lambda>c. (ch_owner c, ch_difficulty c)) (find_up up s)"

interpretation chans: sv2_sends v2_channels
  by unfold_locales simp_all

lemma on_record_channels: "v2_channels s' = v2_channels s \<Longrightarrow> on_record up s' = on_record up s"
  by (simp add: on_record_def find_up_def)

lemma on_record_more:
  "v2_channels s' = v2_channels s @ cs \<Longrightarrow> on_record up s = Some r \<Longrightarrow> on_record up s' = Some r"
  by (auto simp: on_record_def find_up_def find_append_Some)

lemma on_record_target:
  "on_record up (on_set_target l f up' s) = (case parse_set_target l f of
     Some t \<Rightarrow> if up' = up then map_option (\<lambda>(m, d). (m, Finite (difficulty_from_target l t))) (on_record up s)
       else on_record up s
   | None \<Rightarrow> on_record up s)"
proof (cases "parse_set_target l f")
  case (Some t)
  let ?f = "\<lambda>c. c\<lparr>ch_difficulty := Finite (difficulty_from_target l t)\<rparr>"
  have "List.find (\<lambda>c. ch_up c = up) (update_first (\<lambda>c. ch_up c = up') ?f xs) =
      (if up' = up then map_option ?f (List.find (\<lambda>c. ch_up c = up) xs) else List.find (\<lambda>c. ch_up c = up) xs)" for xs :: "sv2_channel list"
    by (induction xs) auto
  with Some show ?thesis
    by (cases "find_up up s") (auto simp: on_record_def find_up_def on_set_target_def)
qed (simp add: on_set_target_def)

text \<open>A channel that opens comes last.\<close>

lemma open_success_channels: "\<exists>cs. v2_channels (on_open_success l f s) = v2_channels s @ cs"
proof -
  have g: "v2_channels (snd (map_group up e x)) = v2_channels x" for up e x
    by (simp add: map_group_def split: option.split)
  have "\<exists>cs. v2_channels (finish_open l info m sp x) = v2_channels x @ cs" for info m sp x
    by (simp add: finish_open_def split_def Let_def register_channel_def chans.view_send g)
  from this [of _ _ _ "s\<lparr>v2_pending := _\<rparr>"] show ?thesis
    by (auto simp: on_open_success_def split: option.split)
qed

lemma open_error_channels: "v2_channels (on_open_error l f s) = v2_channels s"
  by (auto simp: on_open_error_def chans.view_send intro!: chans.view_fold split: option.split)

lemma credit_channels: "v2_channels (fst (credit_shares now d n s)) = v2_channels s"
  by (simp add: credit_shares_def note_low_ratio2_def Let_def)

lemma miner_channels: "v2_channels (fst (on_miner_frame l m f s)) = v2_channels s"
  by (simp add: on_miner_frame_def request_open_def chans.view_send Let_def split: option.split)

lemma attach_channels: "v2_channels (snd (attach_member sp s)) = v2_channels s"
  by (simp add: attach_member_def add_member_def request_open_def chans.view_send Let_def split: option.split)

lemma detach_channels:
  "v2_channels (snd (detach_member m s)) = filter (\<lambda>c. ch_owner c \<noteq> m) (v2_channels s)"
proof -
  have "v2_channels ((case x of None \<Rightarrow> y | Some f \<Rightarrow> send_upstream f y)\<lparr>v2_up_to_down := u\<rparr>) = v2_channels y" for x y u
    by (simp add: chans.view_send split: option.split)
  then show ?thesis
    by (simp add: detach_member_def Let_def chans.view_fold)
qed

lemma on_record_detach:
  "on_record up s = Some (o', d) \<Longrightarrow> o' \<noteq> m \<Longrightarrow> on_record up (snd (detach_member m s)) = Some (o', d)"
proof -
  have "List.find P xs = Some c \<Longrightarrow> Q c \<Longrightarrow> List.find P (filter Q xs) = Some c" for P Q and c :: sv2_channel and xs
    by (induction xs) (auto split: if_splits)
  then show "on_record up s = Some (o', d) \<Longrightarrow> o' \<noteq> m \<Longrightarrow> on_record up (snd (detach_member m s)) = Some (o', d)"
    by (auto simp: on_record_def find_up_def detach_channels)
qed

section \<open>A run of the rig\<close>

text \<open>The inputs during which a channel of the member \<open>m\<close> stays: anything but a swap, the leaving of
  the member, and the lines of a translated pool (a rig that is not translating has none of its
  generation).\<close>

fun keeps_channel :: "u64 \<Rightarrow> u32 \<Rightarrow> proxy_input \<Rightarrow> bool" where
  "keeps_channel g m (Sv2Upstream g' (TranslatedLine now down wl st)) \<longleftrightarrow> g' \<noteq> g"
| "keeps_channel g m (Sv2Detach m') \<longleftrightarrow> m' \<noteq> m"
| "keeps_channel g m (Sv2Native sn t r ro) \<longleftrightarrow> False"
| "keeps_channel g m (Sv2Translated g' t r ms first conn) \<longleftrightarrow> False"
| "keeps_channel g m i \<longleftrightarrow> True"

text \<open>What an input makes of the target of a channel: only the pool's \<open>SetTarget\<close> for that very channel
  counts.\<close>

fun retarget :: "lib \<Rightarrow> u64 \<Rightarrow> u32 \<Rightarrow> proxy_input \<Rightarrow> xf64 \<Rightarrow> xf64" where
  "retarget l g up (Sv2Upstream g' (NativeFrame now f)) d =
     (if g' = g \<and> msg_type f = Some MtSetTarget \<and> read_channel_id f = Some up
      then case parse_set_target l f of Some t \<Rightarrow> Finite (difficulty_from_target l t) | None \<Rightarrow> d
      else d)"
| "retarget l g up i d = d"

definition rig_run :: "lib \<Rightarrow> proxy_input list \<Rightarrow> sv2_session \<Rightarrow> sv2_session" where
  "rig_run l is s = fold (\<lambda>i s. fst (step2 l i s)) is s"

interpretation settled_upstream: sv2_meter "\<lambda>s. (v2_generation s, v2_routing s)" "\<lambda>a ev b. b = a"
proof unfold_locales
  show "(v2_generation (fst (credit_shares now d n s)), v2_routing (fst (credit_shares now d n s)))
      = (v2_generation s, v2_routing s)" for now d n s
    by (simp add: credit_shares_def note_low_ratio2_def Let_def)
qed (auto split: routing.split)

lemma keeps_upstream:
  assumes "keeps_channel g m i"
  shows "v2_generation (fst (step2 l i s)) = v2_generation s" "v2_routing (fst (step2 l i s)) = v2_routing s"
proof -
  have "(v2_generation (fst (step2 l i s)), v2_routing (fst (step2 l i s))) = (v2_generation s, v2_routing s)"
    using assms settled_upstream.react_metered settled_upstream.miner_metered settled_upstream.view_members
    by (cases i) (simp_all add: settled_upstream.view_snapshot force_reconnect2_def)
  then show "v2_generation (fst (step2 l i s)) = v2_generation s" "v2_routing (fst (step2 l i s)) = v2_routing s"
    by simp_all
qed

lemma frame_on_record:
  assumes "on_record up s = Some (m, d)"
  shows "on_record up (fst (on_upstream_frame l now g f s))
     = Some (m, retarget l (v2_generation s) up (Sv2Upstream g (NativeFrame now f)) d)"
proof (cases "msg_type f")
  case (Some mt)
  have scoped: "\<not> is_open_success MtSetTarget" "is_channel_scoped MtSetTarget"
    by (simp_all add: is_open_success_def is_channel_scoped_def)
  have kept: "on_record up (forward_down f x y) = on_record up y"
    "on_record up (fst (on_submit_success l now f x y)) = on_record up y" for x y
    by (rule on_record_channels, simp add: chans.view_forward on_submit_success_def credit_channels Let_def)+
  consider (stale) "g \<noteq> v2_generation s" | (opened) "g = v2_generation s" "is_open_success mt"
    | (error) "g = v2_generation s" "\<not> is_open_success mt" "mt = MtOpenMiningChannelError"
    | (other) "g = v2_generation s" "\<not> is_open_success mt" "mt \<noteq> MtOpenMiningChannelError" by blast
  then show ?thesis
  proof cases
    case opened
    obtain cs where "v2_channels (on_open_success l f s) = v2_channels s @ cs"
      using open_success_channels by blast
    from on_record_more [OF this assms] opened Some scoped show ?thesis
      by (auto simp: on_upstream_frame_def)
  next
    case error
    with Some assms show ?thesis
      by (simp add: on_upstream_frame_def on_record_channels [OF open_error_channels])
  next
    case other
    with Some assms scoped show ?thesis
      by (auto simp: on_upstream_frame_def Let_def split_def kept on_record_target split: option.split)
  qed (use Some assms in \<open>simp add: on_upstream_frame_def\<close>)
qed (use assms in \<open>simp add: on_upstream_frame_def\<close>)

lemma step_on_record:
  assumes "on_record up s = Some (m, d)" "keeps_channel (v2_generation s) m i"
  shows "on_record up (fst (step2 l i s)) = Some (m, retarget l (v2_generation s) up i d)"
proof -
  have snap: "v2_channels (snd (swap_snapshot_of s)) = v2_channels s" by (simp add: swap_snapshot_of_def Let_def)
  have reconnect: "v2_channels (force_reconnect2 s) = v2_channels s" by (simp add: force_reconnect2_def)
  show ?thesis
  proof (cases i)
    case (Sv2Upstream g x)
    show ?thesis
    proof (cases x)
      case (NativeFrame now f)
      with Sv2Upstream frame_on_record [OF assms(1), of l now g f] show ?thesis by simp
    next
      case (TranslatedLine now down wl st)
      with Sv2Upstream assms have "v2_react l g x s = (s, [])"
        by (intro sv2_reader.stale) auto
      with TranslatedLine Sv2Upstream assms(1) show ?thesis by simp
    qed
  next
    case (Sv2Detach m')
    with assms on_record_detach [OF assms(1), of m'] show ?thesis by simp
  qed (use assms in \<open>simp_all add: on_record_channels [OF miner_channels] on_record_channels [OF attach_channels]
      on_record_channels [OF snap] on_record_channels [OF reconnect]\<close>)
qed

lemma run_on_record:
  assumes "on_record up s = Some (m, d)" "\<forall>i\<in>set is. keeps_channel (v2_generation s) m i"
  shows "on_record up (rig_run l is s) = Some (m, fold (retarget l (v2_generation s) up) is d)
    \<and> v2_generation (rig_run l is s) = v2_generation s \<and> v2_routing (rig_run l is s) = v2_routing s"
  using assms
proof (induction "is" arbitrary: s d)
  case Nil
  then show ?case by (simp add: rig_run_def)
next
  case (Cons i "is")
  from Cons.prems have i: "keeps_channel (v2_generation s) m i" by simp
  note u = keeps_upstream [OF i, of l s]
  from Cons.IH [OF step_on_record [OF Cons.prems(1) i, of l]] Cons.prems(2) show ?case
    by (simp add: rig_run_def u)
qed

text \<open>C10: A rig's shares are billed at the target their channel has. Take a channel of a rig on an SV2
  pool, and anything that happens to the rig short of a swap or the leaving of the channel's owner:
  frames of the pool for this or other channels, late frames of earlier pools, opens that succeed
  or fail, frames of any member, members that join and leave. When the pool then acknowledges
  shares on the channel, exactly their number times the difficulty of the last target the
  pool has set for this channel (the one it was opened with when there was none since) is added
  to the rig's work and, if the rig is rented, billed to its order; nothing when that is zero.\<close>

theorem shares_weighed_by_channel_target:
  assumes "on_record up s = Some (m, d)" and "\<forall>i\<in>set is. keeps_channel (v2_generation s) m i"
    and "msg_type f = Some MtSubmitSharesSuccess" and "read_channel_id f = Some up"
    and "parse_accepted_count l f = Some n"
    and "w = share_work (fold (retarget l (v2_generation s) up) is d) n"
    and "on_upstream_frame l now (v2_generation s) f (rig_run l is s) = (s', ev)"
  shows "ev = (case v2_routing s of Rented oid \<Rightarrow> if 0 < w then [Credit oid w (u64_of_u32 n)] else [] | Idle \<Rightarrow> [])
     \<and> v2_delivered_work s' = v2_delivered_work (rig_run l is s) + max 0 w
     \<and> v2_accepted s' = v2_accepted (rig_run l is s) + (if 0 < w then u64_of_u32 n else 0)"
proof -
  let ?r = "rig_run l is s"
  note r = run_on_record [OF assms(1,2), of l]
  then obtain c where c: "find_up up ?r = Some c" "ch_difficulty c = fold (retarget l (v2_generation s) up) is d"
    by (auto simp: on_record_def)
  have scoped: "\<not> is_open_success MtSubmitSharesSuccess" "is_channel_scoped MtSubmitSharesSuccess"
    by (simp_all add: is_open_success_def is_channel_scoped_def)
  have sub: "on_submit_success l now f up ?r = credit_shares now (ch_difficulty c) n ?r"
    using assms(5) c(1) by (simp add: on_submit_success_def)
  have "s' = forward_down f up (fst (credit_shares now (ch_difficulty c) n ?r))"
    "ev = snd (credit_shares now (ch_difficulty c) n ?r)"
    using assms(7) r assms(3,4) scoped by (simp_all add: on_upstream_frame_def sub split_def Let_def)
  moreover have "v2_delivered_work (forward_down f up x) = v2_delivered_work x"
    "v2_accepted (forward_down f up x) = v2_accepted x" for x
    using books2.view_forward [of f up x] by (simp_all add: books2_def)
  ultimately show ?thesis
    using r c(2) assms(6) by (auto simp: credit_shares_def note_low_ratio2_def Let_def split: routing.split)
qed

text \<open>A rented rig of two machines: the pool sets a new target for the first one's channel, then for
  the other's; a late frame of an earlier pool and a third machine come in between.\<close>

definition new_target :: "u32 \<Rightarrow> nat \<Rightarrow> sv2_frame" where
  "new_target up d = \<lparr>fr_type = Some MtSetTarget, fr_payload = le_bytes 4 (unat up) @ le_bytes 32 (diff1_target div d)\<rparr>"

lemma new_target_simps [simp]:
  "msg_type (new_target up d) = Some MtSetTarget" "read_channel_id (new_target up d) = Some up"
  "parse_set_target sample_lib (new_target up d) = Some (le_bytes 32 (diff1_target div d))"
  using le_word32 [of up]
  by (simp_all add: new_target_def msg_type_def read_channel_id_def parse_set_target_def parse_frame_def
      sample_lib_def sample_dec_def)

lemma new_target_16: "difficulty_from_target sample_lib (le_bytes 32 (diff1_target div 16)) = 16"
  by (simp add: difficulty_from_target_def sample_lib_def le_nat_le_bytes diff1_target_def)

theorem shares_weighed_by_channel_target_witness:
  "\<forall>pool. \<exists>s s'. s = (two_machines pool)\<lparr>v2_routing := Rented ''o1''\<rparr>
     \<and> on_upstream_frame sample_lib 5 (v2_generation s) (frame_of MtSubmitSharesSuccess [11, 3, 2])
         (rig_run sample_lib [Sv2Upstream 0 (NativeFrame 1 (new_target 11 16)),
           Sv2Upstream 9 (NativeFrame 2 (new_target 11 4)), Sv2Attach sample_spec,
           Sv2Upstream 0 (NativeFrame 3 (new_target 12 4))] s) = (s', [Credit ''o1'' 32 2])"
proof
  fix pool
  let ?s = "(two_machines pool)\<lparr>v2_routing := Rented ''o1''\<rparr>" and ?f = "frame_of MtSubmitSharesSuccess [11, 3, 2]"
  let ?is = "[Sv2Upstream 0 (NativeFrame 1 (new_target 11 16)), Sv2Upstream 9 (NativeFrame 2 (new_target 11 4)),
    Sv2Attach sample_spec, Sv2Upstream 0 (NativeFrame 3 (new_target 12 4))]"
  have s: "on_record 11 ?s = Some (1, Finite 8)" "v2_generation ?s = 0" "v2_routing ?s = Rented ''o1''"
    by (simp_all add: on_record_def find_up_def two_machines_def sv2_new_def)
  have d: "fold (retarget sample_lib (v2_generation ?s) 11) ?is (Finite 8) = Finite 16"
    by (simp add: s(2) new_target_16)
  have f: "msg_type ?f = Some MtSubmitSharesSuccess" "read_channel_id ?f = Some 11" "parse_accepted_count sample_lib ?f = Some 2"
    using le_word32 [of 11] le_word32 [of 2]
    by (simp_all add: msg_type_def frame_of_def read_channel_id_def parse_accepted_count_def parse_frame_def
        sample_lib_def sample_dec_def field32_def)
  obtain s' ev where u: "on_upstream_frame sample_lib 5 (v2_generation ?s) ?f (rig_run sample_lib ?is ?s) = (s', ev)"
    by fastforce
  have k: "\<forall>i\<in>set ?is. keeps_channel (v2_generation ?s) 1 i" by simp
  have w: "32 = share_work (fold (retarget sample_lib (v2_generation ?s) 11) ?is (Finite 8)) 2"
    unfolding d by (simp add: share_work_def f64_of_u32_def)
  from shares_weighed_by_channel_target [OF s(1) k f w u] s(3) have "ev = [Credit ''o1'' 32 2]"
    by (simp add: u64_of_u32_def)
  with u show "\<exists>s s'. s = (two_machines pool)\<lparr>v2_routing := Rented ''o1''\<rparr>
     \<and> on_upstream_frame sample_lib 5 (v2_generation s) ?f (rig_run sample_lib ?is s) = (s', [Credit ''o1'' 32 2])"
    by blast
qed

text \<open>What the record misses: a pool may set the target of a whole group. The frame goes to the
  group's members, so they mine at the new target (\<open>upstream_frame_routing\<close>), but no channel's
  difficulty changes.\<close>

lemma group_target_not_recorded:
  assumes "msg_type f = Some MtSetTarget" "read_channel_id f = Some grp" "find_up grp s = None"
  shows "v2_channels (fst (on_upstream_frame l now g f s)) = v2_channels s"
proof -
  have "update_first P h xs = xs" if "List.find P xs = None" for P h and xs :: "sv2_channel list"
    using that by (induction xs) (auto split: if_splits)
  then have "v2_channels (on_set_target l f grp s) = v2_channels s"
    using assms(3) by (simp add: on_set_target_def find_up_def split: option.split)
  with assms show ?thesis
    by (simp add: on_upstream_frame_def is_open_success_def is_channel_scoped_def chans.view_forward Let_def)
qed

text \<open>And nobody asks whose channel a frame of a miner is about: any member of a rig may submit on,
  update or close the channel of another.\<close>

lemma members_not_told_apart:
  assumes "msg_type f = Some mt" "is_channel_scoped mt"
  shows "on_miner_frame l m f s = on_miner_frame l m' f s"
proof -
  have "\<not> is_open_request mt" using assms(2) by (auto simp: is_channel_scoped_def is_open_request_def)
  with assms show ?thesis by (simp add: on_miner_frame_def)
qed

end
