(* ===== verification/Ledger.thy ===== *)
theory Ledger
  imports Billing_Props
begin

text \<open>
  The order store (\<open>src/orders.rs\<close>) against its specification. The store splits an order into a row
  of flat columns and a buffered difference that some later flush writes; what it promises is a
  ledger: a map from ids to orders whose counters are always up to date. A simulation shows that
  every run of the store (creates, cancels, accounting, flushes, ticks of the expiry task) is a run
  of the ledger with the same answers.
\<close>

section \<open>The ledger\<close>

record ledger =
  lg_orders :: "string \<Rightarrow> order option"
  lg_seq :: u64

datatype ledger_op =
    Rent i64 string upstream_target "upstream_target option" i64 f64 f64
  | Stop i64 string
  | Account acct_event
  | Tick i64

datatype answer =
    Created "create_order_error + order"
  | Stopped "string option"
  | Over "order set"
  | Nothing

definition on_order :: "string \<Rightarrow> (order \<Rightarrow> order) \<Rightarrow> ledger \<Rightarrow> ledger" where
  "on_order oid f l = l\<lparr>lg_orders := (lg_orders l)(oid := map_option f (lg_orders l oid))\<rparr>"

definition new_order :: "string \<Rightarrow> i64 \<Rightarrow> string \<Rightarrow> upstream_target \<Rightarrow> upstream_target option
    \<Rightarrow> i64 \<Rightarrow> f64 \<Rightarrow> f64 \<Rightarrow> order" where
  "new_order oid now w t fb until p b = \<lparr>o_id = oid, o_worker = w, o_target = t, o_fallback = fb,
     o_created_ms = now, o_until_ms = until, o_status = Active, o_ended_ms = 0,
     o_delivered_work = 0, o_accepted_shares = 0, o_submitted_shares = 0,
     o_price_per_th_day = p, o_budget = b\<rparr>"

text \<open>A rig is free when no active order of the ledger is its.\<close>

definition rig_free :: "string \<Rightarrow> ledger \<Rightarrow> bool" where
  "rig_free w l \<longleftrightarrow> (\<forall>o'\<in>ran (lg_orders l). o_status o' = Active \<longrightarrow> o_worker o' \<noteq> w)"

definition over :: "i64 \<Rightarrow> order \<Rightarrow> bool" where
  "over now o' \<longleftrightarrow> o_status o' = Active \<and> order_finished now o'"

primrec ledger_exec :: "ledger_op \<Rightarrow> ledger \<Rightarrow> answer \<times> ledger" where
  "ledger_exec (Rent now w t fb until p b) l =
     (let oid = order_key now (lg_seq l); l' = l\<lparr>lg_seq := lg_seq l + 1\<rparr>
      in if lg_orders l oid = None \<and> rig_free w l
         then (Created (Inr (new_order oid now w t fb until p b)),
               l'\<lparr>lg_orders := (lg_orders l)(oid \<mapsto> new_order oid now w t fb until p b)\<rparr>)
         else (Created (Inl AlreadyActive), l'))"
| "ledger_exec (Stop now oid) l =
     (Stopped (map_option o_worker (lg_orders l oid)),
      on_order oid (\<lambda>o'. o'\<lparr>o_status := Cancelled, o_ended_ms := now\<rparr>) l)"
| "ledger_exec (Account e) l = (Nothing, case e of
       Credit oid w n \<Rightarrow> on_order oid (\<lambda>o'. o'\<lparr>o_delivered_work := o_delivered_work o' + w,
         o_accepted_shares := o_accepted_shares o' + n\<rparr>) l
     | Submit oid n \<Rightarrow> on_order oid (\<lambda>o'. o'\<lparr>o_submitted_shares := o_submitted_shares o' + n\<rparr>) l
     | Flush \<Rightarrow> l)"
| "ledger_exec (Tick now) l =
     (Over (mark_ended now ` {o' \<in> ran (lg_orders l). over now o'}),
      l\<lparr>lg_orders := (\<lambda>oid. map_option (\<lambda>o'. if over now o' then mark_ended now o' else o') (lg_orders l oid))\<rparr>)"

section \<open>The store as a ledger\<close>

text \<open>The same operations on the store; a tick of the expiry task flushes first.\<close>

primrec store_exec :: "ledger_op \<Rightarrow> order_store \<Rightarrow> answer \<times> order_store" where
  "store_exec (Rent now w t fb until p b) s = map_prod Created id (create db_up now w t fb until p b s)"
| "store_exec (Stop now oid) s =
     map_prod (\<lambda>r. Stopped (map_option o_worker r)) id (cancel db_up now oid s)"
| "store_exec (Account e) s = (Nothing, os.acct_step e s)"
| "store_exec (Tick now) s = map_prod (\<lambda>f. Over (set f)) id (take_expired db_up now (flush db_up s))"

definition plus_delta :: "work_delta \<Rightarrow> order \<Rightarrow> order" where
  "plus_delta d o' = o'\<lparr>o_delivered_work := o_delivered_work o' + wd_work d,
     o_accepted_shares := o_accepted_shares o' + wd_accepted d,
     o_submitted_shares := o_submitted_shares o' + wd_submitted d\<rparr>"

definition ledger_of :: "order_store \<Rightarrow> ledger" where
  "ledger_of s = \<lparr>lg_orders = (\<lambda>oid. map_option (plus_delta (pending_delta s oid) \<circ> into_order) (row_of s oid)),
     lg_seq = os_seq s\<rparr>"

text \<open>Accounting is for orders that exist, as it is when a session is routed to one.\<close>

definition buffer_known :: "order_store \<Rightarrow> bool" where
  "buffer_known s \<longleftrightarrow> (\<forall>oid. pending_delta s oid = zero_delta \<or> order_known s oid)"

primrec addressed :: "ledger \<Rightarrow> ledger_op \<Rightarrow> bool" where
  "addressed l (Rent now w t fb until p b) = True"
| "addressed l (Stop now oid) = True"
| "addressed l (Account e) = (case e of Credit oid w n \<Rightarrow> lg_orders l oid \<noteq> None
     | Submit oid n \<Rightarrow> lg_orders l oid \<noteq> None | Flush \<Rightarrow> True)"
| "addressed l (Tick now) = True"

lemma ledger_of_simps [simp]:
  "lg_orders (ledger_of s) oid = map_option (plus_delta (pending_delta s oid) \<circ> into_order) (row_of s oid)"
  "lg_seq (ledger_of s) = os_seq s"
  by (simp_all add: ledger_of_def)

lemma plus_delta_zero [simp]: "plus_delta zero_delta o' = o'"
  by (simp add: plus_delta_def)

lemma plus_delta_add:
  "plus_delta (d\<lparr>wd_work := wd_work d + w, wd_accepted := wd_accepted d + n\<rparr>) o' =
     (plus_delta d o')\<lparr>o_delivered_work := o_delivered_work (plus_delta d o') + w,
        o_accepted_shares := o_accepted_shares (plus_delta d o') + n\<rparr>"
  "plus_delta (d\<lparr>wd_submitted := wd_submitted d + n\<rparr>) o' =
     (plus_delta d o')\<lparr>o_submitted_shares := o_submitted_shares (plus_delta d o') + n\<rparr>"
  by (cases o'; simp add: plus_delta_def ac_simps)+

lemma buffer_seq [simp]:
  "os_seq (flush db s) = os_seq s" "os_seq (add_work oid w n s) = os_seq s"
  "os_seq (add_submitted oid n s) = os_seq s"
  by (simp_all add: flush_def add_work_def add_submitted_def Let_def)

lemma plus_delta_simps [simp]:
  "o_status (plus_delta d o') = o_status o'" "o_worker (plus_delta d o') = o_worker o'"
  by (simp_all add: plus_delta_def)

lemma ledger_eqI:
  "lg_seq l = lg_seq l' \<Longrightarrow> (\<And>oid. lg_orders l oid = lg_orders l' oid) \<Longrightarrow> (l::ledger) = l'"
  by (cases l; cases l'; auto)

lemma ledger_of_eqI:
  "os_seq s' = lg_seq l \<Longrightarrow>
   (\<And>oid. map_option (plus_delta (pending_delta s' oid) \<circ> into_order) (row_of s' oid) = lg_orders l oid) \<Longrightarrow>
   ledger_of s' = l"
  by (rule ledger_eqI) simp_all

lemma order_known_ledger: "order_known s oid \<longleftrightarrow> lg_orders (ledger_of s) oid \<noteq> None"
  by (simp add: order_known_def)

section \<open>One operation\<close>

lemma find_snoc: "List.find P (xs @ [x]) =
    (case List.find P xs of Some y \<Rightarrow> Some y | None \<Rightarrow> if P x then Some x else None)"
  by (induction xs) simp_all

lemma ledger_rows:
  assumes "store_inv s"
  shows "ran (lg_orders (ledger_of s)) =
    (\<lambda>r. plus_delta (pending_delta s (r_id r)) (into_order r)) ` set (os_rows s)"
proof -
  have "row_of s (r_id r) = Some r" if "r \<in> set (os_rows s)" for r
    using row_of_mem [OF store_invD(1) [OF assms] that] .
  then show ?thesis
    by (fastforce simp: ran_def dest: row_of_Some)
qed

lemma rig_free_rows:
  assumes "store_inv s"
  shows "rig_free w (ledger_of s) \<longleftrightarrow> \<not> list_ex (\<lambda>r. row_active r \<and> r_worker r = w) (os_rows s)"
  using store_invD(3) [OF assms] status_ok_active
  by (auto simp: rig_free_def ledger_rows [OF assms] list_ex_iff)

lemma into_order_flushed:
  "into_order (row_flush db_up (os_pending s) r) = plus_delta (pending_delta s (r_id r)) (into_order r)"
proof -
  have "into_order (apply_delta (r_id r) d r) = plus_delta d (into_order r)" for d
    by (simp add: into_order_def apply_delta_def plus_delta_def)
  then show ?thesis
    by (simp add: row_flush_def pending_delta_def split: option.split)
qed

lemma flush_ledger:
  assumes "store_inv s"
  shows "ledger_of (flush db_up s) = ledger_of s"
proof (rule ledger_of_eqI)
  fix i
  show "map_option (plus_delta (pending_delta (flush db_up s) i) \<circ> into_order) (row_of (flush db_up s) i) =
      lg_orders (ledger_of s) i"
    using row_of_Some [of s i] row_of_flush [OF store_invD(4) [OF assms], of db_up i]
    by (cases "row_of s i") (simp_all add: into_order_flushed)
qed simp

lemma rent_simulates:
  assumes "store_inv s" "buffer_known s"
  shows "map_prod id ledger_of (store_exec (Rent now w t fb until p b) s) =
    ledger_exec (Rent now w t fb until p b) (ledger_of s)"
proof -
  let ?oid = "order_key now (os_seq s)"
  have guard: "list_ex (\<lambda>r. r_id r = ?oid \<or> row_active r \<and> r_worker r = w) (os_rows s) \<longleftrightarrow>
      \<not> (row_of s ?oid = None \<and> rig_free w (ledger_of s))"
    unfolding rig_free_rows [OF assms(1)] by (auto simp: row_of_def find_None_iff list_ex_iff)
  show ?thesis
  proof (cases "row_of s ?oid = None \<and> rig_free w (ledger_of s)")
    case False
    have "ledger_of (s\<lparr>os_seq := os_seq s + 1\<rparr>) = (ledger_of s)\<lparr>lg_seq := os_seq s + 1\<rparr>"
      by (rule ledger_of_eqI) (simp_all add: row_of_def pending_delta_def)
    with False guard show ?thesis by (auto simp: create_def Let_def)
  next
    case True
    then have none: "List.find (\<lambda>r. r_id r = ?oid) (os_rows s) = None" by (simp add: row_of_def)
    from True assms(2) have zero: "pending_delta s ?oid = zero_delta"
      by (auto simp: buffer_known_def order_known_def)
    let ?row = "\<lparr>r_id = ?oid, r_worker = w,
        r_target_url = t_url t, r_target_user = t_user t, r_target_password = t_password t,
        r_target_authority = t_authority t, r_fallback_url = map_option t_url fb,
        r_fallback_user = map_option t_user fb, r_fallback_password = map_option t_password fb,
        r_fallback_authority = Option.bind fb t_authority, r_created_ms = now, r_until_ms = until,
        r_status = ''active'', r_ended_ms = 0, r_delivered_work = 0, r_accepted_shares = 0,
        r_submitted_shares = 0, r_price_per_th_day = p, r_budget = b\<rparr>"
    obtain row where row: "row = ?row" "r_id row = ?oid" "into_order row = new_order ?oid now w t fb until p b"
      by (cases fb) (simp_all add: into_order_def new_order_def unwrap_str_def)
    let ?s' = "s\<lparr>os_seq := os_seq s + 1, os_rows := os_rows s @ [row]\<rparr>"
    have c: "create db_up now w t fb until p b s = (Inr (new_order ?oid now w t fb until p b), ?s')"
      using True guard by (simp add: create_def Let_def new_order_def row(1))
    have "row_of ?s' i = (if i = ?oid then Some row else row_of s i)" for i
      using row(2) none by (auto simp: row_of_def find_snoc split: option.split)
    moreover have "pending_delta ?s' i = pending_delta s i" for i
      by (simp add: pending_delta_def)
    ultimately have "ledger_of ?s' = (ledger_of s)\<lparr>lg_seq := os_seq s + 1,
        lg_orders := (lg_orders (ledger_of s))(?oid \<mapsto> new_order ?oid now w t fb until p b)\<rparr>"
      by (intro ledger_of_eqI) (simp_all add: zero row(3))
    with True c show ?thesis by (simp add: Let_def)
  qed
qed

lemma stop_simulates:
  assumes "store_inv s"
  shows "map_prod id ledger_of (store_exec (Stop now oid) s) = ledger_exec (Stop now oid) (ledger_of s)"
proof (cases "row_of s oid")
  case None
  then have "cancel db_up now oid s = (None, s)" by (simp add: cancel_def get_order_row)
  moreover have "on_order oid f (ledger_of s) = ledger_of s" for f
    using None by (intro ledger_eqI) (auto simp: on_order_def)
  ultimately show ?thesis using None by simp
next
  case (Some r)
  let ?f = "\<lambda>o'. o'\<lparr>o_status := Cancelled, o_ended_ms := now\<rparr>"
  have id: "r_id x = oid" if "row_of s oid = Some x" for x using row_of_Some [OF that] by simp
  have row: "row_of (s\<lparr>os_rows := map (set_status oid ''cancelled'' now) (os_rows s)\<rparr>) i =
      map_option (set_status oid ''cancelled'' now) (row_of s i)" for i
    by (simp add: row_of_def find_map_id)
  have into: "plus_delta d (into_order (set_status oid ''cancelled'' now x)) =
      (if r_id x = oid then ?f (plus_delta d (into_order x)) else plus_delta d (into_order x))" for d x
    by (simp add: set_status_def into_order_def plus_delta_def)
  let ?s' = "s\<lparr>os_rows := map (set_status oid ''cancelled'' now) (os_rows s)\<rparr>"
  have pending: "pending_delta ?s' i = pending_delta s i" for i by (simp add: pending_delta_def)
  have "ledger_of ?s' = on_order oid ?f (ledger_of s)"
  proof (rule ledger_of_eqI)
    fix i
    show "map_option (plus_delta (pending_delta ?s' i) \<circ> into_order) (row_of ?s' i) =
        lg_orders (on_order oid ?f (ledger_of s)) i"
      unfolding row pending using row_of_Some [of s i] into
      by (cases "row_of s i") (auto simp: on_order_def)
  qed (simp add: on_order_def)
  with Some show ?thesis by (simp add: cancel_def get_order_row)
qed

lemma account_simulates:
  assumes "store_inv s"
  shows "map_prod id ledger_of (store_exec (Account e) s) = ledger_exec (Account e) (ledger_of s)"
proof (cases e)
  case (Credit oid w n)
  have "ledger_of (add_work oid w n s) = on_order oid (\<lambda>o'. o'\<lparr>o_delivered_work := o_delivered_work o' + w,
      o_accepted_shares := o_accepted_shares o' + n\<rparr>) (ledger_of s)"
    by (rule ledger_of_eqI)
      (auto simp: on_order_def plus_delta_add option.map_comp comp_def)
  with Credit show ?thesis by simp
next
  case (Submit oid n)
  have "ledger_of (add_submitted oid n s) =
      on_order oid (\<lambda>o'. o'\<lparr>o_submitted_shares := o_submitted_shares o' + n\<rparr>) (ledger_of s)"
    by (rule ledger_of_eqI)
      (auto simp: on_order_def plus_delta_add option.map_comp comp_def)
  with Submit show ?thesis by simp
next
  case Flush
  with flush_ledger [OF assms] show ?thesis by simp
qed

lemma tick_simulates:
  assumes "store_inv s"
  shows "map_prod id ledger_of (store_exec (Tick now) s) = ledger_exec (Tick now) (ledger_of s)"
proof -
  define x where "x = flush db_up s"
  have inv: "store_inv x" using assms unfolding x_def by (rule store_inv_flush)
  have l: "ledger_of s = ledger_of x" by (simp add: x_def flush_ledger [OF assms])
  have z: "pending_delta x i = zero_delta" for i by (simp add: x_def)
  let ?act = "map into_order (filter row_active (os_rows x))"
  have ov: "row_active r \<and> order_finished now (into_order r) \<longleftrightarrow> over now (into_order r)"
    if "r \<in> set (os_rows x)" for r
    using store_invD(3) [OF inv that] status_ok_active by (auto simp: over_def)
  have fin: "fst (take_expired db_up now x) = map (mark_ended now) (filter (order_finished now) ?act)"
    and rows: "os_rows (snd (take_expired db_up now x)) = map (row_expire db_up now ?act) (os_rows x)"
    and rest: "os_pending (snd (take_expired db_up now x)) = os_pending x"
      "os_seq (snd (take_expired db_up now x)) = os_seq x"
    by (simp_all add: take_expired_eq Let_def)
  have hit: "into_order (row_expire db_up now ?act r) =
      (if over now (into_order r) then mark_ended now (into_order r) else into_order r)"
    if r: "r \<in> set (os_rows x)" for r
  proof -
    have "y = r" if "y \<in> set (os_rows x)" "r_id y = r_id r" for y
      using row_of_mem [OF store_invD(1) [OF inv] that(1)] row_of_mem [OF store_invD(1) [OF inv] r] that(2)
      by (metis option.inject)
    then have "(\<exists>o'\<in>set ?act. order_finished now o' \<and> o_id o' = r_id r \<and> db_up (UpdateEnded (r_id r)))
        \<longleftrightarrow> over now (into_order r)"
      using r ov by auto
    then show ?thesis by (auto simp: row_expire_def mark_ended_def into_order_def)
  qed
  have "row_of (snd (take_expired db_up now x)) i = map_option (row_expire db_up now ?act) (row_of x i)" for i
    by (simp add: row_of_def rows find_map_id)
  moreover have "pending_delta (snd (take_expired db_up now x)) i = zero_delta" for i
    using z [of i] by (simp add: pending_delta_def rest)
  ultimately have "lg_orders (ledger_of (snd (take_expired db_up now x))) i =
      map_option (\<lambda>o'. if over now o' then mark_ended now o' else o') (lg_orders (ledger_of x) i)" for i
    using row_of_Some [of x i] hit by (cases "row_of x i") (simp_all add: z)
  then have "ledger_of (snd (take_expired db_up now x)) = snd (ledger_exec (Tick now) (ledger_of s))"
    by (intro ledger_eqI) (simp_all add: rest l)
  moreover have "set (fst (take_expired db_up now x)) = mark_ended now ` {o' \<in> ran (lg_orders (ledger_of s)). over now o'}"
    unfolding fin l ledger_rows [OF inv] using ov by (auto simp: z)
  ultimately show ?thesis by (simp add: x_def map_prod_def split_def)
qed

section \<open>Runs\<close>

primrec run_ops :: "('op \<Rightarrow> 's \<Rightarrow> 'a \<times> 's) \<Rightarrow> 'op list \<Rightarrow> 's \<Rightarrow> 'a list \<times> 's" where
  "run_ops exec [] s = ([], s)"
| "run_ops exec (x # xs) s = (let (a, s1) = exec x s; (as, s2) = run_ops exec xs s1 in (a # as, s2))"

primrec all_addressed :: "ledger_op list \<Rightarrow> ledger \<Rightarrow> bool" where
  "all_addressed [] l = True"
| "all_addressed (x # xs) l = (addressed l x \<and> all_addressed xs (snd (ledger_exec x l)))"

lemma op_simulates:
  assumes "store_inv s" "buffer_known s"
  shows "map_prod id ledger_of (store_exec x s) = ledger_exec x (ledger_of s)"
  using assms by (cases x) (simp_all only: rent_simulates stop_simulates account_simulates tick_simulates)

lemma op_inv: "store_inv s \<Longrightarrow> store_inv (snd (store_exec x s))"
  by (cases x) (auto intro: inv_intros os.acct_step_inv)

lemma buffer_known_mono:
  assumes "buffer_known s" "r_id ` set (os_rows s) \<subseteq> r_id ` set (os_rows s')"
    and "\<And>i. pending_delta s' i = pending_delta s i \<or> pending_delta s' i = zero_delta \<or> order_known s i"
  shows "buffer_known s'"
  using assms unfolding buffer_known_def order_known_iff by (metis subsetD)

lemma op_buffer:
  assumes "store_inv s" "buffer_known s" "addressed (ledger_of s) x"
  shows "buffer_known (snd (store_exec x s))"
proof (rule buffer_known_mono [OF assms(2)])
  have k: "order_known (snd (store_exec x s)) i" if "order_known s i" for i
  proof -
    have "lg_orders (snd (ledger_exec x l)) i \<noteq> None" if "lg_orders l i \<noteq> None" for l
      using that by (cases x) (auto simp: on_order_def Let_def split: acct_event.split)
    moreover have "ledger_of (snd (store_exec x s)) = snd (ledger_exec x (ledger_of s))"
      using op_simulates [OF assms(1,2), of x] by (metis snd_map_prod)
    ultimately show ?thesis using that unfolding order_known_ledger by simp
  qed
  then show "r_id ` set (os_rows s) \<subseteq> r_id ` set (os_rows (snd (store_exec x s)))"
    unfolding order_known_iff by blast
  fix i
  have same: "pending_delta s1 i = pending_delta s2 i" if "os_pending s1 = os_pending s2" for s1 s2
    using that by (simp add: pending_delta_def)
  show "pending_delta (snd (store_exec x s)) i = pending_delta s i
      \<or> pending_delta (snd (store_exec x s)) i = zero_delta \<or> order_known s i"
  proof (cases x)
    case (Rent now w t fb until p b)
    have "os_pending (snd (create db_up now w t fb until p b s)) = os_pending s"
      by (simp add: create_def Let_def)
    from same [OF this] show ?thesis by (simp add: Rent)
  next
    case (Stop now oid)
    have "os_pending (snd (cancel db_up now oid s)) = os_pending s"
      by (simp add: cancel_def split: option.split)
    from same [OF this] show ?thesis by (simp add: Stop)
  next
    case (Account e)
    with assms(3) show ?thesis by (cases e) (auto simp: order_known_ledger)
  next
    case (Tick now)
    have "os_pending (snd (take_expired db_up now (flush db_up s))) = os_pending (flush db_up s)"
      by (simp add: take_expired_eq Let_def)
    from same [OF this] show ?thesis by (simp add: Tick)
  qed
qed


definition demo_ops :: "ledger_op list" where
  "demo_ops = [Rent 1000 ''w1'' demo_target None 0 1 100, Account (Credit (order_key 1000 0) 5 1),
     Rent 2000 ''w1'' demo_target None 0 1 100, Account Flush, Account (Credit (order_key 1000 0) 2 1),
     Stop 3000 (order_key 1000 0)]"

definition empty_ledger :: ledger where
  "empty_ledger = \<lparr>lg_orders = (\<lambda>oid. None), lg_seq = 0\<rparr>"

lemma ledger_of_new: "ledger_of (order_store_new [] 0) = empty_ledger"
  by (rule ledger_of_eqI) (simp_all add: order_store_new_def empty_ledger_def row_of_def)

definition one_order :: "string \<Rightarrow> order \<Rightarrow> u64 \<Rightarrow> ledger" where
  "one_order k o' q = \<lparr>lg_orders = [k \<mapsto> o'], lg_seq = q\<rparr>"

lemma one_order_exec:
  "ledger_exec (Rent now w t fb until p b) empty_ledger =
     (Created (Inr (new_order (order_key now 0) now w t fb until p b)),
      one_order (order_key now 0) (new_order (order_key now 0) now w t fb until p b) 1)"
  "o_status o' = Active \<Longrightarrow> o_worker o' = w \<Longrightarrow>
     ledger_exec (Rent now w t fb until p b) (one_order k o' q) =
       (Created (Inl AlreadyActive), one_order k o' (q + 1))"
  "on_order k f (one_order k o' q) = one_order k (f o') q"
  "lg_orders (one_order k o' q) k = Some o'"
  by (simp_all add: empty_ledger_def one_order_def rig_free_def Let_def on_order_def)


end
