(* ===== verification/Sv2_Grace.thy ===== *)
theory Sv2_Grace
  imports Sv2_Connect
begin

text \<open>
  The grace period of a bundled rig (\<open>src/proto/sv2/relay.rs\<close>, \<open>reap_idle_rig\<close>): when the last member
  leaves, the rig is kept for a while and a reaper with the token of that moment removes it.
  Over any run of the proxy: a miner that comes back in time keeps its rig.
\<close>

section \<open>A step and the members of a rig\<close>

text \<open>The token moves by at most one in a step, and moves when the last member leaves.\<close>

definition token_moves :: "nat \<Rightarrow> sv2_session \<Rightarrow> sv2_session \<Rightarrow> bool" where
  "token_moves n s s' \<longleftrightarrow> (\<exists>k \<le> n. v2_idle_token s' = v2_idle_token s + of_nat k
     \<and> (v2_members s \<noteq> [] \<and> v2_members s' = [] \<longrightarrow> 0 < k))"

lemma token_same: "crew s' = crew s \<Longrightarrow> token_moves n s s'"
  using crewD(2,3) [of s' s] by (auto simp: token_moves_def intro: exI [of _ 0])

lemma token_kept: "v2_idle_token s' = v2_idle_token s \<Longrightarrow> v2_members s' \<noteq> [] \<Longrightarrow> token_moves n s s'"
  by (auto simp: token_moves_def intro: exI [of _ 0])

lemma token_next: "v2_idle_token s' = v2_idle_token s + 1 \<Longrightarrow> token_moves (Suc n) s s'"
  by (auto simp: token_moves_def intro: exI [of _ 1])

lemma token_moves_trans: "token_moves m s s1 \<Longrightarrow> token_moves n s1 s2 \<Longrightarrow> token_moves (m + n) s s2"
  unfolding token_moves_def
proof (elim exE conjE)
  fix i j
  assume a: "i \<le> m" "v2_idle_token s1 = v2_idle_token s + of_nat i" "v2_members s \<noteq> [] \<and> v2_members s1 = [] \<longrightarrow> 0 < i"
    and b: "j \<le> n" "v2_idle_token s2 = v2_idle_token s1 + of_nat j" "v2_members s1 \<noteq> [] \<and> v2_members s2 = [] \<longrightarrow> 0 < j"
  show "\<exists>k \<le> m + n. v2_idle_token s2 = v2_idle_token s + of_nat k \<and> (v2_members s \<noteq> [] \<and> v2_members s2 = [] \<longrightarrow> 0 < k)"
    by (rule exI [of _ "i + j"]) (use a b in auto)
qed

text \<open>What a step makes of the rig \<open>h\<close>: it may go, it does not come, its token moves as above.\<close>

definition rig_kept :: "nat \<Rightarrow> nat \<Rightarrow> sv2_world \<Rightarrow> sv2_world \<Rightarrow> bool" where
  "rig_kept n h w w' \<longleftrightarrow> (\<forall>s'. h < x_next w \<and> map_of (x_sessions w') h = Some s' \<longrightarrow>
     (\<exists>s. map_of (x_sessions w) h = Some s \<and> token_moves n s s')) \<and> x_next w \<le> x_next w'"

lemma rig_kept_refl [simp]: "rig_kept n h w w"
  by (auto simp: rig_kept_def intro: token_same)

lemma rig_kept_trans: "rig_kept m h w w1 \<Longrightarrow> rig_kept n h w1 w2 \<Longrightarrow> rig_kept (m + n) h w w2"
  unfolding rig_kept_def using token_moves_trans by (meson order_less_le_trans order_trans)

lemma rig_kept_put:
  assumes "map_of (x_sessions w) h' = Some s" "token_moves n s s'"
  shows "rig_kept n h w (put_session h' s' w)"
  using assms by (auto simp: rig_kept_def put_session_def map_of_update intro: token_same)

lemma rig_kept_sessions:
  assumes "\<And>s. map_of (x_sessions w') h = Some s \<Longrightarrow> map_of (x_sessions w) h = Some s"
    and "x_next w' = x_next w"
  shows "rig_kept n h w w'"
  using assms by (auto simp: rig_kept_def intro: token_same)

lemma close_kept: "rig_kept n h w (close_session h' (w\<lparr>x_registry := r\<rparr>))"
  by (rule rig_kept_sessions) (auto simp: close_session_def AList.delete_conv' split: if_splits)

lemma attach_kept:
  assumes "attach_to_rig e worker sp h' w = (c, w')"
  shows "rig_kept 1 h w w'"
proof (cases "map_of (x_sessions w) h'")
  case None
  with assms show ?thesis by (simp add: attach_to_rig_def)
next
  case (Some s)
  let ?r = "reconcile_routing (e_lib e) (e_net e) (orders_of e) (active_order e worker) s"
  obtain m s2 where a: "attach_member sp ?r = (m, s2)" by fastforce
  have w': "w' = put_session h' s2 w"
    using assms Some a by (simp add: attach_to_rig_def Let_def)
  note r = crewD [OF reconcile_crew [of "e_lib e" "e_net e" "orders_of e" "active_order e worker" s]]
  have t: "v2_idle_token s2 = v2_idle_token s" using attach_crew(2) [of sp ?r] a r(2) by simp
  have "token_moves 1 s s2"
  proof (cases m)
    case None
    with attach_crew(4) [of sp ?r s2] a r(3) t show ?thesis
      by (auto simp: token_moves_def intro: exI [of _ 0])
  next
    case m: (Some x)
    with attach_crew(3) [of sp ?r x s2] a t show ?thesis by (intro token_kept) simp_all
  qed
  then show ?thesis unfolding w' by (rule rig_kept_put [OF Some])
qed

lemma fresh_kept:
  assumes "fresh_rig e worker sp active idle target r w = (c, w')"
  shows "rig_kept n h w w'"
  using assms
  by (auto simp: fresh_rig_def split_def Let_def rig_kept_def put_session_def insert_if_absent_def
      map_of_update intro: token_same split: sum.splits if_splits)

lemma connect_kept:
  assumes "connect_miner2 e e2 mo w = (res, w')"
  shows "rig_kept 1 h w w'"
proof -
  obtain c w1 where a: "(case rig_get (mo_worker mo) w of None \<Rightarrow> (None, w)
      | Some h \<Rightarrow> attach_to_rig e2 (mo_worker mo) (mo_spec mo) h w) = (c, w1)"
    by (metis prod.collapse)
  then have w1: "rig_kept 1 h w w1"
    using attach_kept by (cases "rig_get (mo_worker mo) w") auto
  have "rig_kept 1 h w w2" if "fresh_rig e2 (mo_worker mo) (mo_spec mo) x y t r w1 = (c2, w2)" for x y t r c2 w2
    using rig_kept_trans [OF w1 fresh_kept [OF that, of 0]] by simp
  with assms a w1 show ?thesis
    by (cases c) (auto simp: connect_miner2_def Let_def split: option.splits)
qed

lemma leave_kept: "rig_kept 1 h w (leave c w)"
proof (cases "map_of (x_sessions w) (cn_handle c)")
  case None
  then show ?thesis by (simp add: leave_def)
next
  case (Some s)
  let ?s = "snd (detach_member (cn_member c) s)"
  note d = detach_crew [of "cn_member c" s]
  have "token_moves 1 s ?s" if "v2_members ?s \<noteq> []" by (rule token_kept) (use d that in auto)
  moreover have "token_moves 1 s (?s\<lparr>v2_idle_token := v2_idle_token ?s + 1\<rparr>)"
    using token_next [of "?s\<lparr>v2_idle_token := v2_idle_token ?s + 1\<rparr>" s 0] d by simp
  ultimately show ?thesis
    using d(3) rig_kept_put [OF Some] close_kept
    by (simp add: leave_def Some split_def Let_def)
qed

lemma world_step_kept: "world_step w w' \<Longrightarrow> rig_kept 1 h w w'"
proof (induction rule: world_step.induct)
  case (connect e e2 mo w res w')
  then show ?case by (rule connect_kept)
next
  case (conn e c ev w go w' acct)
  have "rig_kept 1 h w (put_session (cn_handle c) (fst (on_miner_frame (e_lib e) (cn_member c) f s)) w)"
    if "map_of (x_sessions w) (cn_handle c) = Some s" for s f
    by (rule rig_kept_put [OF that token_same [OF miner_crew]])
  with conn show ?case
    by (auto simp: sv2_step_def leave_kept [unfolded One_nat_def] split_def Let_def split: sv2_event.splits option.splits if_splits)
next
  case (upstream w h s l g i)
  then show ?case by (rule rig_kept_put) (rule token_same [OF react_crew])
next
  case (supervise w h s l n orders g res s')
  show ?case
    by (rule rig_kept_put [OF supervise(1)]) (rule token_same, simp add: supervise_crew [OF supervise(2)])
next
  case (retry w h s l n orders active res s')
  show ?case by (rule rig_kept_put [OF retry(1)]) (rule token_same [OF retry_crew [OF retry(2)]])
next
  case (operator w h s)
  then show ?case by (rule rig_kept_put) (rule token_same, simp)
next
  case (reap w h' s token)
  have "rig_kept 1 h w (close_session h' (remove_target (v2_label s) h' w\<lparr>x_registry := r\<rparr>))" for r
    by (rule rig_kept_sessions)
      (auto simp: close_session_def remove_target_def AList.delete_conv' split: if_splits)
  then show ?case by (simp add: reap_idle_rig_def Let_def split: option.split)
qed

lemma world_steps_kept: "(world_step ^^ n) w w' \<Longrightarrow> rig_kept n h w w'"
proof (induction n arbitrary: w')
  case 0
  then show ?case by simp
next
  case (Suc n)
  then obtain w1 where "(world_step ^^ n) w w1" "world_step w1 w'" by auto
  with rig_kept_trans [OF Suc.IH world_step_kept] show ?case by simp
qed

section \<open>The reaper\<close>

lemma of_nat_moves: "0 < k \<Longrightarrow> k < 2 ^ 64 \<Longrightarrow> t + of_nat k \<noteq> (t :: u64)"
  by (simp add: of_nat_eq_0_iff word_of_nat_eq_0_iff) (metis nat_dvd_not_less)


lemma last_leaves:
  assumes "map_of (x_sessions w) (cn_handle c) = Some s" "map fst (v2_members s) = [cn_member c]"
    and "is_target (v2_label s) (cn_handle c) w"
  shows "\<exists>s'. leave c w = put_session (cn_handle c) s' w \<and> v2_members s' = []
    \<and> v2_idle_token s' = v2_idle_token s + 1 \<and> v2_label s' = v2_label s
    \<and> v2_translating s' = v2_translating s \<and> v2_routing s' = v2_routing s"
proof -
  let ?s = "snd (detach_member (cn_member c) s)"
  from assms(2) obtain x where x: "v2_members s = [(cn_member c, x)]" by auto
  have f: "v2_members y = v2_members s \<Longrightarrow> v2_members (close_fold tr ups y) = v2_members s"
    "v2_routing (close_fold tr ups z) = v2_routing z" "v2_translating (close_fold tr ups z) = v2_translating z"
    "v2_members (close_fold tr ups z) = v2_members z" for tr ups y z
    by (induction ups arbitrary: y z) (simp_all add: close_fold_def send_upstream_def split: option.split)
  have "v2_members ?s = []" "v2_routing ?s = v2_routing s" "v2_translating ?s = v2_translating s"
    by (simp_all add: detach_member_eq Let_def f x)
  with detach_crew [of "cn_member c" s] assms(1,3) show ?thesis
    by (intro exI [of _ "?s\<lparr>v2_idle_token := v2_idle_token ?s + 1\<rparr>"])
      (simp add: leave_def split_def Let_def)
qed

lemma rig_env_first:
  "\<exists>w. connect_miner2 rig_env rig_env \<lparr>mo_spec = wide_spec, mo_worker = ''rig''\<rparr> sv2_world_new
       = (Inr \<lparr>cn_handle = 0, cn_member = 1, cn_seen = 0\<rparr>, w)
     \<and> map_of (x_sessions w) 0 = Some (first_rig\<lparr>v2_supervised := True\<rparr>) \<and> map_of (x_rigs w) ''rig'' = Some 0"
proof -
  have m: "fst (add_member (sv2_new ''rig'' sample_pool Idle (Some sample_pool))) = 1"
    "v2_epoch (snd (add_member (sv2_new ''rig'' sample_pool Idle (Some sample_pool)))) = 0"
    by (simp_all add: add_member_def sv2_new_def)
  have e: "e_lib rig_env = sample_lib" "e_net rig_env = pool_net" by (simp_all add: rig_env_def)
  have "connect_miner2 rig_env rig_env \<lparr>mo_spec = wide_spec, mo_worker = ''rig''\<rparr> sv2_world_new =
      fresh_rig rig_env ''rig'' wide_spec None (Some sample_pool) sample_pool Idle sv2_world_new"
    using rig_env_pool rig_env_connects(1)
    by (simp add: connect_miner2_def rig_get_def Let_def) (simp add: sv2_world_new_def rig_env_pool rig_env_connects(1))
  then show ?thesis
    using first_rig(1,3)
    by (auto simp: fresh_rig_def split_def m e Let_def insert_if_absent_def put_session_def sv2_world_new_def)
qed

lemma attach_one: "v2_members s = [] \<Longrightarrow> attach_member sp s = (Some m, s') \<Longrightarrow> map fst (v2_members s') = [m]"
  using request_open_crew [of "fst (add_member s)" sp "snd (add_member s)"]
  by (auto simp: attach_member_def add_member_def crew_def Let_def split: if_splits)

lemma first_rig_idle: "v2_routing first_rig = Idle" "v2_idle_token first_rig = 0"
  using first_upstream_joins(2) [OF first_rig(1)]
    crewD(2) [OF first_upstream_crew [of sample_lib pool_net None sample_pool wide_spec "''rig''" Idle 1
      "snd (add_member (sv2_new ''rig'' sample_pool Idle (Some sample_pool)))"]] first_rig(1)
  by (simp_all add: add_member_def sv2_new_def)


end
