(* ===== verification/Noise_Keys.thy ===== *)
theory Noise_Keys
  imports Rust_Str
begin

text \<open>
  \<open>src/proto/sv2/keys.rs\<close>: where the proxy's Noise authority key comes from when it starts. The
  base58 codec of the keys and the key generator are the SV2 libraries' and are parameters; the
  environment and the file system are explicit.
\<close>

section \<open>Keys, environment and files\<close>

text \<open>The library's text form of a secret key: parsing may fail.\<close>

record 'k key_codec =
  kc_parse :: "string \<Rightarrow> 'k option"
  kc_print :: "'k \<Rightarrow> string"

text \<open>A file with its permission bits; a path without one, or one that is no text, is not
  readable. \<open>d_writable\<close> says which paths can be written and \<open>d_chmod\<close> where the permissions
  can be set; a new file gets the bits the process' mask leaves.\<close>

record disk_file =
  f_contents :: string
  f_mode :: nat

record disk =
  d_files :: "string \<Rightarrow> disk_file option"
  d_writable :: "string \<Rightarrow> bool"
  d_chmod :: "string \<Rightarrow> bool"
  d_new_mode :: nat

definition read_to_string :: "disk \<Rightarrow> string \<Rightarrow> string option" where
  "read_to_string d path = map_option f_contents (d_files d path)"

definition write_file :: "string \<Rightarrow> string \<Rightarrow> disk \<Rightarrow> bool \<times> disk" where
  "write_file path contents d =
     (if d_writable d path
      then (True, d\<lparr>d_files := (d_files d)(path \<mapsto> \<lparr>f_contents = contents,
              f_mode = (case d_files d path of Some f \<Rightarrow> f_mode f | None \<Rightarrow> d_new_mode d)\<rparr>)\<rparr>)
      else (False, d))"

definition set_permissions :: "string \<Rightarrow> nat \<Rightarrow> disk \<Rightarrow> disk" where
  "set_permissions path mode d =
     (case d_files d path of
        Some f \<Rightarrow> if d_chmod d path then d\<lparr>d_files := (d_files d)(path \<mapsto> f\<lparr>f_mode := mode\<rparr>)\<rparr> else d
      | None \<Rightarrow> d)"

section \<open>The key at start-up\<close>

text \<open>\<open>fresh\<close> is the pair the generator would produce in this process.\<close>

definition from_secret_str :: "'k key_codec \<Rightarrow> string \<Rightarrow> 'k option" where
  "from_secret_str c s = kc_parse c s"

definition persisted_key :: "'k key_codec \<Rightarrow> string \<Rightarrow> disk \<Rightarrow> 'k option" where
  "persisted_key c path d = (case read_to_string d path of
       None \<Rightarrow> None
     | Some contents \<Rightarrow> (if trim contents = [] then None else from_secret_str c (trim contents)))"

definition from_file_or_create :: "'k key_codec \<Rightarrow> 'k \<Rightarrow> string \<Rightarrow> disk \<Rightarrow> 'k \<times> disk" where
  "from_file_or_create c fresh path d = (case persisted_key c path d of
       Some k \<Rightarrow> (k, d)
     | None \<Rightarrow>
         (let (ok, d1) = write_file path (kc_print c fresh @ [CHR 0x0A]) d
          in (fresh, if ok then set_permissions path (6 * 8 ^ 2) d1 else d1)))"

definition from_env_or_generate :: "'k key_codec \<Rightarrow> (string \<Rightarrow> string option) \<Rightarrow> 'k \<Rightarrow> disk \<Rightarrow> 'k \<times> disk" where
  "from_env_or_generate c env fresh d =
     (case Option.bind (env ''RENTAL_PROXY_SV2_SECRET'') (from_secret_str c) of
        Some k \<Rightarrow> (k, d)
      | None \<Rightarrow> (case env ''RENTAL_PROXY_SV2_SECRET_FILE'' of
            Some path \<Rightarrow> (if trim path \<noteq> [] then from_file_or_create c fresh (trim path) d else (fresh, d))
          | None \<Rightarrow> (fresh, d)))"

section \<open>A stable identity\<close>

lemma trim_line: "no_outer_ws s \<Longrightarrow> s \<noteq> [] \<Longrightarrow> trim (s @ [CHR 0x0A]) = s"
proof -
  assume s: "no_outer_ws s" "s \<noteq> []"
  then have "dropWhile is_ws (s @ [CHR 0x0A]) = s @ [CHR 0x0A]"
    by (cases s) (simp_all add: no_outer_ws_def)
  moreover have "dropWhile is_ws (rev s) = rev s"
  proof (cases "rev s")
    case (Cons a u)
    then have "a = last s" by (metis hd_rev list.sel(1))
    with s have "\<not> is_ws a" by (simp add: no_outer_ws_def)
    then show ?thesis unfolding Cons by simp
  qed simp
  moreover have "is_ws CHR 0x0A" by (simp add: is_ws_def)
  ultimately show ?thesis by (simp add: trim_def)
qed

lemma created_key:
  assumes "kc_parse c (kc_print c k) = Some k" "no_outer_ws (kc_print c k)" "kc_print c k \<noteq> []"
    and "d_writable d path" "persisted_key c path d = None"
    and "from_file_or_create c k path d = (k', d')"
  shows "k' = k" "persisted_key c path d' = Some k"
    "\<exists>f. d_files d' = (d_files d)(path \<mapsto> f) \<and> (d_chmod d path \<longrightarrow> f_mode f = 6 * 8 ^ 2)"
proof -
  define m where "m = (if d_chmod d path then 6 * 8 ^ 2
    else case d_files d path of Some f \<Rightarrow> f_mode f | None \<Rightarrow> d_new_mode d)"
  let ?f = "\<lparr>f_contents = kc_print c k @ [CHR 0x0A], f_mode = m\<rparr>"
  have k: "k' = k" and d': "d' = d\<lparr>d_files := (d_files d)(path \<mapsto> ?f)\<rparr>"
    using assms(4-6) by (auto simp: from_file_or_create_def write_file_def set_permissions_def m_def)
  show "k' = k" by (rule k)
  show "persisted_key c path d' = Some k"
    using assms(1-3) by (simp add: d' persisted_key_def read_to_string_def from_secret_str_def trim_line)
  show "\<exists>f. d_files d' = (d_files d)(path \<mapsto> f) \<and> (d_chmod d path \<longrightarrow> f_mode f = 6 * 8 ^ 2)"
    by (intro exI [of _ ?f]) (simp add: d' m_def)
qed

text \<open>With a key file the proxy keeps its Noise identity: the key a start ends up with is the
  one every later start loads, without touching the disk again. A file that already holds a key
  decides; otherwise the generated key is written, no other file changes and only the owner can
  read it. (The SV2 library's base58 form of a key must read back and have no white space around
  it; the path must be writable, and no usable secret set in the environment.)\<close>

theorem noise_identity_is_stable:
  assumes "\<forall>k. kc_parse c (kc_print c k) = Some k"
    and "\<forall>k. no_outer_ws (kc_print c k) \<and> kc_print c k \<noteq> []"
    and "Option.bind (env ''RENTAL_PROXY_SV2_SECRET'') (kc_parse c) = None"
    and "env ''RENTAL_PROXY_SV2_SECRET_FILE'' = Some p" "trim p \<noteq> []" "d_writable d (trim p)"
    and "from_env_or_generate c env fresh d = (k, d')"
  shows "from_env_or_generate c env fresh' d' = (k, d')
    \<and> (case persisted_key c (trim p) d of
         Some k0 \<Rightarrow> k = k0 \<and> d' = d
       | None \<Rightarrow> k = fresh \<and> (\<exists>f. d_files d' = (d_files d)(trim p \<mapsto> f)
           \<and> (d_chmod d (trim p) \<longrightarrow> f_mode f = 6 * 8 ^ 2)))"
proof -
  have env: "from_env_or_generate c env x y = from_file_or_create c x (trim p) y" for x y
    using assms(3-5) by (simp add: from_env_or_generate_def from_secret_str_def [abs_def])
  show ?thesis
  proof (cases "persisted_key c (trim p) d")
    case None
    from created_key [OF _ _ _ assms(6) None, of fresh k d'] assms(1,2,7) show ?thesis
      unfolding env by (simp add: None) (simp add: from_file_or_create_def)
  next
    case (Some k0)
    with assms(7) show ?thesis unfolding env by (auto simp: from_file_or_create_def)
  qed
qed

text \<open>A codec with one letter per unit, for the example.\<close>

definition unary_codec :: "nat key_codec" where
  "unary_codec = \<lparr>kc_parse = (\<lambda>s. if s = [] then None else Some (length s - 1)),
     kc_print = (\<lambda>k. replicate (Suc k) CHR ''k'')\<rparr>"

definition empty_disk :: disk where
  "empty_disk = \<lparr>d_files = Map.empty, d_writable = (\<lambda>p. p = ''/k''), d_chmod = (\<lambda>p. True), d_new_mode = 0\<rparr>"

theorem noise_identity_is_stable_witness:
  "\<exists>d'. from_env_or_generate unary_codec [''RENTAL_PROXY_SV2_SECRET_FILE'' \<mapsto> '' /k''] 5 empty_disk = (5, d')
     \<and> from_env_or_generate unary_codec [''RENTAL_PROXY_SV2_SECRET_FILE'' \<mapsto> '' /k''] 9 d' = (5, d')"
proof -
  let ?env = "[''RENTAL_PROXY_SV2_SECRET_FILE'' \<mapsto> '' /k'']"
  have p: "trim '' /k'' = ''/k''" by (simp add: trim_def is_ws_def)
  have "no_outer_ws (replicate (Suc n) CHR ''k'')" for n
    by (simp add: no_outer_ws_def is_ws_def)
  then have c: "\<forall>k. no_outer_ws (kc_print unary_codec k) \<and> kc_print unary_codec k \<noteq> []"
    "\<forall>k. kc_parse unary_codec (kc_print unary_codec k) = Some k"
    by (simp_all add: unary_codec_def del: replicate.simps)
  obtain k d' where b: "from_env_or_generate unary_codec ?env 5 empty_disk = (k, d')" by fastforce
  have "persisted_key unary_codec ''/k'' empty_disk = None"
    by (simp add: persisted_key_def read_to_string_def empty_disk_def)
  then show ?thesis
    using noise_identity_is_stable [OF c(2,1) _ _ _ _ b, of "'' /k''" 9] b p
    by (auto simp: empty_disk_def)
qed

end
