(* ===== verification/Wire_Props.thy ===== *)
theory Wire_Props
  imports Upstream
begin

text \<open>
  Properties of the protocol codecs and conversions: the in-place rewrite of a channel id,
  re-emitted JSON-RPC lines, difficulty and target, translated shares, and the handshake
  that must not lose the pool's first job.
\<close>

section \<open>Frames and lines\<close>

text \<open>C38: Rewriting a frame's channel id changes the channel id and nothing else: afterwards the
  frame reads back with the new id, with its type, length and every later byte as before,
  writing the old id back restores the frame, and a frame too short to carry an id is
  left alone.\<close>

theorem channel_rewrite_exact:
  "if 4 \<le> length (fr_payload f)
   then read_channel_id (rewrite_channel_id cid f) = Some cid
     \<and> msg_type (rewrite_channel_id cid f) = msg_type f
     \<and> length (fr_payload (rewrite_channel_id cid f)) = length (fr_payload f)
     \<and> drop 4 (fr_payload (rewrite_channel_id cid f)) = drop 4 (fr_payload f)
     \<and> (\<exists>old. read_channel_id f = Some old \<and> rewrite_channel_id old (rewrite_channel_id cid f) = f)
   else rewrite_channel_id cid f = f \<and> read_channel_id f = None"
proof (cases "4 \<le> length (fr_payload f)")
  case True
  then obtain old where "read_channel_id f = Some old" by (simp add: read_channel_id_def)
  with rewrite_read [of f old] True show ?thesis by (simp add: msg_type_def)
qed (simp add: rewrite_short read_channel_id_def)

text \<open>A line the proxy parses and re-emits (a job or share that passes through) parses to
  the same message again: id, method, parameters, result and error all survive.\<close>

theorem reemitted_line_same_message:
  assumes "rpc_parse wl = Some m"
  shows "rpc_parse (to_line m) = Some m"
proof -
  have idem: "opt_value (opt_value v) = opt_value v" for v
    by (simp add: opt_value_def split: option.split json.split)
  from assms obtain j where j: "rpc_of_json j = Some m" by (cases wl) auto
  then have "rpc_norm m = m"
    by (cases j rule: rpc_of_json.cases) (auto simp: rpc_norm_def idem split: if_splits)
  then show ?thesis by (simp add: rpc_roundtrip)
qed

theorem reemitted_line_same_message_witness:
  "rpc_parse (to_line (rpc_norm (rpc_reply (Some (JInt 1)) (JBool True) JNull)))
     = Some (rpc_norm (rpc_reply (Some (JInt 1)) (JBool True) JNull))"
  by (rule reemitted_line_same_message [OF rpc_roundtrip])

section \<open>Difficulty and target\<close>

lemma target_den_mono:
  assumes "0 < d1" "d1 \<le> (d2 :: rat)"
  shows "nat (min \<lfloor>d1 * of_nat target_scale + 1/2\<rfloor> (2 ^ 128 - 1))
     \<le> nat (min \<lfloor>d2 * of_nat target_scale + 1/2\<rfloor> (2 ^ 128 - 1))"
proof -
  have "d1 * of_nat target_scale \<le> d2 * of_nat target_scale"
    using assms(2) by (rule mult_right_mono) simp
  then have "\<lfloor>d1 * of_nat target_scale + 1/2\<rfloor> \<le> \<lfloor>d2 * of_nat target_scale + 1/2\<rfloor>"
    by (intro floor_mono) simp
  then show ?thesis by (intro nat_mono min.mono order_refl)
qed

text \<open>C37: The target handed to an SV2 miner for an SV1 difficulty is always 32 bytes, is the
  difficulty-1 target divided by the difficulty for the whole difficulties pools use, and
  never gets easier as the difficulty grows; a difficulty that is not positive (or not
  finite) gives the easiest target.\<close>

theorem target_of_difficulty:
  "length (target_from_difficulty x) = 32
   \<and> (\<forall>k>0. k < 2 ^ 64 \<longrightarrow> le_nat (target_from_difficulty (Finite (of_nat k))) = diff1_target div k)
   \<and> (\<forall>d1 d2. d1 \<le> d2 \<longrightarrow>
        le_nat (target_from_difficulty (Finite d2)) \<le> le_nat (target_from_difficulty (Finite d1)))
   \<and> (\<forall>d\<le>0. le_nat (target_from_difficulty (Finite d)) = 256 ^ 32 - 1)
   \<and> (\<forall>y. (\<forall>d. y \<noteq> Finite d) \<longrightarrow> le_nat (target_from_difficulty y) = 256 ^ 32 - 1)"
proof -
  have low: "le_nat (target_from_difficulty (Finite d)) = 256 ^ 32 - 1"
    if "d \<le> 0 \<or> \<lfloor>d * of_nat target_scale + 1/2\<rfloor> < 1" for d
    using that by (auto simp: target_from_difficulty_def le_nat_max_target Let_def)
  have anti: "le_nat (target_from_difficulty (Finite d2)) \<le> le_nat (target_from_difficulty (Finite d1))"
    if le: "d1 \<le> d2" for d1 d2
  proof (cases "d1 \<le> 0 \<or> \<lfloor>d1 * of_nat target_scale + 1/2\<rfloor> < 1")
    case True
    then show ?thesis using low [OF True] le_nat_target_le by simp
  next
    case False
    let ?f = "\<lambda>d. \<lfloor>(d :: rat) * of_nat target_scale + 1/2\<rfloor>"
    have d: "0 < d1" "1 \<le> ?f d1" "0 < d2" using False le by auto
    have "d1 * of_nat target_scale \<le> d2 * of_nat target_scale"
      using le by (rule mult_right_mono) simp
    then have "?f d1 \<le> ?f d2" by (intro floor_mono) simp
    with d(2) have d2: "1 \<le> ?f d2" by (rule order_trans)
    have "0 < nat (min (?f d1) (2 ^ 128 - 1))" using d(2) by simp
    with target_den_mono [OF d(1) le] show ?thesis
      unfolding le_nat_target [OF d(1,2)] le_nat_target [OF d(3) d2] by (intro div_le_mono2)
  qed
  have "le_nat (target_from_difficulty y) = 256 ^ 32 - 1" if "\<forall>d. y \<noteq> Finite d" for y
    using that by (cases y) (simp_all add: target_from_difficulty_def le_nat_max_target)
  with low anti target_at_integer show ?thesis by auto
qed

theorem target_of_difficulty_witness:
  "le_nat (target_from_difficulty (Finite (of_nat 1024))) = diff1_target div 1024
   \<and> le_nat (target_from_difficulty (Finite 5)) \<le> le_nat (target_from_difficulty (Finite (3/2)))
   \<and> le_nat (target_from_difficulty (Finite 0)) = 256 ^ 32 - 1"
proof (intro conjI)
  show "le_nat (target_from_difficulty (Finite (of_nat 1024))) = diff1_target div 1024"
    using target_of_difficulty [of PosInf, THEN conjunct2, THEN conjunct1, rule_format, of 1024] by simp
  show "le_nat (target_from_difficulty (Finite 5)) \<le> le_nat (target_from_difficulty (Finite (3/2)))"
    by (rule target_of_difficulty [of PosInf, THEN conjunct2, THEN conjunct2, THEN conjunct1, rule_format]) simp
  show "le_nat (target_from_difficulty (Finite 0)) = 256 ^ 32 - 1"
    by (rule target_of_difficulty [of PosInf, THEN conjunct2, THEN conjunct2, THEN conjunct2, THEN conjunct1,
        rule_format]) simp
qed

section \<open>Translated shares\<close>

text \<open>A share translated from SV2 to SV1 is the miner's share: same nonce, time and
  extranonce, the pool's own job id and worker name, and version bits only within the
  negotiated rolling mask, equal to the miner's version there; without version rolling none
  are sent. It fails only when the extranonce does not fit.\<close>

theorem translated_share_faithful:
  "case sv2_submit_to_sv1 sub user job i vmask of
     Inl e \<Rightarrow> 32 < length (xs_extranonce sub)
   | Inr s \<Rightarrow> s_nonce s = xs_nonce sub \<and> s_time s = xs_ntime sub
       \<and> s_extra_nonce2 s = xs_extranonce sub \<and> s_job_id s = job \<and> s_user_name s = user
       \<and> (case vmask of None \<Rightarrow> s_version_bits s = None
          | Some k \<Rightarrow> (\<exists>v. s_version_bits s = Some v \<and> and v (not k) = 0 \<and> and v k = and (xs_version sub) k))"
proof -
  have "and (and v k) (not k) = 0" for v k :: u32
    by (simp add: and.assoc)
  then show ?thesis
    by (simp add: sv2_submit_to_sv1_def fits_b032_def and.assoc split: option.split)
qed

section \<open>The handshake\<close>

definition is_notification :: "line \<Rightarrow> bool" where
  "is_notification wl = (case rpc_parse wl of None \<Rightarrow> False | Some m \<Rightarrow> m_method m \<noteq> None)"

lemma read_response_consumed:
  assumes "read_response lines pre = (Inr m, pre', rest)"
  shows "\<exists>used. lines = used @ rest \<and> pre' = pre @ filter is_notification used"
proof -
  from read_response_split [OF assms] obtain before wl where
    b: "lines = before @ wl # rest" "rpc_parse wl = Some m" "m_method m = None"
      "pre' = pre @ filter (\<lambda>x. rpc_parse x \<noteq> None) before"
      "\<forall>x\<in>set before. \<forall>k. rpc_parse x = Some k \<longrightarrow> m_method k \<noteq> None" by blast
  have "filter (\<lambda>x. rpc_parse x \<noteq> None) before = filter is_notification before"
    using b(5) by (intro filter_cong) (auto simp: is_notification_def split: option.splits)
  with b show ?thesis
    by (intro exI [of _ "before @ [wl]"]) (simp add: is_notification_def)
qed

lemma request_response_consumed:
  "request_response n url i lines pre = (Inr m, pre', rest) \<Longrightarrow>
   \<exists>used. lines = used @ rest \<and> pre' = pre @ filter is_notification used"
  by (auto simp: request_response_def dest: read_response_consumed split: if_splits)

text \<open>No notification is lost in a pool handshake: of everything the pool sent up to the
  end of the handshake, exactly the jobs, difficulties and other notifications are kept, in
  order, for the miner, and reading goes on right after the last response.\<close>

theorem handshake_keeps_notifications:
  assumes "connect_upstream n target cfg ident = Inr conn"
  shows "\<exists>used. nt_lines n (t_url target) = used @ uc_rest conn
    \<and> uc_prelude conn = filter is_notification used"
proof -
  let ?url = "t_url target"
  have "\<exists>u0 pre0 rest0 i0 m1 pre1 rest1 m2. nt_lines n ?url = u0 @ rest0 \<and> pre0 = filter is_notification u0
      \<and> request_response n ?url i0 rest0 pre0 = (Inr m1, pre1, rest1)
      \<and> request_response n ?url (Suc i0) rest1 pre1 = (Inr m2, uc_prelude conn, uc_rest conn)"
  proof (cases cfg)
    case None
    with assms obtain m1 pre1 rest1 m2 where
      "request_response n ?url 0 (nt_lines n ?url) [] = (Inr m1, pre1, rest1)"
      "request_response n ?url (Suc 0) rest1 pre1 = (Inr m2, uc_prelude conn, uc_rest conn)"
      by (auto simp: connect_upstream_def Let_def split: if_splits option.splits sum.splits prod.splits)
    moreover have "nt_lines n ?url = [] @ nt_lines n ?url" "[] = filter is_notification []" by simp_all
    ultimately show ?thesis by blast
  next
    case (Some c)
    obtain r pre0 rest0 where q0: "request_response n ?url 0 (nt_lines n ?url) [] = (r, pre0, rest0)"
      by (metis surj_pair)
    with Some assms obtain m0 where r: "r = Inr m0"
      by (cases r) (auto simp: connect_upstream_def Let_def split: if_splits)
    from request_response_consumed [OF q0 [unfolded r]] obtain u0 where
      "nt_lines n ?url = u0 @ rest0" "pre0 = filter is_notification u0" by auto
    moreover from assms Some q0 r obtain m1 pre1 rest1 m2 where
      "request_response n ?url 1 rest0 pre0 = (Inr m1, pre1, rest1)"
      "request_response n ?url (Suc 1) rest1 pre1 = (Inr m2, uc_prelude conn, uc_rest conn)"
      by (auto simp: connect_upstream_def Let_def split: if_splits option.splits sum.splits prod.splits)
    ultimately show ?thesis by blast
  qed
  then obtain u0 pre0 rest0 i0 m1 pre1 rest1 m2 where
    u0: "nt_lines n ?url = u0 @ rest0" "pre0 = filter is_notification u0"
    and q: "request_response n ?url i0 rest0 pre0 = (Inr m1, pre1, rest1)"
      "request_response n ?url (Suc i0) rest1 pre1 = (Inr m2, uc_prelude conn, uc_rest conn)" by blast
  from request_response_consumed [OF q(1)] request_response_consumed [OF q(2)] obtain u1 u2 where
    "rest0 = u1 @ rest1" "pre1 = pre0 @ filter is_notification u1"
    "rest1 = u2 @ uc_rest conn" "uc_prelude conn = pre1 @ filter is_notification u2" by blast
  with u0 show ?thesis by (intro exI [of _ "u0 @ u1 @ u2"]) simp
qed

definition chatty_lines :: "line list" where
  "chatty_lines = [to_line (rpc_reply (Some (JInt 1)) (JArr [JArr [], JStr ''ab'', JInt 4]) JNull),
     to_line (rpc_request JNull ''mining.set_difficulty'' (JArr [JInt 8])),
     to_line (rpc_reply (Some (JInt 2)) (JBool True) JNull),
     to_line (rpc_request JNull ''mining.notify'' (JArr [JStr ''j1'']))]"

definition chatty_net :: net where
  "chatty_net = \<lparr>nt_tcp = (\<lambda>u. True), nt_tcp_in_time = (\<lambda>u. True), nt_lines = (\<lambda>u. chatty_lines),
     nt_frames = (\<lambda>u. []), nt_noise = (\<lambda>u. False), nt_authority_ok = (\<lambda>u. True),
     nt_write_ok = (\<lambda>u i. True), nt_sv1_in_time = (\<lambda>u. True), nt_sv2_in_time = (\<lambda>u. True)\<rparr>"

definition chatty_pool :: upstream_target where
  "chatty_pool = \<lparr>t_url = ''pool:1'', t_user = ''acct'', t_password = ''x'', t_authority = None\<rparr>"

lemma to_line_parses [simp]: "to_line m \<noteq> Blank"
  using rpc_roundtrip [of m] by auto

theorem handshake_keeps_notifications_witness:
  "\<exists>conn used. connect_upstream chatty_net chatty_pool None ''acct'' = Inr conn
     \<and> chatty_lines = used @ uc_rest conn \<and> uc_prelude conn = filter is_notification used"
proof -
  obtain conn where c: "connect_upstream chatty_net chatty_pool None ''acct'' = Inr conn"
    by (simp add: connect_upstream_def chatty_net_def chatty_lines_def request_response_def
        rpc_roundtrip rpc_norm_def rpc_reply_def rpc_request_def parse_subscribe_result_def opt_value_def
        Let_def)
  from handshake_keeps_notifications [OF c] c show ?thesis by (auto simp: chatty_net_def)
qed

end
