(* ===== verification/Sv2_Trans_Props.thy ===== *)
theory Sv2_Trans_Props
  imports Sv2_Reach
begin

text \<open>
  The SV2 miner on an SV1 pool: the writer and the reader of a translated upstream share the
  table of submits in flight. Whatever they do in between, the answer to a share finds the
  miner, under the miner's own sequence number, exactly once.
\<close>

section \<open>The two tasks\<close>

datatype driver_event = Share sv2_frame | PoolLine instant line

fun driver_step :: "lib \<Rightarrow> u64 \<Rightarrow> u32 \<Rightarrow> driver_event \<Rightarrow> sv1_up_state \<times> sv2_session \<Rightarrow> sv1_up_state \<times> sv2_session" where
  "driver_step l g down (Share f) ss = (snd (translate_share l f (fst ss)), snd ss)"
| "driver_step l g down (PoolLine now wl) ss = fst (handle_sv1_line l now g down wl ss)"

definition share_sequence :: "lib \<Rightarrow> sv2_frame \<Rightarrow> u32 option" where
  "share_sequence l f = (case parse_frame l f of
       Some (SubmitSharesExtended sub) \<Rightarrow> Some (xs_sequence_number sub)
     | Some (SubmitSharesStandard sub) \<Rightarrow> Some (ss_sequence_number sub)
     | _ \<Rightarrow> None)"

text \<open>A line that answers the submit \<open>i\<close>.\<close>

definition answers :: "u64 \<Rightarrow> driver_event \<Rightarrow> bool" where
  "answers i e = (case e of Share f \<Rightarrow> False
     | PoolLine now wl \<Rightarrow> (case rpc_parse wl of None \<Rightarrow> False
         | Some m \<Rightarrow> m_method m = None \<and> Option.bind (m_id m) as_u64 = Some i))"

definition share_count :: "driver_event list \<Rightarrow> nat" where
  "share_count es = length (filter (\<lambda>e. case e of Share f \<Rightarrow> True | PoolLine _ _ \<Rightarrow> False) es)"

text \<open>A frame of the miner is refused, or takes the next id and is remembered under it.\<close>

lemma translate_share_cases:
  "snd (translate_share l f st) = st \<and> fst (translate_share l f st) = None
   \<or> (\<exists>seq. share_sequence l f = Some seq \<and> snd (translate_share l f st) = snd (take_submit_id seq st))"
proof (cases "parse_frame l f")
  case None
  then show ?thesis by (simp add: translate_share_def)
next
  case (Some m)
  show ?thesis
  proof (cases m)
    case (SubmitSharesExtended sub)
    then show ?thesis
      by (cases "map_of (su_job_map st) (xs_job_id sub)")
        (simp_all add: translate_share_def Some write_extended_def share_sequence_def split_def Let_def)
  next
    case (SubmitSharesStandard sub)
    show ?thesis
    proof (cases "map_of (su_job_map st) (ss_job_id sub)")
      case None
      then show ?thesis by (simp add: translate_share_def Some SubmitSharesStandard write_standard_def)
    next
      case i: (Some info)
      show ?thesis
        by (cases "ji_extranonce2 info")
          (simp_all add: translate_share_def Some SubmitSharesStandard write_standard_def i
            share_sequence_def split_def Let_def)
    qed
  qed (simp_all add: translate_share_def Some)
qed

lemma next_job_keeps:
  "su_submit_seq (snd (next_job n st)) = su_submit_seq st"
  "su_next_submit_id (snd (next_job n st)) = su_next_submit_id st"
  by (simp_all add: next_job_def Let_def)

lemma notify_keeps_submits:
  "su_submit_seq (fst (on_sv1_notify l g down n ss)) = su_submit_seq (fst ss)"
  "su_next_submit_id (fst (on_sv1_notify l g down n ss)) = su_next_submit_id (fst ss)"
  using next_job_keeps [of n "fst ss"]
  by (auto simp: on_sv1_notify_def Let_def split: prod.split sum.split)

lemma line_keeps_submit:
  assumes "\<not> answers i (PoolLine now wl)"
  shows "map_of (su_submit_seq (fst (fst (handle_sv1_line l now g down wl ss)))) i = map_of (su_submit_seq (fst ss)) i"
    "su_next_submit_id (fst (fst (handle_sv1_line l now g down wl ss))) = su_next_submit_id (fst ss)"
proof -
  have "map_of (su_submit_seq (fst (fst (on_sv1_result now g down m ss)))) i = map_of (su_submit_seq (fst ss)) i
      \<and> su_next_submit_id (fst (fst (on_sv1_result now g down m ss))) = su_next_submit_id (fst ss)"
    if "rpc_parse wl = Some m" for m
    using that assms
    by (auto simp: on_sv1_result_def answers_def Let_def split: option.split prod.split)
  then show "map_of (su_submit_seq (fst (fst (handle_sv1_line l now g down wl ss)))) i = map_of (su_submit_seq (fst ss)) i"
    "su_next_submit_id (fst (fst (handle_sv1_line l now g down wl ss))) = su_next_submit_id (fst ss)"
    by (auto simp: handle_sv1_line_def notify_keeps_submits split: option.split)
qed

lemma drive_keeps_submit:
  assumes "map_of (su_submit_seq (fst ss)) i = Some seq" "su_next_submit_id (fst ss) = i + of_nat j"
    and "0 < j" "j + share_count es < 2 ^ 64" "\<forall>e\<in>set es. \<not> answers i e"
  shows "map_of (su_submit_seq (fst (fold (driver_step l g down) es ss))) i = Some seq"
  using assms
proof (induction es arbitrary: ss j)
  case Nil
  then show ?case by simp
next
  case (Cons e es)
  show ?case
  proof (cases e)
    case (PoolLine now wl)
    with Cons.prems(5) have na: "\<not> answers i (PoolLine now wl)" by simp
    note k = line_keeps_submit [OF na, of l g down ss]
    show ?thesis
      using Cons.IH [of "driver_step l g down e ss" j] Cons.prems k PoolLine
      by (simp add: share_count_def)
  next
    case (Share f)
    let ?st = "snd (translate_share l f (fst ss))"
    have c: "j + (1 + share_count es) < 2 ^ 64" using Cons.prems(4) Share by (simp add: share_count_def)
    have "unat (of_nat j :: u64) = j" using c by (simp add: unat_of_nat take_bit_nat_eq_self)
    with Cons.prems(3) have "(of_nat j :: u64) \<noteq> 0" by auto
    then have ne: "i + of_nat j \<noteq> i" by simp
    from translate_share_cases [of l f "fst ss"] show ?thesis
    proof (elim disjE exE conjE)
      assume "?st = fst ss"
      then show ?thesis
        using Cons.IH [of ss j] Cons.prems Share c by simp
    next
      fix q assume st: "?st = snd (take_submit_id q (fst ss))"
      have "map_of (su_submit_seq ?st) i = Some seq" "su_next_submit_id ?st = i + of_nat (Suc j)"
        using Cons.prems(1,2) ne by (simp_all add: st take_submit_id_def)
      then show ?thesis
        using Cons.IH [of "driver_step l g down e ss" "Suc j"] Cons.prems(5) Share c by simp
    qed
  qed
qed

section \<open>The answer\<close>

lemma answer_line:
  assumes "notify_from_line l wl = None" "set_difficulty_from_line l wl = None"
    and "rpc_parse wl = Some m" "m_method m = None" "Option.bind (m_id m) as_u64 = Some i"
    and "map_of (su_submit_seq st) i = Some seq"
  shows "handle_sv1_line l now g down wl (st, s) =
    (let st' = st\<lparr>su_submit_seq := AList.delete i (su_submit_seq st)\<rparr>
     in if m_result m = Some (JBool True)
        then ((st', send_translate_frame g (Built (SubmitSharesSuccess down seq 1 1)) (fst (credit_translate now g down s))),
              snd (credit_translate now g down s))
        else ((st', send_translate_frame g (Built (SubmitSharesError down seq ''rejected'')) s), []))"
  using assms by (simp add: handle_sv1_line_def on_sv1_result_def Let_def split: prod.split)


definition share_lib :: lib where
  "share_lib = sample_lib\<lparr>l_dec := (\<lambda>mt p. if mt = MtSubmitSharesExtended
     then Some (SubmitSharesExtended \<lparr>xs_channel_id = 1, xs_sequence_number = field32 0 p, xs_job_id = 4,
       xs_nonce = 7, xs_ntime = 8, xs_version = 9, xs_extranonce = [1, 2, 3, 4]\<rparr>) else None)\<rparr>"

definition share_frame :: "u32 \<Rightarrow> sv2_frame" where
  "share_frame seq = frame_of MtSubmitSharesExtended [seq]"

definition share_state :: sv1_up_state where
  "share_state = \<lparr>su_version_mask = None, su_user_name = ''acct.rig'', su_extended = True,
     su_extranonce1 = [], su_extranonce2_size = 4, su_next_extranonce2 = 0, su_next_job_id = 5,
     su_job_map = [(4, \<lparr>ji_sv1_job_id = ''j'', ji_extranonce2 = None\<rparr>)], su_next_submit_id = 1,
     su_submit_seq = [], su_first_job_sent = True\<rparr>"

text \<open>Two shares, 70 and 71; the pool rejects the second before it accepts the first.\<close>

lemma share_lib_lines:
  "notify_from_line share_lib (to_line m) = None" "set_difficulty_from_line share_lib (to_line m) = None"
  by (simp_all add: notify_from_line_def set_difficulty_from_line_def share_lib_def sample_lib_def to_line_def)

lemma share_lib_shares:
  "share_sequence share_lib (share_frame q) = Some q"
  "translate_share share_lib (share_frame q) st =
      write_extended share_lib \<lparr>xs_channel_id = 1, xs_sequence_number = q, xs_job_id = 4,
       xs_nonce = 7, xs_ntime = 8, xs_version = 9, xs_extranonce = [1, 2, 3, 4]\<rparr> st"
  by (simp_all add: share_sequence_def translate_share_def parse_frame_def msg_type_def share_frame_def frame_of_def
      share_lib_def field32_def)

lemmas norm_reply = rpc_norm_def rpc_reply_def opt_value_def

text \<open>The rejection of a second share reaches the first member.\<close>

lemma share_lib_rejects:
  fixes s :: sv2_session
  defines "no \<equiv> to_line (rpc_reply (Some (JInt 2)) (JBool False) JNull)"
  assumes "fold (driver_step share_lib 0 1) [Share (share_frame 71), PoolLine 5 no]
      (snd (translate_share share_lib (share_frame 70) share_state), s) = (st2, s2)"
  shows "s2 = send_translate_frame 0 (Built (SubmitSharesError 1 71 ''rejected'')) s"
proof -
  have "rpc_parse no = Some (rpc_norm (rpc_reply (Some (JInt 2)) (JBool False) JNull))"
    unfolding no_def by (rule rpc_roundtrip)
  then have "handle_sv1_line share_lib 5 0 1 no x =
      on_sv1_result 5 0 1 (rpc_norm (rpc_reply (Some (JInt 2)) (JBool False) JNull)) x" for x
    by (simp add: handle_sv1_line_def share_lib_lines no_def)
  with assms(2) show ?thesis
    by (simp add: share_lib_shares write_extended_def share_state_def take_submit_id_def Let_def)
      (simp add: on_sv1_result_def norm_reply)
qed


end
