(* ===== verification/Spec2Isabelle.thy ===== *)
theory Spec2Isabelle
  imports Boot Lean_Build Control Buyer_Pool Sv2_Weights Ledger Sv2_Grace Noise_Keys Wire_Props Sv1_Trans_Props Sv1_Swap Sv1_Auth Sv2_Connect
    Sv2_Trans_Props
begin

text \<open>
  A verification development for the Stratum rental proxy (\<open>src/src\<close>): a proxy between the miners of
  sellers and mining pools. Idle, a rig mines on its seller's pool; rented, on the buyer's; the proxy
  measures the work it delivers and bills it to the order. Miners and pools speak Stratum V1 (JSON
  lines) or V2 (binary frames), and the proxy translates when they differ.

  \<^bold>\<open>The program's parts and the theories that model them.\<close>
  \<^item> Shared vocabulary: \<open>Prelude\<close> (machine types, association lists for \<open>HashMap\<close>, theorem
    collections), \<open>Rust_Str\<close> (the string functions used), \<open>Stores\<close>, \<open>Accounting\<close> and \<open>Gen_Guard\<close> (the
    interfaces between components, as locales).
  \<^item> \<open>Session_Model\<close>: \<open>session.rs\<close>, pool targets, routing, the sliding hashrate window.
  \<^item> \<open>Orders\<close>, \<open>Orders_Facts\<close>: \<open>orders.rs\<close>. The \<open>orders\<close> table is a list of rows, the write-behind
    buffer \<open>os_pending\<close> an association list; each method of \<open>OrderStore\<close> is one definition, and an
    oracle argument says which of its SQL statements succeed. \<open>Migrations\<close>: \<open>db.rs\<close> and the SQL
    migrations of the table.
  \<^item> \<open>Sellers\<close>: \<open>store.rs\<close>, the rig table. \<open>Hashrate\<close>: \<open>hashrate.rs\<close>, the ten-minute slots.
    \<open>Registry\<close>: \<open>registry.rs\<close> and \<open>control.rs\<close>, the live sessions per worker and their aggregation;
    \<open>Control\<close>: the handle of \<open>control.rs\<close> on a heap of the sessions of both relays.
  \<^item> \<open>Api\<close>: \<open>api.rs\<close>, every handler, the bearer check and the route table as a function on requests;
    the expiry task of \<open>orders.rs\<close>. \<open>Config_Detect\<close>: \<open>config.rs\<close>, \<open>detect.rs\<close>, the choice of the
    adapter. \<open>Boot\<close>: \<open>main.rs\<close> (start-up, accept loop) and the options of \<open>db.rs\<close>.
    \<open>Noise_Keys\<close>: \<open>keys.rs\<close>. All of this is the build with the \<open>sv2\<close> feature; \<open>Lean_Build\<close> says what the
    one without it does instead (\<open>sv2.rs\<close>).
  \<^item> \<open>Json\<close>: \<open>sv1.rs\<close>. \<open>Sv2_Types\<close>: the messages of the Stratum libraries and, as the record \<open>lib\<close>, the
    library functions the relays call. \<open>Translate\<close>: \<open>translate.rs\<close>. \<open>Wire\<close>: \<open>wire.rs\<close> and \<open>codec.rs\<close>.
    \<open>Upstream\<close>: the client handshakes and the SV2 probe, over a network \<open>net\<close> that says what each
    address answers.
  \<^item> SV1 relay (\<open>relay.rs\<close>): \<open>Sv1_Relay\<close> (the session \<open>sv1_session\<close> is \<open>Inner\<close> with the atomics of
    \<open>Session\<close>; messages in both directions, swap, supervisor), \<open>Sv1_Translate\<close> (an SV2 pool behind an SV1
    miner), \<open>Sv1_Conn\<close> (one miner connection, from accept to teardown).
  \<^item> SV2 relay (\<open>sv2/relay.rs\<close>, \<open>sv2/relay/registry.rs\<close>): \<open>Sv2_Core\<close> (the rig \<open>sv2_session\<close>: channels,
    groups, members, frames in both directions), \<open>Sv2_Translate\<close> (an SV1 pool behind SV2 miners),
    \<open>Sv2_Relay\<close> (swap in snapshot, connection and install; switch, revert, reconcile, supervisor,
    retry), \<open>Sv2_Readers\<close> (what the reader tasks hand over), \<open>Sv2_Rigs\<close> (create or attach, teardown,
    grace period, reaper).

  \<^bold>\<open>How they interact.\<close> A relay asks the order and the seller store for a pool, connects it, and
  registers its session; the API persists a change and then tells the worker's sessions to reconnect;
  the relays report work and submits to the order store, which the flush task writes to the table.
  Tasks run concurrently in the program; each critical section under a lock is one step here, and
  theorems quantify over all sequences of steps. A reader task is bound to the generation of the
  upstream it was started for (\<open>Gen_Guard\<close>), which is what makes late messages of a replaced upstream
  harmless; the API's create is split at its await points (\<open>create_order_check\<close>,
  \<open>create_order_commit\<close>), a rig's swap at its snapshot and its install (\<open>rig_step\<close>), a swap of either
  relay at the reading of its order and its install, an authorize at its look-up (\<open>site_step\<close>). An
  authorize is otherwise one step, although it takes the session's lock several times; where that
  matters is shown in \<open>attach_after_revert\<close>.

  \<^bold>\<open>What the lemmas show.\<close>
  \<^item> The billing chain: in this theory, from anything that happens on a session to the order's bill,
    over \<open>Farm\<close> (the interface: a session's books move by what it bills, also when it is re-routed),
    \<open>Sv1_Quiet\<close> and \<open>Sv2_Quiet\<close> (the interfaces: what a session's messages leave alone),
    \<open>Billing_Flow\<close> (both relays provide it) and the ledger of \<open>Accounting\<close>. \<open>Buyer_Pool\<close>: the billed work
    goes to the buyer, over any run of a session beside the store. \<open>Ledger\<close>: the order store refines a map of orders
    with current counters, answers included. \<open>Billing_Props\<close>, \<open>Orders_Props\<close>: exact billing, one
    active order per worker, ended orders stay ended, the exact meaning of an active order, the
    outcome of a cancel, upgrades of old tables.
  \<^item> The life of a rental: \<open>Rental_Cycle\<close>, from the request that creates it, through any life of the
    store, to the pool the miners of its rig land on; \<open>Control\<close>, from its end (cancel or expiry)
    to the miners that leave and do not come back to it.
  \<^item> The control plane: \<open>Api_Props\<close>, \<open>Api_Reach\<close> (every state reachable through requests, accounting,
    ticks and restarts): authentication, the guarantees of a created order, the race of two creates,
    the freeze of a rented rig's pool, the expiry tick. \<open>Store_Props\<close>: the smaller stores against
    their specifications.
  \<^item> The codecs: \<open>Wire_Props\<close>: channel ids, difficulty and target, translated shares, handshakes
    that keep the notifications they read past.
  \<^item> SV1 sessions: \<open>Sv1_Props\<close>, \<open>Sv1_Swap\<close>, \<open>Sv1_Auth\<close>, \<open>Sv1_Trans_Props\<close>: crediting, the outcome of a
    swap, mute old upstreams, failover, recovery, admission and worker names, acknowledgements.
  \<^item> SV2 rigs: \<open>Sv2_Props\<close> (routing of frames), \<open>Sv2_Swap\<close>, \<open>Sv2_Swap_Props\<close> (what a swap keeps),
    \<open>Sv2_Reach\<close>, \<open>Sv2_Members\<close> (the id spaces in every reachable state, a leaving member), \<open>Sv2_Outage\<close>
    (supervisor and retry during an outage), \<open>Sv2_Trans_Props\<close> (shares on an SV1 pool), \<open>Sv2_Weights\<close> (the
    difficulty shares are billed at), \<open>Sv2_World\<close> (the registries of all rigs), \<open>Sv2_Connect\<close> (the pool
    a connecting miner lands on), \<open>Sv2_Grace\<close> (the grace period of an idle rig over runs).
    \<open>Sample_Lib\<close> is a concrete instance of the library functions for examples.

  \<^bold>\<open>Conventions and bounds.\<close> A Rust integer is a word of its width and wraps as it does in the
  program's release build, except \<open>i64\<close> milliseconds, which are \<open>int\<close>; \<open>f64\<close> is an exact rational (with
  infinities and NaN, \<open>xf64\<close>, where the code tests for them), so no statement is about rounding. A share
  counter in the table is an \<open>int\<close> (SQLite would make a floating-point number of one beyond $2^{63}$). A
  string is a list of Latin-1 code points. A panic the code cannot reach is not modelled. A loop
  that waits between attempts (\<open>supervise_loop\<close>, \<open>supervise_loop2\<close>, \<open>retry_loop\<close>) takes the list of the
  networks its attempts meet: the list is the fuel, one element per attempt, and the liveness theorems
  say that the loop ends at the first element of any such list that lets it. \<open>rig_reach\<close> counts its
  steps and its invariant holds below $2^{31} - 4$ of them, where no 32-bit counter of a rig has
  wrapped. Clock readings, peer addresses and statement outcomes are arguments.

  \<^bold>\<open>Not modelled.\<close> The text form of JSON and the binary payloads other than the channel id (library
  code, parameters of \<open>lib\<close>), the Noise handshake and key generation, axum's extraction of requests,
  TCP framing and back-pressure, timers, logging and metrics, SQLite itself (a table is a list of rows;
  what the file holds at the start is an argument), and the tests.
\<close>

section \<open>From the miner's share to the bill\<close>

text \<open>C1: An order is billed what its rigs deliver while they are rented to it. Whatever happens on
  any number of SV1 and SV2 sessions (lines and frames from current or replaced upstreams, miners
  that are admitted, mine, join and leave, swaps that rent, free or re-rent a rig between any two of
  these), in any order, with the flush task ticking in between, the order reads back after the
  next flush with what it had plus exactly what the steps of sessions rented to it at that moment
  have added to their books: the work, and the accepted and submitted shares modulo $2^{64}$. While
  no session is re-routed this is what its sessions have in the end over what they had before.\<close>

theorem rental_paid_for_work:
  assumes "store_reach st" and "get_order db_up oid st = Some o'"
  shows "get_order db_up oid (flush db_up (fold os.acct_step (snd (proxy.farm l es f)) st)) = Some (o'\<lparr>
      o_delivered_work := o_delivered_work o' + wd_work (pending_delta st oid)
        + earned oid bk_work (proxy.entries l es f),
      o_accepted_shares := o_accepted_shares o' + wd_accepted (pending_delta st oid)
        + earned oid bk_accepted (proxy.entries l es f),
      o_submitted_shares := o_submitted_shares o' + wd_submitted (pending_delta st oid)
        + earned oid bk_submitted (proxy.entries l es f)\<rparr>)
    \<and> ((\<forall>e\<in>set (proxy.entries l es f). keeps_routing e) \<longrightarrow>
        earned oid bk_work (proxy.entries l es f)
          = owed oid bk_work (handles es) (books_of \<circ> f) (books_of \<circ> fst (proxy.farm l es f)))"
proof -
  note b = proxy.farm_earned [of oid l es f]
  have "get_order db_up oid (flush db_up (fold os.acct_step (snd (proxy.farm l es f)) st)) = Some (o'\<lparr>
      o_delivered_work := o_delivered_work o' + wd_work (pending_delta st oid)
        + earned oid bk_work (proxy.entries l es f),
      o_accepted_shares := o_accepted_shares o' + wd_accepted (pending_delta st oid)
        + earned oid bk_accepted (proxy.entries l es f),
      o_submitted_shares := o_submitted_shares o' + wd_submitted (pending_delta st oid)
        + earned oid bk_submitted (proxy.entries l es f)\<rparr>)"
    using flush_reads_back [OF assms, of "snd (proxy.farm l es f)"] b by (simp only:)
  then show ?thesis
    using proxy.earned_owed [OF finite_handles order_refl] by blast
qed

text \<open>Two rigs of one order: an SV1 session whose miner submits a share that its pool accepts,
  and an SV2 rig that is acknowledged two shares; the flush task ticks in between. Then the SV1
  session is swapped back to its idle pool, and its miner's next submit is not billed.\<close>

definition two_rigs :: "nat \<Rightarrow> proxy_session" where
  "two_rigs = (\<lambda>h. if h = 0 then Sv1Rig (rented_miner (demo_session\<lparr>s1_routing := Rented (order_key 1000 0)\<rparr>))
     else Sv2Rig (bundled_rig\<lparr>v2_routing := Rented (order_key 1000 0)\<rparr>))"

definition two_rigs_day :: "sv1_env \<Rightarrow> proxy_input farm_event list" where
  "two_rigs_day e = [Input 0 (Sv1Event e (MinerLine (to_line demo_submit))), FlushTick,
     Input 1 (Sv2Upstream 0 (NativeFrame 5 (frame_of MtSubmitSharesSuccess [11, 3, 2]))),
     Input 0 (Sv1Line 0 6 (to_line (rpc_reply (Some (JInt 4)) (JBool True) JNull))),
     Input 0 (Sv1SwapFinish (RawSv1 (good_conn demo_pool ''acct'')) True 1 demo_pool Idle),
     Input 0 (Sv1Event e (MinerLine (to_line demo_submit)))]"

lemma demo_submit_parsed: "rpc_parse (to_line demo_submit) = Some demo_submit"
  by (simp add: rpc_roundtrip demo_submit_def rpc_norm_def rpc_request_def opt_value_def)

lemma demo_submit_step:
  assumes "w_phase w = Serving" "\<not> s1_reconnect (w_session w)"
  shows "sv1_step e (MinerLine (to_line demo_submit)) w = forward_miner demo_submit w"
  using assms by (simp add: sv1_step_def demo_submit_parsed serve_msg_def auth_worker_def)
    (simp add: demo_submit_def rpc_request_def)

lemma demo_submit_books:
  assumes "\<not> s1_translating s" "s1_generation s = 0" "s1_pending s = []"
  shows "books1 (fst (on_miner_msg demo_submit s)) = (books1 s)\<lparr>bk_submitted := s1_submitted s + 1\<rparr>"
    "s1_pending (fst (on_miner_msg demo_submit s)) = [(JInt 4, (0, s1_difficulty s))]"
    "s1_generation (fst (on_miner_msg demo_submit s)) = 0"
    "s1_reconnect (fst (on_miner_msg demo_submit s)) = s1_reconnect s"
  using assms by (simp_all add: books1_def on_miner_msg_def demo_submit_def rpc_request_def send_up_def
      Let_def id_key_def opt_value_def)


lemma demo_ack_books:
  assumes "s1_pending s = [(JInt 4, (0, d))]" "s1_generation s = 0"
  shows "books1 (fst (upstream_line 6 0 (to_line (rpc_reply (Some (JInt 4)) (JBool True) JNull)) s)) =
      (books1 s)\<lparr>bk_work := s1_delivered_work s + d, bk_accepted := s1_accepted s + 1\<rparr>"
    "s1_reconnect (fst (upstream_line 6 0 (to_line (rpc_reply (Some (JInt 4)) (JBool True) JNull)) s))
      = s1_reconnect s"
  using upstream_line_response [OF rpc_roundtrip, of "rpc_reply (Some (JInt 4)) (JBool True) JNull" 0 s 6] assms
  by (simp_all add: books1_def response_simps relay_simps rpc_norm_def rpc_reply_def id_key_def opt_value_def
      on_upstream_response_def credit_one_def note_low_ratio_def)

lemma demo_swap_books:
  fixes s :: sv1_session and l :: lib
  defines "s' \<equiv> swap_finish l (RawSv1 (good_conn demo_pool ''acct'')) True 1 demo_pool Idle s"
  shows "books1 s' = (books1 s)\<lparr>bk_routing := Idle\<rparr>" "s1_reconnect s' = s1_reconnect s"
proof -
  have "same_meters (books1 s) (books1 s')" by (simp add: s'_def)
  then show "books1 s' = (books1 s)\<lparr>bk_routing := Idle\<rparr>"
    by (simp add: same_meters_def books1_def s'_def relay_simps)
  show "s1_reconnect s' = s1_reconnect s" by (simp add: s'_def relay_simps)
qed

lemma demo_rig_books:
  fixes s :: sv2_session
  assumes "s = bundled_rig\<lparr>v2_routing := r\<rparr>"
  shows "books2 (fst (on_upstream_frame sample_lib 5 0 (frame_of MtSubmitSharesSuccess [11, 3, 2]) s)) =
      (books2 s)\<lparr>bk_work := 16, bk_accepted := 2\<rparr>"
  using le_word32 [of 11] le_word32 [of 2] assms
  by (simp add: on_upstream_frame_def msg_type_def frame_of_def is_open_success_def is_channel_scoped_def
      read_channel_id_def Let_def split_def books2.view_forward [unfolded books2_def] on_submit_success_def
      books2_def credit_shares_def share_work_def parse_accepted_count_def parse_frame_def sample_lib_def
      sample_dec_def field32_def find_up_def bundled_rig_def sv2_new_def note_low_ratio2_def f64_of_u32_def u64_of_u32_def)

lemma two_rigs_entries:
  "\<exists>b'. proxy.entries sample_lib (two_rigs_day e) two_rigs =
     (let r = Rented (order_key 1000 0);
          b = \<lparr>bk_routing = r, bk_work = 0, bk_accepted = 0, bk_submitted = 0\<rparr>
      in [(b, b\<lparr>bk_submitted := 1\<rparr>), (b, b\<lparr>bk_work := 16, bk_accepted := 2\<rparr>),
          (b\<lparr>bk_submitted := 1\<rparr>, b\<lparr>bk_work := 8, bk_accepted := 1, bk_submitted := 1\<rparr>),
          (b\<lparr>bk_work := 8, bk_accepted := 1, bk_submitted := 1\<rparr>,
           \<lparr>bk_routing = Idle, bk_work = 8, bk_accepted = 1, bk_submitted = 1\<rparr>),
          (\<lparr>bk_routing = Idle, bk_work = 8, bk_accepted = 1, bk_submitted = 1\<rparr>, b')])"
proof -
  let ?k = "order_key 1000 0"
  define s where "s = demo_session\<lparr>s1_routing := Rented ?k\<rparr>"
  define rig where "rig = bundled_rig\<lparr>v2_routing := Rented ?k\<rparr>"
  define s1 where "s1 = fst (on_miner_msg demo_submit s)"
  define s2 where "s2 = fst (upstream_line 6 0 (to_line (rpc_reply (Some (JInt 4)) (JBool True) JNull)) s1)"
  define s3 where "s3 = swap_finish sample_lib (RawSv1 (good_conn demo_pool ''acct'')) True 1 demo_pool Idle s2"
  have s: "\<not> s1_translating s" "s1_generation s = 0" "s1_pending s = []" "\<not> s1_reconnect s" "s1_difficulty s = 8"
    "books1 s = \<lparr>bk_routing = Rented ?k, bk_work = 0, bk_accepted = 0, bk_submitted = 0\<rparr>"
    by (simp_all add: s_def demo_session_def new_session_def books1_def)
  have rig: "books2 rig = \<lparr>bk_routing = Rented ?k, bk_work = 0, bk_accepted = 0, bk_submitted = 0\<rparr>"
    by (simp add: rig_def bundled_rig_def sv2_new_def books2_def)
  note m = demo_submit_books [OF s(1-3), folded s1_def, unfolded s(5)]
  note a = demo_ack_books [OF m(2,3), folded s2_def]
  note w = demo_swap_books [of sample_lib s2, folded s3_def]
  have step: "fst (sv1_step e (MinerLine (to_line demo_submit)) (rented_miner x))
      = rented_miner (fst (on_miner_msg demo_submit x))" if "\<not> s1_reconnect x" for x
    using that by (simp add: demo_submit_step forward_miner_def rented_miner_def split_def Let_def)
  have on: "fst (on_session f (rented_miner x)) = Sv1Rig (rented_miner (fst (f x)))" for f x
    by (simp add: on_session_def rented_miner_def split_def Let_def)
  have bk: "books_of (Sv1Rig (rented_miner x)) = books1 x" for x by (simp add: rented_miner_def)
  have nr: "\<not> s1_reconnect s3" "\<not> s1_reconnect s" using m(4) a(2) w(2) s(4) by simp_all
  have idle: "bk_routing (books1 (fst (on_miner_msg demo_submit x))) = bk_routing (books1 x)" for x
    by (simp add: on_miner_msg_def books1_def send_up_def Let_def)
  have w8: "s1_submitted s = 0" "s1_delivered_work s1 = 0" "s1_accepted s1 = 0"
    using s(6) m(1) by (simp_all add: books1_def)
  note books = m(1) a(1) w(1) idle s(6) rig w8 demo_rig_books [OF rig_def]
  have two: "two_rigs = (\<lambda>h. if h = 0 then Sv1Rig (rented_miner s) else Sv2Rig rig)"
    unfolding two_rigs_def s_def rig_def by (rule refl)
  show ?thesis
    unfolding two_rigs_day_def two proxy.entries_Input proxy.entries.simps fun_upd_apply
    by (simp add: step on bk nr Let_def s1_def [symmetric] s2_def [symmetric] s3_def [symmetric] books
        del: books_of.simps(1))
qed

text \<open>24 of work and 3 accepted shares, one submit.\<close>

theorem rental_paid_for_work_witness:
  "\<forall>e. \<exists>o'. get_order db_up (order_key 1000 0) demo_store = Some o'
     \<and> get_order db_up (order_key 1000 0) (flush db_up (fold os.acct_step
          (snd (proxy.farm sample_lib (two_rigs_day e) two_rigs)) demo_store))
       = Some (o'\<lparr>o_delivered_work := 24, o_accepted_shares := 3, o_submitted_shares := 1\<rparr>)"
proof
  fix e
  let ?k = "order_key 1000 0"
  obtain r where r: "os_rows demo_store = [r]" "r_id r = ?k" "r_delivered_work r = 0"
    "r_accepted_shares r = 0" "r_submitted_shares r = 0"
    by (simp add: demo_store_def create_def order_store_new_def Let_def)
  have p: "os_pending demo_store = []"
    by (simp add: demo_store_def create_def order_store_new_def Let_def)
  have g: "get_order db_up ?k demo_store = Some (into_order r)"
    by (simp add: get_order_def r)
  have "o_delivered_work (into_order r) = 0" "o_accepted_shares (into_order r) = 0"
    "o_submitted_shares (into_order r) = 0" "pending_delta demo_store ?k = zero_delta"
    using r p by (simp_all add: into_order_def pending_delta_def)
  moreover have "earned ?k bk_work (proxy.entries sample_lib (two_rigs_day e) two_rigs) = 24"
    "earned ?k bk_accepted (proxy.entries sample_lib (two_rigs_day e) two_rigs) = 3"
    "earned ?k bk_submitted (proxy.entries sample_lib (two_rigs_day e) two_rigs) = 1"
    using two_rigs_entries [of e] by (auto simp: Let_def if_rented_def)
  ultimately show "\<exists>o'. get_order db_up ?k demo_store = Some o'
     \<and> get_order db_up ?k (flush db_up (fold os.acct_step
          (snd (proxy.farm sample_lib (two_rigs_day e) two_rigs)) demo_store))
       = Some (o'\<lparr>o_delivered_work := 24, o_accepted_shares := 3, o_submitted_shares := 1\<rparr>)"
    using rental_paid_for_work [OF demo_store_reach g, of sample_lib "two_rigs_day e" two_rigs] g by simp
qed

end
